(* ===== verification/Py_Prelude.thy ===== *)
theory Py_Prelude
  imports Complex_Main
begin

text \<open>
  Shared vocabulary of the development: exceptions as values of a sum type, the two loop
  shapes the code uses over fallible bodies (``all elements pass, stop at the first that
  does not'' and ``first index whose element passes''), dictionaries as association lists
  in insertion order, and the string methods of Python the code calls.  Strings are lists
  of characters with ASCII meaning for the character classes.
\<close>

named_theorems rx_defs \<open>definitions unfolded when a closed instance is evaluated\<close>
named_theorems rx_splits \<open>case splits of the result type and of options\<close>

declare sum.split [rx_splits] option.split [rx_splits] if_split [rx_splits]

subsection \<open>Results: an exception on the left, a value on the right\<close>

fun rbind :: "'e + 'a \<Rightarrow> ('a \<Rightarrow> 'e + 'b) \<Rightarrow> 'e + 'b" where
  "rbind (Inl e) f = Inl e"
| "rbind (Inr x) f = f x"

lemma rbind_Inr_iff [simp]: "rbind r f = Inr y \<longleftrightarrow> (\<exists>x. r = Inr x \<and> f x = Inr y)"
  by (cases r) auto

lemma rbind_Inl_iff: "rbind r f = Inl e \<longleftrightarrow> r = Inl e \<or> (\<exists>x. r = Inr x \<and> f x = Inl e)"
  by (cases r) auto

lemma rbind_assoc: "rbind (rbind r f) g = rbind r (\<lambda>x. rbind (f x) g)"
  by (cases r) auto

lemma rbind_cong [fundef_cong]:
  "r = r' \<Longrightarrow> (\<And>x. r' = Inr x \<Longrightarrow> f x = f' x) \<Longrightarrow> rbind r f = rbind r' f'"
  by (cases r') auto

text \<open>Computations that also change a state, and keep the change when they raise.\<close>

definition lift :: "'e + 'a \<Rightarrow> 's \<Rightarrow> ('e + 'a) \<times> 's" where
  "lift r s = (r, s)"

definition hbind ::
  "('s \<Rightarrow> ('e + 'a) \<times> 's) \<Rightarrow> ('a \<Rightarrow> 's \<Rightarrow> ('e + 'b) \<times> 's) \<Rightarrow> 's \<Rightarrow> ('e + 'b) \<times> 's" where
  "hbind m f s = (case m s of (Inl e, s') \<Rightarrow> (Inl e, s') | (Inr x, s') \<Rightarrow> f x s')"

lemma hbind_assoc: "hbind (hbind m f) g = hbind m (\<lambda>x. hbind (f x) g)"
  by (rule ext) (simp add: hbind_def split: prod.split sum.split)

text \<open>
  A \<open>for\<close> loop whose body returns False early on a failing element and may raise: the value
  is True when every element passed, and the first element that fails or raises decides.
\<close>

fun forall_res :: "('a \<Rightarrow> 'e + bool) \<Rightarrow> 'a list \<Rightarrow> 'e + bool" where
  "forall_res p [] = Inr True"
| "forall_res p (x # xs) =
     (case p x of Inl e \<Rightarrow> Inl e | Inr b \<Rightarrow> if b then forall_res p xs else Inr False)"

lemma forall_res_cong [fundef_cong]:
  "xs = ys \<Longrightarrow> (\<And>x. x \<in> set ys \<Longrightarrow> p x = q x) \<Longrightarrow> forall_res p xs = forall_res q ys"
  by (induction xs arbitrary: ys) (auto split: sum.split)

lemma forall_res_True_iff: "forall_res p xs = Inr True \<longleftrightarrow> (\<forall>x\<in>set xs. p x = Inr True)"
  by (induction xs) (auto split: sum.splits)

lemma forall_res_no_raise:
  "(\<And>x. x \<in> set xs \<Longrightarrow> \<exists>b. p x = Inr b) \<Longrightarrow>
    forall_res p xs = Inr (\<forall>x\<in>set xs. p x = Inr True)"
proof (induction xs)
  case Nil
  then show ?case by simp
next
  case (Cons x xs)
  then obtain b where "p x = Inr b" by (meson list.set_intros(1))
  with Cons show ?case by (auto split: sum.splits)
qed

lemma forall_res_Inl: "forall_res p xs = Inl e \<Longrightarrow> \<exists>x\<in>set xs. p x = Inl e"
  by (induction xs) (auto split: sum.splits if_splits)

text \<open>The index of the first element that passes; a body that raises stops the search.\<close>

fun find_idx_res :: "('a \<Rightarrow> 'e + bool) \<Rightarrow> 'a list \<Rightarrow> 'e + nat option" where
  "find_idx_res p [] = Inr None"
| "find_idx_res p (x # xs) =
     (case p x of
        Inl e \<Rightarrow> Inl e
      | Inr True \<Rightarrow> Inr (Some 0)
      | Inr False \<Rightarrow> rbind (find_idx_res p xs) (\<lambda>r. Inr (map_option Suc r)))"

lemma find_idx_res_SomeD:
  "find_idx_res p xs = Inr (Some i) \<Longrightarrow>
    i < length xs \<and> p (xs ! i) = Inr True \<and> (\<forall>j<i. p (xs ! j) = Inr False)"
proof (induction xs arbitrary: i)
  case Nil
  then show ?case by simp
next
  case (Cons x xs)
  show ?case
  proof (cases i)
    case 0
    with Cons.prems show ?thesis by (auto split: sum.splits bool.splits)
  next
    case (Suc k)
    with Cons.prems have x: "p x = Inr False" and r: "find_idx_res p xs = Inr (Some k)"
      by (auto split: sum.splits bool.splits)
    from Cons.IH [OF r] x Suc show ?thesis by (auto simp: nth_Cons split: nat.splits)
  qed
qed

lemma find_idx_res_NoneD:
  "find_idx_res p xs = Inr None \<Longrightarrow> x \<in> set xs \<Longrightarrow> p x = Inr False"
  by (induction xs) (auto split: sum.splits bool.splits)

text \<open>Removing the element at an index, as \<open>list.pop(i)\<close> does for an index in range.\<close>

definition pop_at :: "nat \<Rightarrow> 'a list \<Rightarrow> 'a list" where
  "pop_at i xs = take i xs @ drop (Suc i) xs"

lemma length_pop_at [simp]: "i < length xs \<Longrightarrow> length (pop_at i xs) = length xs - 1"
  by (auto simp: pop_at_def)

lemma set_pop_at_subset: "set (pop_at i xs) \<subseteq> set xs"
  by (auto simp: pop_at_def dest: in_set_takeD in_set_dropD)

lemma nth_pop_at:
  "i < length xs \<Longrightarrow> k < length xs - 1 \<Longrightarrow> pop_at i xs ! k = xs ! (if k < i then k else Suc k)"
  by (auto simp: pop_at_def nth_append min_def)

subsection \<open>Dictionaries: association lists in insertion order\<close>

type_synonym 'v dict = "(string \<times> 'v) list"

definition dget :: "string \<Rightarrow> 'v dict \<Rightarrow> 'v option" where
  "dget k d = map_of d k"

text \<open>Assignment keeps the position of a key that is present and appends a new one.\<close>

fun dset :: "'k \<Rightarrow> 'v \<Rightarrow> ('k \<times> 'v) list \<Rightarrow> ('k \<times> 'v) list" where
  "dset k v [] = [(k, v)]"
| "dset k v ((k', v') # d) = (if k = k' then (k, v) # d else (k', v') # dset k v d)"

definition dpop :: "'k \<Rightarrow> ('k \<times> 'v) list \<Rightarrow> ('k \<times> 'v) list" where
  "dpop k d = filter (\<lambda>p. fst p \<noteq> k) d"

definition dwf :: "('k \<times> 'v) list \<Rightarrow> bool" where
  "dwf d \<longleftrightarrow> distinct (map fst d)"

lemma map_of_dset [simp]: "map_of (dset k v d) = (map_of d)(k \<mapsto> v)"
  by (induction d) auto

lemma keys_dset:
  "map fst (dset k v d) = (if k \<in> fst ` set d then map fst d else map fst d @ [k])"
  by (induction d) force+

lemma set_keys_dset [simp]: "fst ` set (dset k v d) = insert k (fst ` set d)"
proof -
  have "set (map fst (dset k v d)) = insert k (set (map fst d))"
    by (subst keys_dset) (auto simp flip: set_map)
  then show ?thesis by simp
qed

lemma dwf_dset [intro]: "dwf d \<Longrightarrow> dwf (dset k v d)"
  by (simp add: dwf_def keys_dset)

lemma length_dset: "length (dset k v d) = (if k \<in> fst ` set d then length d else Suc (length d))"
  by (metis keys_dset length_append_singleton length_map)

lemma map_of_dpop [simp]: "map_of (dpop k d) = (map_of d)(k := None)"
  by (induction d) (auto simp: dpop_def fun_eq_iff)

lemma dwf_dpop [intro]: "dwf d \<Longrightarrow> dwf (dpop k d)"
  by (auto simp: dwf_def dpop_def distinct_map_filter)

lemma dget_dset [simp]: "dget k (dset k' v d) = (if k = k' then Some v else dget k d)"
  by (simp add: dget_def)

lemma dget_dpop [simp]: "dget k (dpop k' d) = (if k = k' then None else dget k d)"
  by (simp add: dget_def)

text \<open>Dictionaries built by a sequence of assignments.\<close>

lemma foldl_dset_keys:
  "fst ` set (foldl (\<lambda>d (k, v). dset k v d) d kvs) = fst ` set d \<union> fst ` set kvs"
  by (induction kvs arbitrary: d) (simp_all add: case_prod_beta)

lemma foldl_dset_values:
  "list_all (\<lambda>p. Q (snd p)) d \<Longrightarrow> list_all (\<lambda>p. Q (snd p)) kvs \<Longrightarrow>
    list_all (\<lambda>p. Q (snd p)) (foldl (\<lambda>d (k, v). dset k v d) d kvs)"
proof (induction kvs arbitrary: d)
  case (Cons p kvs)
  have "list_all (\<lambda>p. Q (snd p)) d \<Longrightarrow> Q v \<Longrightarrow> list_all (\<lambda>p. Q (snd p)) (dset k v d)" for k v
    by (induction d) auto
  with Cons show ?case by (cases p) simp
qed simp

lemma dset_fresh: "k \<notin> fst ` set d \<Longrightarrow> dset k v d = d @ [(k, v)]"
  by (induction d) auto

lemma foldl_dset_distinct:
  "distinct (map fst (d @ kvs)) \<Longrightarrow> foldl (\<lambda>d (k, v). dset k v d) d kvs = d @ kvs"
proof (induction kvs arbitrary: d)
  case (Cons p kvs)
  obtain k v where p: "p = (k, v)" by (cases p)
  with Cons.prems have "k \<notin> fst ` set d" by auto
  with Cons p show ?case by (simp add: dset_fresh)
qed simp

subsection \<open>Related lists\<close>

lemma sum_list_less: "i < length ns \<Longrightarrow> k < ns ! i \<Longrightarrow> sum_list (ns[i := k]) < sum_list (ns :: nat list)"
  using elem_le_sum_list [of i ns] by (simp add: sum_list_update)

lemma list_all2_det:
  "list_all2 (\<lambda>t s. Q t s \<and> (\<forall>s'. Q t s' \<longrightarrow> s = s')) ts ss \<Longrightarrow> list_all2 Q ts ss' \<Longrightarrow> ss = ss'"
  by (induction arbitrary: ss' rule: list_all2_induct) (auto simp: list_all2_Cons1)

lemma list_all2_choice: "(\<And>x. x \<in> set xs \<Longrightarrow> \<exists>y. Q x y) \<Longrightarrow> \<exists>ys. list_all2 Q xs ys"
  by (induction xs) (auto simp: list_all2_Cons1)

lemma list_all2_left: "list_all2 (\<lambda>x y. Q x y \<and> R x) xs ys \<Longrightarrow> \<forall>x\<in>set xs. R x"
  by (induction rule: list_all2_induct) auto

lemma list_all2_pick: "list_all2 Q xs ys \<Longrightarrow> x \<in> set xs \<Longrightarrow> \<exists>y\<in>set ys. Q x y"
  by (induction rule: list_all2_induct) auto

lemma eventually_list_all2:
  "list_all2 (\<lambda>t s. eventually (\<lambda>n. Q n t s) F) ts ss \<Longrightarrow> eventually (\<lambda>n. list_all2 (Q n) ts ss) F"
  by (induction rule: list_all2_induct) (auto elim: eventually_elim2)

subsection \<open>Python string methods\<close>

definition startswith :: "string \<Rightarrow> string \<Rightarrow> bool" where
  "startswith s p \<longleftrightarrow> take (length p) s = p"

definition endswith :: "string \<Rightarrow> string \<Rightarrow> bool" where
  "endswith s p \<longleftrightarrow> startswith (rev s) (rev p)"

lemma startswith_append [simp]: "startswith (p @ s) p"
  by (simp add: startswith_def)

lemma startswith_iff: "startswith s p \<longleftrightarrow> (\<exists>r. s = p @ r)"
  by (metis append_take_drop_id startswith_append startswith_def)

lemma endswith_iff: "endswith s p \<longleftrightarrow> (\<exists>r. s = r @ p)"
  by (metis endswith_def rev_append rev_rev_ident startswith_iff)

text \<open>The substring test \<open>sub in s\<close>.\<close>

fun contains :: "string \<Rightarrow> string \<Rightarrow> bool" where
  "contains sub [] \<longleftrightarrow> sub = []"
| "contains sub (c # cs) \<longleftrightarrow> startswith (c # cs) sub \<or> contains sub cs"

lemma contains_iff: "contains sub s \<longleftrightarrow> (\<exists>u v. s = u @ sub @ v)"
proof (induction s)
  case Nil
  then show ?case by auto
next
  case (Cons c s)
  show ?case
  proof
    assume "contains sub (c # s)"
    then consider "startswith (c # s) sub" | "contains sub s" by auto
    then show "\<exists>u v. c # s = u @ sub @ v"
    proof cases
      case 1
      then show ?thesis by (metis append_Nil startswith_iff)
    next
      case 2
      then show ?thesis using Cons by (metis append_Cons)
    qed
  next
    assume "\<exists>u v. c # s = u @ sub @ v"
    then obtain u v where uv: "c # s = u @ sub @ v" by blast
    show "contains sub (c # s)"
    proof (cases u)
      case Nil
      with uv have "startswith (c # s) sub" by (auto simp: startswith_iff)
      then show ?thesis by simp
    next
      case (Cons a u')
      with uv Cons.IH show ?thesis by auto
    qed
  qed
qed

lemma contains_refl [simp]: "contains s s"
  by (metis append_Nil append_Nil2 contains_iff)

lemma contains_trans: "contains a b \<Longrightarrow> contains b c \<Longrightarrow> contains a c"
  by (metis append.assoc contains_iff)

text \<open>\<open>s.lower()\<close> on ASCII letters.\<close>

definition lower_char :: "char \<Rightarrow> char" where
  "lower_char c = (if 65 \<le> (of_char c :: nat) \<and> (of_char c :: nat) \<le> 90
     then char_of ((of_char c :: nat) + 32) else c)"

definition lower :: "string \<Rightarrow> string" where
  "lower s = map lower_char s"

definition is_digit_char :: "char \<Rightarrow> bool" where
  "is_digit_char c \<longleftrightarrow> 48 \<le> (of_char c :: nat) \<and> (of_char c :: nat) \<le> 57"

definition isdigit :: "string \<Rightarrow> bool" where
  "isdigit s \<longleftrightarrow> s \<noteq> [] \<and> list_all is_digit_char s"

text \<open>\<open>int(s)\<close> of a string of digits.\<close>

definition digit_val :: "char \<Rightarrow> nat" where
  "digit_val c = (of_char c :: nat) - 48"

definition nat_of_digits :: "string \<Rightarrow> nat" where
  "nat_of_digits s = foldl (\<lambda>n c. 10 * n + digit_val c) 0 s"

definition is_ascii :: "string \<Rightarrow> bool" where
  "is_ascii s \<longleftrightarrow> list_all (\<lambda>c. (of_char c :: nat) < 128) s"

text \<open>\<open>s.lstrip(chars)\<close>, \<open>s.rstrip(chars)\<close>, \<open>s.strip(chars)\<close>.\<close>

definition lstrip :: "char list \<Rightarrow> string \<Rightarrow> string" where
  "lstrip cs s = dropWhile (\<lambda>c. c \<in> set cs) s"

definition rstrip :: "char list \<Rightarrow> string \<Rightarrow> string" where
  "rstrip cs s = rev (lstrip cs (rev s))"

definition strip :: "char list \<Rightarrow> string \<Rightarrow> string" where
  "strip cs s = rstrip cs (lstrip cs s)"

lemma lstrip_no_lead: "lstrip cs s = [] \<or> hd (lstrip cs s) \<notin> set cs"
  unfolding lstrip_def by (metis hd_dropWhile)

lemma rstrip_no_trail: "rstrip cs s = [] \<or> last (rstrip cs s) \<notin> set cs"
  unfolding rstrip_def by (metis hd_rev last_rev lstrip_no_lead rev_is_Nil_conv)

text \<open>\<open>s.split(c)\<close> for a one-character separator: always at least one part.\<close>

fun split_on :: "char \<Rightarrow> string \<Rightarrow> string list" where
  "split_on c [] = [[]]"
| "split_on c (x # xs) =
     (if x = c then [] # split_on c xs
      else (case split_on c xs of [] \<Rightarrow> [[x]] | p # ps \<Rightarrow> (x # p) # ps))"

fun join :: "string \<Rightarrow> string list \<Rightarrow> string" where
  "join sep [] = []"
| "join sep [p] = p"
| "join sep (p # q # ps) = p @ sep @ join sep (q # ps)"

lemma split_on_nonempty [simp]: "split_on c s \<noteq> []"
  by (induction s) (auto split: list.splits)

lemma join_Cons: "ps \<noteq> [] \<Longrightarrow> join sep (p # ps) = p @ sep @ join sep ps"
  by (cases ps) auto

lemma join_split_on [simp]: "join [c] (split_on c s) = s"
proof (induction s)
  case Nil
  then show ?case by simp
next
  case (Cons x xs)
  obtain p ps where sp: "split_on c xs = p # ps"
    by (metis list.exhaust split_on_nonempty)
  with Cons show ?case by (cases ps) (auto simp: join_Cons)
qed

lemma split_on_no_sep: "c \<notin> set s \<Longrightarrow> split_on c s = [s]"
  by (induction s) auto

lemma split_on_append: "c \<notin> set p \<Longrightarrow> split_on c (p @ c # s) = p # split_on c s"
  by (induction p) (auto split: list.splits)

lemma split_on_join:
  "ps \<noteq> [] \<Longrightarrow> (\<And>p. p \<in> set ps \<Longrightarrow> c \<notin> set p) \<Longrightarrow> split_on c (join [c] ps) = ps"
proof (induction ps)
  case Nil
  then show ?case by simp
next
  case (Cons p ps)
  show ?case
  proof (cases "ps = []")
    case True
    with Cons.prems show ?thesis by (simp add: split_on_no_sep)
  next
    case False
    with Cons show ?thesis by (simp add: join_Cons split_on_append)
  qed
qed

text \<open>\<open>s.replace(old, new, 1)\<close> for a non-empty \<open>old\<close>.\<close>

fun replace_first :: "string \<Rightarrow> string \<Rightarrow> string \<Rightarrow> string" where
  "replace_first old new [] = []"
| "replace_first old new (c # cs) =
     (if startswith (c # cs) old then new @ drop (length old) (c # cs)
      else c # replace_first old new cs)"

end
