(* ===== verification/Py_Values.thy ===== *)
theory Py_Values
  imports Py_Prelude
begin

text \<open>
  The Python objects that flow through the program: the values of \<open>Any\<close>-typed fields (JSON
  values, and the sets, tuples, model instances, enum members, timestamps and identifiers a
  caller may put there), with truth testing, \<open>==\<close>, hashability and the numeric order the
  code relies on, and the exceptions it raises or catches.  A dictionary has string keys and
  keeps its insertion order.  A finite float is the exact rational it denotes (so \<open>0.0\<close> and
  \<open>-0.0\<close> are one value); Python compares int and float exactly, as the model does.
\<close>

subsection \<open>Floats\<close>

datatype flt = Fin rat | PInf | NInf | NaN

text \<open>Python's \<open><\<close> and \<open><=\<close> on floats: every comparison with a NaN is False.\<close>

instantiation flt :: ord
begin

fun less_flt :: "flt \<Rightarrow> flt \<Rightarrow> bool" where
  "less_flt (Fin a) (Fin b) = (a < b)"
| "less_flt (Fin a) PInf = True"
| "less_flt NInf (Fin b) = True"
| "less_flt NInf PInf = True"
| "less_flt _ _ = False"

definition less_eq_flt :: "flt \<Rightarrow> flt \<Rightarrow> bool" where
  "less_eq_flt a b = (a < b \<or> (a = b \<and> a \<noteq> NaN))"

instance ..

end

definition flt_eq :: "flt \<Rightarrow> flt \<Rightarrow> bool" where
  "flt_eq a b = (a = b \<and> a \<noteq> NaN)"

lemma flt_less_irrefl [simp]: "\<not> (a :: flt) < a"
  by (cases a) auto

lemma flt_less_trans: "(a :: flt) < b \<Longrightarrow> b < c \<Longrightarrow> a < c"
  by (cases a; cases b; cases c) auto

lemma flt_NaN_less [simp]: "\<not> NaN < a" "\<not> a < NaN"
  by (cases a; simp)+

lemma flt_linear: "a \<noteq> NaN \<Longrightarrow> b \<noteq> NaN \<Longrightarrow> \<not> a < b \<longleftrightarrow> b \<le> (a :: flt)"
  by (cases a; cases b) (auto simp: less_eq_flt_def)

subsection \<open>Objects\<close>

datatype pyval =
    PNone
  | PBool bool
  | PInt int
  | PFloat flt
  | PStr string
  | PList "pyval list"
  | PTuple "pyval list"
  | PSet "pyval list"
  | PFrozenset "pyval list"
  | PDict "(string \<times> pyval) list"
  | PStruct string "(string \<times> pyval) list" \<comment> \<open>a frozen msgspec Struct: class name, fields\<close>
  | PEnum string pyval \<comment> \<open>an enum member: class name and \<open>.value\<close>\<close>
  | PStamp string \<comment> \<open>a UUID or datetime with its \<open>str()\<close>\<close>
  | PObj nat string \<comment> \<open>any other object: its identity and its \<open>str()\<close>\<close>

text \<open>\<open>isinstance(v, (int, float))\<close>, with the numeric value; bool is a subclass of int.\<close>

fun num_of :: "pyval \<Rightarrow> flt option" where
  "num_of (PBool b) = Some (Fin (if b then 1 else 0))"
| "num_of (PInt i) = Some (Fin (of_int i))"
| "num_of (PFloat f) = Some f"
| "num_of _ = None"

text \<open>\<open>isinstance(v, (frozenset, set, list))\<close>, with the elements.\<close>

fun coll_of :: "pyval \<Rightarrow> pyval list option" where
  "coll_of (PList xs) = Some xs"
| "coll_of (PSet xs) = Some xs"
| "coll_of (PFrozenset xs) = Some xs"
| "coll_of _ = None"

fun truthy :: "pyval \<Rightarrow> bool" where
  "truthy PNone = False"
| "truthy (PBool b) = b"
| "truthy (PInt i) = (i \<noteq> 0)"
| "truthy (PFloat f) = (f \<noteq> Fin 0)"
| "truthy (PStr s) = (s \<noteq> [])"
| "truthy (PList xs) = (xs \<noteq> [])"
| "truthy (PTuple xs) = (xs \<noteq> [])"
| "truthy (PSet xs) = (xs \<noteq> [])"
| "truthy (PFrozenset xs) = (xs \<noteq> [])"
| "truthy (PDict d) = (d \<noteq> [])"
| "truthy _ = True"

text \<open>
  \<open>a == b\<close>.  Numbers compare by value across bool, int and float; sequences element by
  element; sets by inclusion both ways; dictionaries by key whatever their order; other
  objects by identity.  A NaN is never equal to anything (no two floats of the model are
  the same object).
\<close>

fun py_eq :: "pyval \<Rightarrow> pyval \<Rightarrow> bool"
  and py_eqs :: "pyval list \<Rightarrow> pyval list \<Rightarrow> bool"
  and py_eq_in :: "pyval list \<Rightarrow> pyval list \<Rightarrow> bool"
  and py_eq_dict :: "(string \<times> pyval) list \<Rightarrow> (string \<times> pyval) list \<Rightarrow> bool" where
  "py_eq PNone w = (w = PNone)"
| "py_eq (PBool b) w = (case num_of w of None \<Rightarrow> False | Some y \<Rightarrow> flt_eq (Fin (if b then 1 else 0)) y)"
| "py_eq (PInt i) w = (case num_of w of None \<Rightarrow> False | Some y \<Rightarrow> flt_eq (Fin (of_int i)) y)"
| "py_eq (PFloat f) w = (case num_of w of None \<Rightarrow> False | Some y \<Rightarrow> flt_eq f y)"
| "py_eq (PStr s) w = (w = PStr s)"
| "py_eq (PList xs) w = (case w of PList ys \<Rightarrow> py_eqs xs ys | _ \<Rightarrow> False)"
| "py_eq (PTuple xs) w = (case w of PTuple ys \<Rightarrow> py_eqs xs ys | _ \<Rightarrow> False)"
| "py_eq (PSet xs) w =
     (case w of PSet ys \<Rightarrow> length xs = length ys \<and> py_eq_in xs ys
      | PFrozenset ys \<Rightarrow> length xs = length ys \<and> py_eq_in xs ys | _ \<Rightarrow> False)"
| "py_eq (PFrozenset xs) w =
     (case w of PSet ys \<Rightarrow> length xs = length ys \<and> py_eq_in xs ys
      | PFrozenset ys \<Rightarrow> length xs = length ys \<and> py_eq_in xs ys | _ \<Rightarrow> False)"
| "py_eq (PDict d) w =
     (case w of PDict e \<Rightarrow> length d = length e \<and> py_eq_dict d e | _ \<Rightarrow> False)"
| "py_eq (PStruct c d) w =
     (case w of PStruct c' e \<Rightarrow> c = c' \<and> length d = length e \<and> py_eq_dict d e | _ \<Rightarrow> False)"
| "py_eq (PEnum c v) w = (w = PEnum c v)"
| "py_eq (PStamp s) w = (w = PStamp s)"
| "py_eq (PObj i s) w = (w = PObj i s)"
| "py_eqs [] ys = (ys = [])"
| "py_eqs (x # xs) ys = (case ys of [] \<Rightarrow> False | y # ys' \<Rightarrow> py_eq x y \<and> py_eqs xs ys')"
| "py_eq_in [] ys = True"
| "py_eq_in (x # xs) ys = (list_ex (py_eq x) ys \<and> py_eq_in xs ys)"
| "py_eq_dict [] e = True"
| "py_eq_dict ((k, v) # d) e =
     ((case map_of e k of None \<Rightarrow> False | Some w \<Rightarrow> py_eq v w) \<and> py_eq_dict d e)"

text \<open>Membership by \<open>==\<close>, as \<open>in\<close> on a set of hashable elements decides it.\<close>

definition py_mem :: "pyval \<Rightarrow> pyval list \<Rightarrow> bool" where
  "py_mem x ys = list_ex (py_eq x) ys"

fun hashable :: "pyval \<Rightarrow> bool"
  and hashables :: "pyval list \<Rightarrow> bool"
  and hashable_fields :: "(string \<times> pyval) list \<Rightarrow> bool" where
  "hashable (PList _) = False"
| "hashable (PSet _) = False"
| "hashable (PDict _) = False"
| "hashable (PTuple xs) = hashables xs"
| "hashable (PStruct _ fs) = hashable_fields fs"
| "hashable _ = True"
| "hashables [] = True"
| "hashables (x # xs) = (hashable x \<and> hashables xs)"
| "hashable_fields [] = True"
| "hashable_fields ((_, v) # fs) = (hashable v \<and> hashable_fields fs)"

text \<open>
  Well-formed objects: no NaN inside, no set with an unhashable element, no repeated
  dictionary key.  On these \<open>==\<close> is reflexive.
\<close>

fun val_ok :: "pyval \<Rightarrow> bool"
  and vals_ok :: "pyval list \<Rightarrow> bool"
  and fields_ok :: "(string \<times> pyval) list \<Rightarrow> bool" where
  "val_ok (PFloat f) = (f \<noteq> NaN)"
| "val_ok (PList xs) = vals_ok xs"
| "val_ok (PTuple xs) = vals_ok xs"
| "val_ok (PSet xs) = (vals_ok xs \<and> hashables xs)"
| "val_ok (PFrozenset xs) = (vals_ok xs \<and> hashables xs)"
| "val_ok (PDict d) = (fields_ok d \<and> distinct (map fst d))"
| "val_ok (PStruct _ d) = (fields_ok d \<and> distinct (map fst d))"
| "val_ok _ = True"
| "vals_ok [] = True"
| "vals_ok (x # xs) = (val_ok x \<and> vals_ok xs)"
| "fields_ok [] = True"
| "fields_ok ((_, v) # d) = (val_ok v \<and> fields_ok d)"

lemma py_eqs_conv: "py_eqs xs ys = list_all2 py_eq xs ys"
  by (induction xs arbitrary: ys) (auto split: list.splits simp: list_all2_Cons1)

lemma py_eq_in_conv: "py_eq_in xs ys = (\<forall>x\<in>set xs. py_mem x ys)"
  by (induction xs) (auto simp: py_mem_def)

lemma py_eq_dict_conv:
  "py_eq_dict d e = (\<forall>(k, v)\<in>set d. \<exists>w. map_of e k = Some w \<and> py_eq v w)"
  by (induction d) (auto split: option.splits)

lemma hashables_conv [simp]: "hashables xs = list_all hashable xs"
  by (induction xs) auto

lemma vals_ok_conv [simp]: "vals_ok xs = list_all val_ok xs"
  by (induction xs) auto

lemma fields_ok_conv [simp]: "fields_ok d = list_all (\<lambda>p. val_ok (snd p)) d"
  by (induction d) auto

lemma py_mem_iff: "py_mem x ys \<longleftrightarrow> (\<exists>y\<in>set ys. py_eq x y)"
  by (auto simp: py_mem_def list_ex_iff)

lemma py_eq_refl: "val_ok v \<Longrightarrow> py_eq v v"
proof (induction v)
  case (PDict d)
  then show ?case
    by (auto simp: py_eq_dict_conv list_all_iff snds.simps intro!: exI)
next
  case (PStruct c d)
  then show ?case
    by (auto simp: py_eq_dict_conv list_all_iff snds.simps intro!: exI)
qed (auto simp: flt_eq_def py_eqs_conv py_eq_in_conv py_mem_iff list_all_iff
       intro: list.rel_refl_strong)

lemma py_eq_num: "num_of v = Some x \<Longrightarrow> py_eq v w = (\<exists>y. num_of w = Some y \<and> flt_eq x y)"
  by (cases v) (auto split: option.splits)

subsection \<open>Exceptions of the standard library and of the libraries the code catches\<close>

text \<open>
  The exception classes the code names in an \<open>except\<close> clause or raises.  \<open>OtherError\<close> is any
  other subclass of \<open>Exception\<close>; \<open>Cancelled\<close> is \<open>CancelledError\<close>, or the \<open>GeneratorExit\<close> of a
  generator that is closed, which no \<open>except Exception\<close> catches.
\<close>

datatype pyclass = ValueError | TypeError | RecursionError | PermissionError | TimeoutError
  | KeyError | ClientError | ContentTypeError | MsgspecError | AttributeError | OtherError | Cancelled

end
