(* ===== verification/Rxon_Constants.thy ===== *)
theory Rxon_Constants
  imports Py_Values
begin

text \<open>
  The protocol constants of \<^verbatim>\<open>src/rxon/constants.py\<close>: headers, endpoints, and the
  vocabularies of the protocol as datatypes with the text each name has on the wire, which
  determines the name (the \<open>_inj\<close> lemmas).  An endpoint with
  a \<open>{worker_id}\<close> placeholder is kept as the template the source has; \<open>format_worker_id\<close> is
  the call \<open>template.format(worker_id=w)\<close>.
\<close>

definition PROTOCOL_VERSION :: string where "PROTOCOL_VERSION = ''1.0.0''"
definition PROTOCOL_VERSION_HEADER :: string where "PROTOCOL_VERSION_HEADER = ''X-RXON-Version''"
definition AUTH_HEADER_WORKER :: string where "AUTH_HEADER_WORKER = ''X-Worker-Token''"
definition AUTH_HEADER_WORKER_ID :: string where "AUTH_HEADER_WORKER_ID = ''X-Worker-ID''"
definition AUTH_HEADER_CLIENT :: string where "AUTH_HEADER_CLIENT = ''X-Client-Token''"

definition ERROR_CODE_LIMIT_EXCEEDED :: string where
  "ERROR_CODE_LIMIT_EXCEEDED = ''LIMIT_EXCEEDED_ERROR''"

definition IGNORED_REASON_LATE :: string where "IGNORED_REASON_LATE = ''deadline_exceeded''"
definition IGNORED_REASON_CANCELLED :: string where "IGNORED_REASON_CANCELLED = ''job_cancelled''"

definition WORKER_API_PREFIX :: string where "WORKER_API_PREFIX = ''/_worker''"
definition STS_TOKEN_ENDPOINT :: string where
  "STS_TOKEN_ENDPOINT = WORKER_API_PREFIX @ ''/auth/token''"
definition STS_REFRESH_ENDPOINT :: string where
  "STS_REFRESH_ENDPOINT = WORKER_API_PREFIX @ ''/auth/token/refresh''"
definition WS_ENDPOINT :: string where
  "WS_ENDPOINT = WORKER_API_PREFIX @ ''/ws''"
definition ENDPOINT_WORKER_REGISTER :: string where
  "ENDPOINT_WORKER_REGISTER = WORKER_API_PREFIX @ ''/workers/register''"
definition ENDPOINT_TASK_NEXT :: string where
  "ENDPOINT_TASK_NEXT = WORKER_API_PREFIX @ ''/workers/{worker_id}/tasks/next''"
definition ENDPOINT_TASK_RESULT :: string where
  "ENDPOINT_TASK_RESULT = WORKER_API_PREFIX @ ''/tasks/result''"
definition ENDPOINT_WORKER_HEARTBEAT :: string where
  "ENDPOINT_WORKER_HEARTBEAT = WORKER_API_PREFIX @ ''/workers/{worker_id}''"
definition ENDPOINT_WORKER_EVENTS :: string where
  "ENDPOINT_WORKER_EVENTS = WORKER_API_PREFIX @ ''/events''"

definition format_worker_id :: "string \<Rightarrow> string \<Rightarrow> string" where
  "format_worker_id template w = replace_first ''{worker_id}'' w template"

lemmas endpoint_defs = WORKER_API_PREFIX_def STS_TOKEN_ENDPOINT_def STS_REFRESH_ENDPOINT_def
  WS_ENDPOINT_def ENDPOINT_WORKER_REGISTER_def ENDPOINT_TASK_NEXT_def ENDPOINT_TASK_RESULT_def
  ENDPOINT_WORKER_HEARTBEAT_def ENDPOINT_WORKER_EVENTS_def

lemmas header_defs = PROTOCOL_VERSION_HEADER_def AUTH_HEADER_WORKER_def AUTH_HEADER_WORKER_ID_def

lemma header_names_distinct [simp]:
  "AUTH_HEADER_WORKER \<noteq> AUTH_HEADER_WORKER_ID" "AUTH_HEADER_WORKER_ID \<noteq> AUTH_HEADER_WORKER"
  "AUTH_HEADER_WORKER \<noteq> PROTOCOL_VERSION_HEADER" "PROTOCOL_VERSION_HEADER \<noteq> AUTH_HEADER_WORKER"
  "AUTH_HEADER_WORKER_ID \<noteq> PROTOCOL_VERSION_HEADER" "PROTOCOL_VERSION_HEADER \<noteq> AUTH_HEADER_WORKER_ID"
  by (simp_all add: header_defs)

lemma format_task_next: "format_worker_id ENDPOINT_TASK_NEXT w = ''/_worker/workers/'' @ w @ ''/tasks/next''"
  by (simp add: format_worker_id_def endpoint_defs startswith_def)

lemma format_heartbeat: "format_worker_id ENDPOINT_WORKER_HEARTBEAT w = ''/_worker/workers/'' @ w"
  by (simp add: format_worker_id_def endpoint_defs startswith_def)

subsection \<open>Vocabularies\<close>

datatype error_code =
    EC_TRANSIENT | EC_PERMANENT | EC_INVALID_INPUT | EC_INTEGRITY_MISMATCH | EC_TIMEOUT | EC_LATE_RESULT | EC_RESOURCE_EXHAUSTED | EC_LIMIT_EXCEEDED | EC_CONTRACT_VIOLATION | EC_DEPENDENCY_MISSING | EC_DEPENDENCY | EC_SECURITY | EC_INTERNAL

fun error_code_text :: "error_code \<Rightarrow> string" where
  "error_code_text EC_TRANSIENT = ''TRANSIENT_ERROR''"
| "error_code_text EC_PERMANENT = ''PERMANENT_ERROR''"
| "error_code_text EC_INVALID_INPUT = ''INVALID_INPUT_ERROR''"
| "error_code_text EC_INTEGRITY_MISMATCH = ''INTEGRITY_MISMATCH_ERROR''"
| "error_code_text EC_TIMEOUT = ''TIMEOUT_ERROR''"
| "error_code_text EC_LATE_RESULT = ''LATE_RESULT''"
| "error_code_text EC_RESOURCE_EXHAUSTED = ''RESOURCE_EXHAUSTED_ERROR''"
| "error_code_text EC_LIMIT_EXCEEDED = ''LIMIT_EXCEEDED_ERROR''"
| "error_code_text EC_CONTRACT_VIOLATION = ''CONTRACT_VIOLATION_ERROR''"
| "error_code_text EC_DEPENDENCY_MISSING = ''DEPENDENCY_MISSING_ERROR''"
| "error_code_text EC_DEPENDENCY = ''DEPENDENCY_ERROR''"
| "error_code_text EC_SECURITY = ''SECURITY_ERROR''"
| "error_code_text EC_INTERNAL = ''INTERNAL_ERROR''"

lemma error_code_text_inj: "error_code_text a = error_code_text b \<longleftrightarrow> a = b"
  by (cases a; cases b) simp_all

datatype ignored_reason =
    IGNORED_LATE | IGNORED_CANCELLED | IGNORED_NOT_FOUND | IGNORED_MISMATCH | IGNORED_STALE

fun ignored_reason_text :: "ignored_reason \<Rightarrow> string" where
  "ignored_reason_text IGNORED_LATE = ''deadline_exceeded''"
| "ignored_reason_text IGNORED_CANCELLED = ''job_cancelled''"
| "ignored_reason_text IGNORED_NOT_FOUND = ''job_not_found''"
| "ignored_reason_text IGNORED_MISMATCH = ''worker_mismatch''"
| "ignored_reason_text IGNORED_STALE = ''stale_task''"

lemma ignored_reason_text_inj: "ignored_reason_text a = ignored_reason_text b \<longleftrightarrow> a = b"
  by (cases a; cases b) simp_all

datatype hb_response =
    HB_REQUIRE_FULL_SYNC | HB_CANCEL_TASKS

fun hb_response_text :: "hb_response \<Rightarrow> string" where
  "hb_response_text HB_REQUIRE_FULL_SYNC = ''require_full_sync''"
| "hb_response_text HB_CANCEL_TASKS = ''cancel_task_ids''"

lemma hb_response_text_inj: "hb_response_text a = hb_response_text b \<longleftrightarrow> a = b"
  by (cases a; cases b) simp_all

datatype task_status =
    TASK_SUCCESS | TASK_FAILURE | TASK_CANCELLED

fun task_status_text :: "task_status \<Rightarrow> string" where
  "task_status_text TASK_SUCCESS = ''success''"
| "task_status_text TASK_FAILURE = ''failure''"
| "task_status_text TASK_CANCELLED = ''cancelled''"

lemma task_status_text_inj: "task_status_text a = task_status_text b \<longleftrightarrow> a = b"
  by (cases a; cases b) simp_all

datatype worker_status =
    WORKER_ACTIVE | WORKER_DRAINING

fun worker_status_text :: "worker_status \<Rightarrow> string" where
  "worker_status_text WORKER_ACTIVE = ''active''"
| "worker_status_text WORKER_DRAINING = ''draining''"

lemma worker_status_text_inj: "worker_status_text a = worker_status_text b \<longleftrightarrow> a = b"
  by (cases a; cases b) simp_all

definition COMMAND_CANCEL_TASK :: string where "COMMAND_CANCEL_TASK = ''cancel_task''"
definition EVENT_TYPE_PROGRESS :: string where "EVENT_TYPE_PROGRESS = ''progress''"

lemma named_codes:
  "ERROR_CODE_LIMIT_EXCEEDED = error_code_text EC_LIMIT_EXCEEDED"
  "IGNORED_REASON_LATE = ignored_reason_text IGNORED_LATE"
  "IGNORED_REASON_CANCELLED = ignored_reason_text IGNORED_CANCELLED"
  by (simp_all add: ERROR_CODE_LIMIT_EXCEEDED_def IGNORED_REASON_LATE_def IGNORED_REASON_CANCELLED_def)

subsection \<open>Job states\<close>

datatype job_status = PENDING | WAITING_FOR_WORKER | RUNNING | FINISHED | FAILED | ERROR
  | QUARANTINED | CANCELLED | WAITING_FOR_HUMAN | WAITING_FOR_PARALLEL

fun job_status_text :: "job_status \<Rightarrow> string" where
  "job_status_text PENDING = ''pending''"
| "job_status_text WAITING_FOR_WORKER = ''waiting_for_worker''"
| "job_status_text RUNNING = ''running''"
| "job_status_text FINISHED = ''finished''"
| "job_status_text FAILED = ''failed''"
| "job_status_text ERROR = ''error''"
| "job_status_text QUARANTINED = ''quarantined''"
| "job_status_text CANCELLED = ''cancelled''"
| "job_status_text WAITING_FOR_HUMAN = ''waiting_for_human''"
| "job_status_text WAITING_FOR_PARALLEL = ''waiting_for_parallel_tasks''"

definition TERMINAL_STATES :: "string list" where
  "TERMINAL_STATES = map job_status_text [FINISHED, FAILED, ERROR, QUARANTINED, CANCELLED]"

lemma job_status_text_inj: "job_status_text a = job_status_text b \<longleftrightarrow> a = b"
  by (cases a; cases b) simp_all

lemma terminal_states_iff:
  "job_status_text s \<in> set TERMINAL_STATES \<longleftrightarrow> s \<in> {FINISHED, FAILED, ERROR, QUARANTINED, CANCELLED}"
  by (auto simp: TERMINAL_STATES_def job_status_text_inj simp del: job_status_text.simps)

end
