(* ===== verification/Rxon_Errors.thy ===== *)
theory Rxon_Errors
  imports Rxon_Constants
begin

text \<open>
  The exception classes of \<^verbatim>\<open>src/rxon/exceptions.py\<close> with their hierarchy, the
  constructor of the rate-limit error, and the test \<open>except C\<close> makes on a raised value.  The
  classes form a partial order under \<open>issubclass\<close>, whose greatest element is the base class.
\<close>

datatype rxon_class = RxonError | RxonNetworkError | RxonAuthError | RxonProtocolError
  | RxonRateLimitError | S3ConfigMismatchError | IntegrityError | ParamValidationError

text \<open>The class itself and its bases, as its \<open>__mro__\<close> lists them.\<close>

fun rxon_mro :: "rxon_class \<Rightarrow> rxon_class list" where
  "rxon_mro RxonError = [RxonError]"
| "rxon_mro RxonNetworkError = [RxonNetworkError, RxonError]"
| "rxon_mro RxonAuthError = [RxonAuthError, RxonError]"
| "rxon_mro RxonProtocolError = [RxonProtocolError, RxonError]"
| "rxon_mro RxonRateLimitError = [RxonRateLimitError, RxonProtocolError, RxonError]"
| "rxon_mro S3ConfigMismatchError = [S3ConfigMismatchError, RxonProtocolError, RxonError]"
| "rxon_mro IntegrityError = [IntegrityError, RxonProtocolError, RxonError]"
| "rxon_mro ParamValidationError = [ParamValidationError, RxonProtocolError, RxonError]"

instantiation rxon_class :: order_top
begin

definition less_eq_rxon_class :: "rxon_class \<Rightarrow> rxon_class \<Rightarrow> bool" where
  "less_eq_rxon_class a b = (b \<in> set (rxon_mro a))"

definition less_rxon_class :: "rxon_class \<Rightarrow> rxon_class \<Rightarrow> bool" where
  "less_rxon_class a b = (a \<noteq> b \<and> b \<in> set (rxon_mro a))"

definition top_rxon_class :: rxon_class where
  "top_rxon_class = RxonError"

instance
proof
  fix a b c :: rxon_class
  show "(a < b) = (a \<le> b \<and> \<not> b \<le> a)"
    by (cases a; cases b) (simp_all add: less_eq_rxon_class_def less_rxon_class_def)
  show "a \<le> a" by (cases a) (simp_all add: less_eq_rxon_class_def)
  show "a \<le> b \<Longrightarrow> b \<le> c \<Longrightarrow> a \<le> c"
    by (cases a; cases b; cases c) (simp_all add: less_eq_rxon_class_def)
  show "a \<le> b \<Longrightarrow> b \<le> a \<Longrightarrow> a = b"
    by (cases a; cases b) (simp_all add: less_eq_rxon_class_def)
  show "a \<le> top" by (cases a) (simp_all add: less_eq_rxon_class_def top_rxon_class_def)
qed

end

lemmas rxon_class_order = less_eq_rxon_class_def less_rxon_class_def top_rxon_class_def

subsection \<open>Raised values\<close>

text \<open>
  \<open>RxonExn\<close> carries the class, \<open>self.message\<close> (any JSON value where the code takes the
  message from a reply) and \<open>self.details\<close>; \<open>HttpExn\<close> is aiohttp's \<open>web.HTTPException\<close> with
  its status, text and reason.
\<close>

datatype exn =
    PyExn pyclass string
  | RxonExn rxon_class pyval "pyval dict"
  | HttpExn nat "string option" string

text \<open>\<open>isinstance(e, C)\<close> for the classes outside the package.\<close>

fun py_sub :: "pyclass \<Rightarrow> pyclass \<Rightarrow> bool" where
  "py_sub ContentTypeError ClientError = True"
| "py_sub a b = (a = b)"

fun is_py :: "pyclass \<Rightarrow> exn \<Rightarrow> bool" where
  "is_py c (PyExn d _) = py_sub d c"
| "is_py c _ = False"

fun is_rxon :: "rxon_class \<Rightarrow> exn \<Rightarrow> bool" where
  "is_rxon c (RxonExn d _ _) = (d \<le> c)"
| "is_rxon c _ = False"

definition is_exception :: "exn \<Rightarrow> bool" where
  "is_exception e = (\<not> is_py Cancelled e)"

text \<open>\<open>str(e)\<close>, over \<open>str\<close> of an arbitrary message object.\<close>

fun exn_str :: "(pyval \<Rightarrow> string) \<Rightarrow> exn \<Rightarrow> string" where
  "exn_str ps (PyExn _ m) = m"
| "exn_str ps (RxonExn _ (PStr m) _) = m"
| "exn_str ps (RxonExn _ v _) = ps v"
| "exn_str ps (HttpExn _ _ reason) = reason"

text \<open>\<open>RxonError.__init__\<close> and \<open>RxonRateLimitError.__init__\<close>.\<close>

definition mk_rxon :: "rxon_class \<Rightarrow> pyval \<Rightarrow> pyval dict option \<Rightarrow> exn" where
  "mk_rxon c message details = RxonExn c message (case details of None \<Rightarrow> [] | Some d \<Rightarrow> d)"

definition mk_rate_limit :: "pyval \<Rightarrow> pyval dict option \<Rightarrow> exn" where
  "mk_rate_limit message details =
     (let d = (case details of None \<Rightarrow> [] | Some d \<Rightarrow> d);
          d' = (if dget ''code'' d = None
                then dset ''code'' (PStr ERROR_CODE_LIMIT_EXCEEDED) d else d)
      in mk_rxon RxonRateLimitError message (Some d'))"

lemma mk_rate_limit_simp:
  "mk_rate_limit m (Some d) = RxonExn RxonRateLimitError m
     (if dget ''code'' d = None then dset ''code'' (PStr ERROR_CODE_LIMIT_EXCEEDED) d else d)"
  by (simp add: mk_rate_limit_def mk_rxon_def Let_def)

lemma is_rxon_top: "is_rxon RxonError e \<longleftrightarrow> (\<exists>c m d. e = RxonExn c m d)"
  using top_greatest [where 'a = rxon_class]
  by (cases e) (auto simp: top_rxon_class_def)

lemma rxon_le_base [simp]: "c \<le> RxonError"
  using top_greatest [of c] by (simp add: top_rxon_class_def)

lemma is_rxon_trans: "is_rxon c e \<Longrightarrow> c \<le> d \<Longrightarrow> is_rxon d e"
  by (cases e) auto

end
