(* ===== verification/Rxon_Identifiers.thy ===== *)
theory Rxon_Identifiers
  imports Rxon_Errors
begin

text \<open>
  \<^verbatim>\<open>src/rxon/validators.py\<close>: the identifier check and its raising form.  The
  pattern is \<^verbatim>\<open>^[a-zA-Z0-9_-]+$\<close> under \<open>re.match\<close>; in Python the anchor
  \<^verbatim>\<open>$\<close> also holds just before one newline at the end of the string.
\<close>

definition id_char :: "char \<Rightarrow> bool" where
  "id_char c = (let n = (of_char c :: nat) in
     (97 \<le> n \<and> n \<le> 122) \<or> (65 \<le> n \<and> n \<le> 90) \<or> (48 \<le> n \<and> n \<le> 57) \<or> n = 95 \<or> n = 45)"

definition id_pattern_match :: "string \<Rightarrow> bool" where
  "id_pattern_match s =
     (let t = (if s \<noteq> [] \<and> last s = CHR 0x0A then butlast s else s)
      in t \<noteq> [] \<and> list_all id_char t)"

fun is_valid_identifier :: "pyval \<Rightarrow> bool" where
  "is_valid_identifier (PStr s) =
     (if s = [] \<or> length s > 128 then False else id_pattern_match s)"
| "is_valid_identifier _ = False"

definition validate_identifier :: "(pyval \<Rightarrow> string) \<Rightarrow> pyval \<Rightarrow> string \<Rightarrow> exn + unit" where
  "validate_identifier py_str v name =
     (if \<not> is_valid_identifier v
      then Inl (PyExn ValueError (''Invalid '' @ name @ '': '' @ [CHR 0x27] @ py_str v @ [CHR 0x27]
        @ ''. Must be alphanumeric, underscores, or hyphens only (max 128 characters).''))
      else Inr ())"

lemma id_char_newline [simp]: "\<not> id_char (CHR 0x0A)"
  by (simp add: id_char_def)

lemma id_pattern_match_iff:
  "id_pattern_match s \<longleftrightarrow> (\<exists>t. t \<noteq> [] \<and> (\<forall>c\<in>set t. id_char c) \<and> (s = t \<or> s = t @ [CHR 0x0A]))"
proof
  assume "id_pattern_match s"
  then show "\<exists>t. t \<noteq> [] \<and> (\<forall>c\<in>set t. id_char c) \<and> (s = t \<or> s = t @ [CHR 0x0A])"
    by (cases "s \<noteq> [] \<and> last s = CHR 0x0A")
      (auto simp: id_pattern_match_def Let_def list_all_iff, metis append_butlast_last_id)
next
  assume "\<exists>t. t \<noteq> [] \<and> (\<forall>c\<in>set t. id_char c) \<and> (s = t \<or> s = t @ [CHR 0x0A])"
  then obtain t where t: "t \<noteq> []" "\<forall>c\<in>set t. id_char c" "s = t \<or> s = t @ [CHR 0x0A]" by blast
  have "last t \<noteq> CHR 0x0A" using t(1,2) by (metis id_char_newline last_in_set)
  with t show "id_pattern_match s"
    by (auto simp: id_pattern_match_def Let_def list_all_iff)
qed

lemma valid_identifier_cases:
  "is_valid_identifier v \<longleftrightarrow> (\<exists>s. v = PStr s \<and> length s \<le> 128 \<and> id_pattern_match s)"
  by (cases v) (auto simp: id_pattern_match_def)

text \<open>
  C40: The accepted identifiers, exactly: a non-empty string of letters, digits, underscores and
  hyphens of at most 128 characters, or such a string of at most 127 characters followed by one
  newline (the anchor of the pattern lets that newline through). No other object is accepted.
\<close>
theorem valid_identifier_iff:
  "is_valid_identifier v \<longleftrightarrow>
     (\<exists>t. t \<noteq> [] \<and> (\<forall>c\<in>set t. id_char c) \<and>
        (v = PStr t \<and> length t \<le> 128 \<or> v = PStr (t @ [CHR 0x0A]) \<and> length t < 128))"
  unfolding valid_identifier_cases id_pattern_match_iff by auto

theorem valid_identifier_iff_witness:
  "is_valid_identifier (PStr (''w-1'' @ [CHR 0x0A])) \<and> \<not> is_valid_identifier (PStr ''w 1'')"
proof -
  have "is_valid_identifier (PStr (''w-1'' @ [CHR 0x0A]))"
    by (subst valid_identifier_iff, rule exI [of _ "''w-1''"]) (simp add: id_char_def)
  moreover have "\<not> is_valid_identifier (PStr ''w 1'')"
    by (subst valid_identifier_iff) (auto simp: id_char_def append_eq_Cons_conv)
  ultimately show ?thesis by blast
qed

lemma valid_identifier_chars:
  assumes "is_valid_identifier (PStr s)" and "c \<in> set s"
  shows "id_char c \<or> c = CHR 0x0A"
  using assms unfolding valid_identifier_cases id_pattern_match_iff by auto

lemma valid_identifier_no_slash: "is_valid_identifier (PStr s) \<Longrightarrow> CHR ''/'' \<notin> set s"
  using valid_identifier_chars by (fastforce simp: id_char_def)

end
