(* ===== verification/Rxon_Matching.thy ===== *)
theory Rxon_Matching
  imports Rxon_Errors
begin

text \<open>
  The requirement matching of \<^verbatim>\<open>src/rxon/models.py\<close>: \<open>HardwareDevice\<close>,
  \<open>Resources\<close>, \<open>InstalledArtifact\<close> and \<open>SkillInfo\<close> with their \<open>matches\<close> methods.  The
  property loop is written three times in the source with the same body; it is
  \<open>match_properties\<close> here.  Building a set from unhashable elements, or testing an
  unhashable value for membership in one, raises \<open>TypeError\<close>.
\<close>

subsection \<open>One property\<close>

definition unhashable :: exn where
  "unhashable = PyExn TypeError ''unhashable type''"

text \<open>\<open>v if isinstance(v, (frozenset, set)) else set(v)\<close> for a collection \<open>v\<close>.\<close>

fun to_set :: "pyval \<Rightarrow> exn + pyval list" where
  "to_set (PSet xs) = Inr xs"
| "to_set (PFrozenset xs) = Inr xs"
| "to_set (PList xs) = (if list_all hashable xs then Inr xs else Inl unhashable)"
| "to_set _ = Inl (PyExn TypeError ''object is not iterable'')"

definition in_set :: "pyval \<Rightarrow> pyval list \<Rightarrow> exn + bool" where
  "in_set v s = (if hashable v then Inr (py_mem v s) else Inl unhashable)"

definition match_value :: "pyval \<Rightarrow> pyval \<Rightarrow> exn + bool" where
  "match_value my_v req_v =
     (case (num_of req_v, num_of my_v) of
        (Some r, Some m) \<Rightarrow> Inr (\<not> m < r)
      | _ \<Rightarrow>
         if coll_of req_v \<noteq> None then
           rbind (to_set req_v) (\<lambda>req_set.
             if coll_of my_v \<noteq> None then
               rbind (to_set my_v) (\<lambda>my_set. Inr (list_ex (\<lambda>x. py_mem x req_set) my_set))
             else in_set my_v req_set)
         else if coll_of my_v \<noteq> None then
           rbind (to_set my_v) (\<lambda>my_set. in_set req_v my_set)
         else Inr (py_eq my_v req_v))"

definition match_entry :: "pyval dict \<Rightarrow> string \<times> pyval \<Rightarrow> exn + bool" where
  "match_entry my_props = (\<lambda>(k, req_v).
     case dget k my_props of
       None \<Rightarrow> Inr False
     | Some my_v \<Rightarrow> if my_v = PNone then Inr False else match_value my_v req_v)"

definition match_properties :: "pyval dict option \<Rightarrow> pyval dict \<Rightarrow> exn + bool" where
  "match_properties props req_props =
     forall_res (match_entry (case props of None \<Rightarrow> [] | Some d \<Rightarrow> d)) req_props"

subsection \<open>Devices\<close>

record hardware_device =
  dev_type :: string
  dev_model :: "string option"
  dev_id :: "string option"
  dev_properties :: "pyval dict option"
  dev_metrics :: "pyval dict option"

text \<open>Truth of an optional string: neither None nor empty.\<close>

fun given :: "string option \<Rightarrow> bool" where
  "given None = False"
| "given (Some s) = (s \<noteq> [])"

definition text_of :: "string option \<Rightarrow> string" where
  "text_of s = (case s of None \<Rightarrow> [] | Some t \<Rightarrow> t)"

definition props_of :: "pyval dict option \<Rightarrow> pyval dict" where
  "props_of p = (case p of None \<Rightarrow> [] | Some d \<Rightarrow> d)"

definition HardwareDevice_matches :: "hardware_device \<Rightarrow> hardware_device \<Rightarrow> exn + bool" where
  "HardwareDevice_matches self req =
     (if dev_type req \<noteq> [] \<and> dev_type self \<noteq> dev_type req then Inr False
      else if given (dev_model req) \<and>
              (\<not> given (dev_model self) \<or>
               \<not> contains (lower (text_of (dev_model req))) (lower (text_of (dev_model self))))
        then Inr False
      else if given (dev_id req) \<and> dev_id self \<noteq> dev_id req then Inr False
      else if props_of (dev_properties req) = [] then Inr True
      else match_properties (dev_properties self) (props_of (dev_properties req)))"

subsection \<open>Resources: first fit over the worker's devices\<close>

record resources =
  res_devices :: "hardware_device list option"
  res_properties :: "pyval dict option"

text \<open>
  The loop over the required devices: the first device left that matches is taken out; a
  requirement no device left matches ends the search.
\<close>

fun first_fit :: "('d \<Rightarrow> 'r \<Rightarrow> exn + bool) \<Rightarrow> 'd list \<Rightarrow> 'r list \<Rightarrow> exn + bool" where
  "first_fit fits my_devices [] = Inr True"
| "first_fit fits my_devices (req_dev # reqs) =
     (case find_idx_res (\<lambda>my_dev. fits my_dev req_dev) my_devices of
        Inl e \<Rightarrow> Inl e
      | Inr None \<Rightarrow> Inr False
      | Inr (Some found_idx) \<Rightarrow> first_fit fits (pop_at found_idx my_devices) reqs)"

definition devs_of :: "hardware_device list option \<Rightarrow> hardware_device list" where
  "devs_of p = (case p of None \<Rightarrow> [] | Some d \<Rightarrow> d)"

definition Resources_matches :: "resources \<Rightarrow> resources \<Rightarrow> exn + bool" where
  "Resources_matches self req =
     rbind (if devs_of (res_devices req) \<noteq> []
            then first_fit HardwareDevice_matches (devs_of (res_devices self)) (devs_of (res_devices req))
            else Inr True)
       (\<lambda>ok. if \<not> ok then Inr False
          else if props_of (res_properties req) \<noteq> []
            then match_properties (res_properties self) (props_of (res_properties req))
          else Inr True)"

subsection \<open>Artifacts and skills\<close>

record installed_artifact =
  art_name :: string
  art_version :: string
  art_type :: "string option"
  art_properties :: "pyval dict option"

definition InstalledArtifact_matches :: "installed_artifact \<Rightarrow> installed_artifact \<Rightarrow> exn + bool" where
  "InstalledArtifact_matches self req =
     (if art_name self \<noteq> art_name req then Inr False
      else if art_version req \<noteq> ''unknown'' \<and> art_version req \<noteq> art_version self then Inr False
      else if props_of (art_properties req) = [] then Inr True
      else match_properties (art_properties self) (props_of (art_properties req)))"

record skill_info =
  skill_name :: string
  skill_type :: "string option"
  skill_description :: "string option"
  skill_version :: "string option"
  skill_input_schema :: "pyval dict option"
  skill_output_schema :: "pyval dict option"
  skill_events_schema :: "pyval dict option"
  skill_output_statuses :: "string list option"
  skill_schema_dialect :: string
  skill_properties :: "pyval dict option"
  skill_risk :: string
  skill_permissions :: "string list option"

definition SkillInfo_matches :: "skill_info \<Rightarrow> skill_info \<Rightarrow> bool" where
  "SkillInfo_matches self req =
     (if skill_name self \<noteq> skill_name req then False
      else if skill_type req \<noteq> None \<and> skill_type self \<noteq> skill_type req then False
      else skill_version req = None \<or> skill_version self = skill_version req)"

subsection \<open>Lemmas: one property\<close>

lemma match_value_num:
  "num_of r = Some x \<Longrightarrow> num_of v = Some y \<Longrightarrow> match_value v r = Inr (\<not> y < x)"
  by (simp add: match_value_def)

lemma coll_num_disjoint: "coll_of v = Some xs \<Longrightarrow> num_of v = None"
  by (cases v) auto

lemma to_set_coll: "to_set v = Inr s \<Longrightarrow> coll_of v = Some s"
  by (cases v) (auto split: if_splits)

lemma to_set_hashable: "coll_of v = Some xs \<Longrightarrow> list_all hashable xs \<Longrightarrow> to_set v = Inr xs"
  by (cases v) auto

text \<open>A device property that passes a set of acceptable values passes every larger set.\<close>

lemma match_value_coll_mono:
  assumes "coll_of r = Some rs" and "coll_of r' = Some rs'" and "set rs \<subseteq> set rs'"
    and "list_all hashable rs'" and "match_value v r = Inr True"
  shows "match_value v r' = Inr True"
proof -
  have n: "num_of r = None" "num_of r' = None"
    using assms(1,2) by (auto dest: coll_num_disjoint)
  from assms(3,4) have h: "list_all hashable rs" by (auto simp: list_all_iff)
  have s: "to_set r = Inr rs" "to_set r' = Inr rs'"
    using assms(1,2,4) h by (auto intro: to_set_hashable)
  show ?thesis
    using assms n s
    by (cases "coll_of v")
      (fastforce simp: match_value_def in_set_def list_ex_iff py_mem_iff split: if_splits)+
qed

definition match_ok :: "pyval dict \<Rightarrow> string \<Rightarrow> pyval \<Rightarrow> bool" where
  "match_ok d k r = (\<exists>v. dget k d = Some v \<and> v \<noteq> PNone \<and> match_value v r = Inr True)"

lemma match_entry_True: "match_entry d (k, r) = Inr True \<longleftrightarrow> match_ok d k r"
  by (auto simp: match_entry_def match_ok_def split: option.splits if_splits)

lemma match_properties_True:
  "match_properties p rq = Inr True \<longleftrightarrow> (\<forall>(k, r)\<in>set rq. match_ok (props_of p) k r)"
  by (auto simp: match_properties_def forall_res_True_iff match_entry_True props_of_def
      split: option.splits prod.splits)

lemma HardwareDevice_matches_True:
  "HardwareDevice_matches d r = Inr True \<longleftrightarrow>
     (dev_type r = [] \<or> dev_type d = dev_type r) \<and>
     (given (dev_model r) \<longrightarrow> given (dev_model d) \<and>
        contains (lower (text_of (dev_model r))) (lower (text_of (dev_model d)))) \<and>
     (given (dev_id r) \<longrightarrow> dev_id d = dev_id r) \<and>
     (\<forall>(k, v)\<in>set (props_of (dev_properties r)). match_ok (props_of (dev_properties d)) k v)"
  by (auto simp: HardwareDevice_matches_def match_properties_True)


subsection \<open>First fit\<close>

definition assigns :: "('d \<Rightarrow> 'r \<Rightarrow> exn + bool) \<Rightarrow> 'd list \<Rightarrow> 'r list \<Rightarrow> nat list \<Rightarrow> bool" where
  "assigns fits my reqs idx \<longleftrightarrow>
     length idx = length reqs \<and> distinct idx \<and> (\<forall>i\<in>set idx. i < length my) \<and>
     (\<forall>k<length reqs. fits (my ! (idx ! k)) (reqs ! k) = Inr True)"

text \<open>
  Soundness: a success hands every requirement its own device, in order, and each device
  fits the requirement it was handed to.
\<close>

lemma first_fit_sound:
  "first_fit fits my reqs = Inr True \<Longrightarrow>
    \<exists>idx. assigns fits my reqs idx"
  unfolding assigns_def
proof (induction fits my reqs rule: first_fit.induct)
  case (1 fits my)
  show ?case by (rule exI [of _ "[]"]) simp
next
  case (2 fits my r reqs)
  then obtain i where i: "find_idx_res (\<lambda>d. fits d r) my = Inr (Some i)"
    and rest: "first_fit fits (pop_at i my) reqs = Inr True"
    by (auto split: sum.splits option.splits)
  from find_idx_res_SomeD [OF i] have il: "i < length my" and fi: "fits (my ! i) r = Inr True" by auto
  from "2.IH" [OF i _ rest] obtain idx where
    idx: "length idx = length reqs" "distinct idx" "\<forall>j\<in>set idx. j < length my - 1"
      "\<forall>k<length reqs. fits (pop_at i my ! (idx ! k)) (reqs ! k) = Inr True"
    using il by auto
  define sh where "sh = (\<lambda>k. if k < i then k else Suc k)"
  have inj: "inj sh" by (auto simp: sh_def inj_def split: if_splits)
  have ne: "i \<notin> sh ` A" for A by (auto simp: sh_def split: if_splits)
  have nth: "pop_at i my ! k = my ! sh k" if "k < length my - 1" for k
    using nth_pop_at [OF il that] by (simp add: sh_def)
  show ?case
  proof (rule exI [of _ "i # map sh idx"], intro conjI ballI allI impI)
    show "length (i # map sh idx) = length (r # reqs)" using idx(1) by simp
    show "distinct (i # map sh idx)"
      using idx(2) inj_on_subset [OF inj subset_UNIV] ne [of "set idx"] by (simp add: distinct_map)
    fix j assume "j \<in> set (i # map sh idx)"
    then show "j < length my" using il idx(3) by (fastforce simp: sh_def split: if_splits)
  next
    fix k assume k: "k < length (r # reqs)"
    then show "fits (my ! ((i # map sh idx) ! k)) ((r # reqs) ! k) = Inr True"
      using fi idx(1,3,4) nth by (cases k) auto
  qed
qed

text \<open>Every device answers for every requirement: nothing raises.\<close>

definition decides :: "('d \<Rightarrow> 'r \<Rightarrow> exn + bool) \<Rightarrow> 'd list \<Rightarrow> 'r list \<Rightarrow> bool" where
  "decides fits my reqs \<longleftrightarrow> (\<forall>d\<in>set my. \<forall>r\<in>set reqs. \<exists>b. fits d r = Inr b)"

lemma find_idx_res_decided:
  "(\<And>x. x \<in> set xs \<Longrightarrow> \<exists>b. p x = Inr b) \<Longrightarrow> \<exists>r. find_idx_res p xs = Inr r"
proof (induction xs)
  case (Cons x xs)
  then obtain b where "p x = Inr b" by (meson list.set_intros(1))
  moreover from Cons obtain r where "find_idx_res p xs = Inr r" by auto
  ultimately show ?case by (cases b) auto
qed simp

lemma length_filter_pop_at:
  assumes "i < length xs"
  shows "length (filter P xs) \<le> Suc (length (filter P (pop_at i xs)))"
proof -
  from assms have "xs = take i xs @ xs ! i # drop (Suc i) xs" by (rule id_take_nth_drop)
  then have "length (filter P xs) = length (filter P (take i xs @ xs ! i # drop (Suc i) xs))"
    by simp
  then show ?thesis by (simp add: pop_at_def)
qed

text \<open>
  Enough devices for every prefix of the requirements (Hall's count for the order given)
  makes first fit succeed.
\<close>

lemma first_fit_counts:
  "decides fits my reqs \<Longrightarrow>
    (\<And>k. k < length reqs \<Longrightarrow> k < length (filter (\<lambda>d. fits d (reqs ! k) = Inr True) my)) \<Longrightarrow>
    first_fit fits my reqs = Inr True"
proof (induction reqs arbitrary: my)
  case Nil
  then show ?case by simp
next
  case (Cons r rs)
  from Cons.prems(1) have dec: "\<And>d. d \<in> set my \<Longrightarrow> \<exists>b. fits d r = Inr b"
    by (auto simp: decides_def)
  from find_idx_res_decided [of my "\<lambda>d. fits d r", OF dec] obtain found
    where found: "find_idx_res (\<lambda>d. fits d r) my = Inr found" by blast
  from Cons.prems(2) [of 0] have "\<exists>d\<in>set my. fits d r = Inr True"
    by (auto simp: filter_empty_conv)
  with found obtain i where i: "find_idx_res (\<lambda>d. fits d r) my = Inr (Some i)"
    by (cases found) (auto dest: find_idx_res_NoneD)
  then have il: "i < length my" by (auto dest: find_idx_res_SomeD)
  have "first_fit fits (pop_at i my) rs = Inr True"
  proof (rule Cons.IH)
    show "decides fits (pop_at i my) rs"
      using Cons.prems(1) set_pop_at_subset [of i my] by (auto simp: decides_def)
    fix k assume "k < length rs"
    with Cons.prems(2) [of "Suc k"] length_filter_pop_at [OF il, of "\<lambda>d. fits d (rs ! k) = Inr True"]
    show "k < length (filter (\<lambda>d. fits d (rs ! k) = Inr True) (pop_at i my))" by auto
  qed
  with i show ?case by simp
qed

subsection \<open>The matcher interface\<close>

text \<open>
  What \<open>Resources.matches\<close> can rely on besides the test itself: a relation, for the devices on
  offer, under which one requirement relaxes another without turning a match into a mismatch.
  For requirements listed from the most to the least demanding first fit is then complete.
\<close>

locale device_matcher =
  fixes fits :: "'d \<Rightarrow> 'r \<Rightarrow> exn + bool"
    and relaxes :: "'d list \<Rightarrow> 'r \<Rightarrow> 'r \<Rightarrow> bool"
  assumes relax: "relaxes my r' r \<Longrightarrow> d \<in> set my \<Longrightarrow> fits d r = Inr True \<Longrightarrow> fits d r' = Inr True"
begin

lemma chain_counts:
  assumes a: "assigns fits my reqs idx"
    and chain: "sorted_wrt (\<lambda>r r'. relaxes my r' r) reqs" and k: "k < length reqs"
  shows "k < length (filter (\<lambda>d. fits d (reqs ! k) = Inr True) my)"
proof -
  let ?P = "\<lambda>d. fits d (reqs ! k) = Inr True"
  have ok: "?P (my ! (idx ! j))" if "j \<le> k" for j
  proof (cases "j = k")
    case False
    with that k chain have "relaxes my (reqs ! k) (reqs ! j)" by (simp add: sorted_wrt_iff_nth_less)
    moreover have "my ! (idx ! j) \<in> set my" using a that k by (auto simp: assigns_def)
    moreover have "fits (my ! (idx ! j)) (reqs ! j) = Inr True" using a that k by (simp add: assigns_def)
    ultimately show ?thesis by (rule relax)
  qed (use a k in \<open>simp add: assigns_def\<close>)
  have "set (take (Suc k) idx) \<subseteq> {i. i < length my \<and> ?P (my ! i)}"
  proof
    fix i assume "i \<in> set (take (Suc k) idx)"
    then obtain j where "j \<le> k" "j < length idx" "i = idx ! j"
      by (metis in_set_conv_nth length_take less_Suc_eq_le min_less_iff_conj nth_take)
    with ok a show "i \<in> {i. i < length my \<and> ?P (my ! i)}" by (auto simp: assigns_def)
  qed
  then have "card (set (take (Suc k) idx)) \<le> card {i. i < length my \<and> ?P (my ! i)}"
    by (rule card_mono [rotated]) simp
  moreover have "card (set (take (Suc k) idx)) = Suc k"
    using a k by (simp add: assigns_def distinct_card)
  ultimately show ?thesis by (simp add: length_filter_conv_card)
qed

lemma first_fit_complete:
  assumes "decides fits my reqs" and "sorted_wrt (\<lambda>r r'. relaxes my r' r) reqs"
    and "assigns fits my reqs idx"
  shows "first_fit fits my reqs = Inr True"
  using assms by (intro first_fit_counts chain_counts)

corollary first_fit_iff:
  assumes "decides fits my reqs" and "sorted_wrt (\<lambda>r r'. relaxes my r' r) reqs"
  shows "first_fit fits my reqs = Inr True \<longleftrightarrow> (\<exists>idx. assigns fits my reqs idx)"
  using assms first_fit_sound first_fit_complete by blast

end

subsection \<open>Devices are matchers\<close>

text \<open>
  A required value relaxes another: it is the same, a larger collection of alternatives, or a
  number that is not larger.  A number is compared with an offered number, but looked up in an
  offered collection, where smaller does not mean easier: the last case asks that no device on
  offer has a collection there.
\<close>

definition value_relaxes :: "hardware_device list \<Rightarrow> string \<Rightarrow> pyval \<Rightarrow> pyval \<Rightarrow> bool" where
  "value_relaxes my k v' v \<longleftrightarrow> v' = v \<or>
     (case (coll_of v', coll_of v) of
        (Some xs', Some xs) \<Rightarrow> set xs \<subseteq> set xs' \<and> list_all hashable xs'
      | _ \<Rightarrow> False) \<or>
     (case (num_of v', num_of v) of
        (Some x', Some x) \<Rightarrow> x' \<le> x \<and>
          (\<forall>d\<in>set my. case dget k (props_of (dev_properties d)) of Some w \<Rightarrow> coll_of w = None | None \<Rightarrow> True)
      | _ \<Rightarrow> False)"

definition device_relaxes :: "hardware_device list \<Rightarrow> hardware_device \<Rightarrow> hardware_device \<Rightarrow> bool" where
  "device_relaxes my r' r \<longleftrightarrow>
     (dev_type r' = [] \<or> dev_type r' = dev_type r) \<and>
     (given (dev_model r') \<longrightarrow> given (dev_model r) \<and>
        contains (lower (text_of (dev_model r'))) (lower (text_of (dev_model r)))) \<and>
     (given (dev_id r') \<longrightarrow> dev_id r' = dev_id r) \<and>
     (\<forall>(k, v')\<in>set (props_of (dev_properties r')).
        \<exists>v. (k, v) \<in> set (props_of (dev_properties r)) \<and> value_relaxes my k v' v)"

text \<open>An offered scalar that passes a number is itself a number, and passes every smaller one.\<close>

lemma match_value_num_mono:
  assumes "num_of r = Some x" and "num_of r' = Some x'" and "x' \<le> x" and "coll_of v = None"
    and "match_value v r = Inr True"
  shows "match_value v r' = Inr True"
proof -
  have c: "coll_of r = None" using assms(1) by (cases r) auto
  have "num_of v \<noteq> None"
  proof
    assume n: "num_of v = None"
    with assms(1,4,5) c have "py_eq v r" by (simp add: match_value_def)
    with n assms(1) show False by (cases v; cases r) auto
  qed
  then obtain y where y: "num_of v = Some y" by blast
  with assms(1,5) have "\<not> y < x" by (simp add: match_value_num)
  with assms(3) have "\<not> y < x'" using flt_less_trans by (auto simp: less_eq_flt_def)
  with y assms(2) show ?thesis by (simp add: match_value_num)
qed

lemma value_relaxes_ok:
  assumes rel: "value_relaxes my k v' v" and d: "d \<in> set my" and ok: "match_ok (props_of (dev_properties d)) k v"
  shows "match_ok (props_of (dev_properties d)) k v'"
proof -
  from ok obtain w where w: "dget k (props_of (dev_properties d)) = Some w" "w \<noteq> PNone" "match_value w v = Inr True"
    by (auto simp: match_ok_def)
  from rel consider "v' = v"
    | xs xs' where "coll_of v' = Some xs'" "coll_of v = Some xs" "set xs \<subseteq> set xs'" "list_all hashable xs'"
    | x x' where "num_of v' = Some x'" "num_of v = Some x" "x' \<le> x" "coll_of w = None"
    using d w(1) by (fastforce simp: value_relaxes_def split: option.splits)
  then have "match_value w v' = Inr True"
    using w(3) by cases (auto intro: match_value_coll_mono match_value_num_mono)
  with w(1,2) show ?thesis by (simp add: match_ok_def)
qed

lemma device_relaxes_matches:
  assumes "device_relaxes my r' r" and d: "d \<in> set my" and "HardwareDevice_matches d r = Inr True"
  shows "HardwareDevice_matches d r' = Inr True"
  unfolding HardwareDevice_matches_True
proof (intro conjI)
  note D = assms(1) [unfolded device_relaxes_def] and H = assms(3) [unfolded HardwareDevice_matches_True]
  show "dev_type r' = [] \<or> dev_type d = dev_type r'" using D H by auto
  show "given (dev_model r') \<longrightarrow> given (dev_model d) \<and>
      contains (lower (text_of (dev_model r'))) (lower (text_of (dev_model d)))"
    using D H contains_trans by blast
  show "given (dev_id r') \<longrightarrow> dev_id d = dev_id r'" using D H by auto
  show "\<forall>(k, v)\<in>set (props_of (dev_properties r')). match_ok (props_of (dev_properties d)) k v"
  proof clarify
    fix k v' assume "(k, v') \<in> set (props_of (dev_properties r'))"
    with D obtain v where "(k, v) \<in> set (props_of (dev_properties r))" "value_relaxes my k v' v" by blast
    with H d show "match_ok (props_of (dev_properties d)) k v'" by (blast intro: value_relaxes_ok)
  qed
qed

interpretation device: device_matcher HardwareDevice_matches device_relaxes
  by unfold_locales (rule device_relaxes_matches)

lemma Resources_matches_True:
  "Resources_matches s r = Inr True \<longleftrightarrow>
     first_fit HardwareDevice_matches (devs_of (res_devices s)) (devs_of (res_devices r)) = Inr True \<and>
     (\<forall>(k, v)\<in>set (props_of (res_properties r)). match_ok (props_of (res_properties s)) k v)"
  by (auto simp: Resources_matches_def match_properties_True split: if_splits)


subsection \<open>Lemmas: errors and self matches\<close>

lemma match_value_error:
  assumes "match_value v r = Inl e"
  shows "e = unhashable"
proof -
  have t: "to_set w = Inl e \<Longrightarrow> coll_of w \<noteq> None \<Longrightarrow> e = unhashable" for w e
    by (cases w) (auto split: if_splits)
  show ?thesis
    using assms t
    by (auto simp: match_value_def in_set_def rbind_Inl_iff split: option.splits if_splits)
qed

text \<open>The values on which no membership test or set construction raises.\<close>

definition comparable :: "pyval \<Rightarrow> bool" where
  "comparable v \<longleftrightarrow> (case coll_of v of Some xs \<Rightarrow> list_all hashable xs | None \<Rightarrow> hashable v)"

lemma match_value_total: "comparable v \<Longrightarrow> comparable r \<Longrightarrow> \<exists>b. match_value v r = Inr b"
  by (auto simp: comparable_def match_value_def in_set_def to_set_hashable split: option.splits)

lemma match_value_self:
  assumes ok: "val_ok v" and c: "comparable v"
  shows "match_value v v = Inr (coll_of v \<noteq> Some [])"
proof (cases "coll_of v")
  case None
  with py_eq_refl [OF ok] show ?thesis
    by (cases "num_of v") (auto simp: match_value_def)
next
  case (Some xs)
  then have n: "num_of v = None" and h: "list_all hashable xs" and vs: "list_all val_ok xs"
    using c ok coll_num_disjoint by (auto simp: comparable_def) (cases v; auto)
  have "list_ex (\<lambda>x. py_mem x xs) xs \<longleftrightarrow> xs \<noteq> []"
    using vs by (cases xs) (auto simp: py_mem_def list_all_iff intro: py_eq_refl)
  with Some n h show ?thesis by (simp add: match_value_def to_set_hashable)
qed

lemma match_properties_self:
  assumes wf: "dwf p" and vs: "\<forall>(k, v)\<in>set p. val_ok v \<and> comparable v"
  shows "match_properties (Some p) p = Inr (\<forall>(k, v)\<in>set p. v \<noteq> PNone \<and> coll_of v \<noteq> Some [])"
proof -
  have e: "match_entry p (k, v) = Inr (v \<noteq> PNone \<and> coll_of v \<noteq> Some [])" if "(k, v) \<in> set p" for k v
    using that wf vs match_value_self [of v]
    by (auto simp: match_entry_def dget_def dwf_def)
  then have "forall_res (match_entry p) p = Inr (\<forall>x\<in>set p. match_entry p x = Inr True)"
    by (intro forall_res_no_raise) auto
  moreover have "match_entry p x = Inr True \<longleftrightarrow> snd x \<noteq> PNone \<and> coll_of (snd x) \<noteq> Some []"
    if "x \<in> set p" for x using e [of "fst x" "snd x"] that by simp
  ultimately show ?thesis by (simp add: match_properties_def case_prod_beta cong: ball_cong)
qed

subsection \<open>Properties\<close>

text \<open>Concrete devices for the closed instances.\<close>

definition gpu :: "pyval dict \<Rightarrow> hardware_device" where
  "gpu p = \<lparr>dev_type = ''gpu'', dev_model = None, dev_id = None, dev_properties = Some p, dev_metrics = None\<rparr>"

definition two_gpus :: resources where
  "two_gpus = \<lparr>res_devices = Some [gpu [(''vram'', PInt 24)], gpu [(''vram'', PInt 10)]],
     res_properties = None\<rparr>"

definition need_gpus :: "pyval list \<Rightarrow> resources" where
  "need_gpus vs = \<lparr>res_devices = Some (map (\<lambda>v. gpu [(''vram'', v)]) vs), res_properties = None\<rparr>"

lemmas gpu_eval = two_gpus_def need_gpus_def gpu_def Resources_matches_def devs_of_def props_of_def
  HardwareDevice_matches_def match_properties_def match_entry_def match_value_def dget_def pop_at_def
  assigns_def

text \<open>
  C18: When Resources.matches accepts, every required device was assigned a distinct device that
  matches it, and every required property is met by the offered one.
\<close>
theorem resources_match_sound:
  assumes "Resources_matches self req = Inr True"
  shows "(\<exists>idx. assigns HardwareDevice_matches (devs_of (res_devices self)) (devs_of (res_devices req)) idx) \<and>
    (\<forall>(k, v)\<in>set (props_of (res_properties req)). match_ok (props_of (res_properties self)) k v)"
  using assms first_fit_sound unfolding Resources_matches_True by blast

theorem resources_match_sound_witness:
  "\<exists>idx. assigns HardwareDevice_matches (devs_of (res_devices (need_gpus [PInt 24, PInt 10])))
     (devs_of (res_devices (need_gpus [PInt 20, PInt 8]))) idx"
proof -
  have h: "Resources_matches (need_gpus [PInt 24, PInt 10]) (need_gpus [PInt 20, PInt 8]) = Inr True"
    by (simp add: gpu_eval)
  show ?thesis using resources_match_sound [OF h] by blast
qed

text \<open>
  C38: When no comparison of an offered with a required device raises and each required device
  asks no more than each one listed before it, the first-fit search accepts exactly when an
  assignment of distinct matching devices exists and the properties are met: on such requests the
  greedy loop loses nothing. Asking no more is asking for the same type or none, for a model text
  contained in the other's (or none), for the same id or none, and, for each property, for the
  same value, for a larger collection of alternatives (all hashable), or for a number that is not
  larger, where no offered device has a collection under that name.
\<close>
theorem resources_match_complete:
  assumes "decides HardwareDevice_matches (devs_of (res_devices self)) (devs_of (res_devices req))"
    and "sorted_wrt (\<lambda>r r'. device_relaxes (devs_of (res_devices self)) r' r) (devs_of (res_devices req))"
  shows "Resources_matches self req = Inr True \<longleftrightarrow>
    (\<exists>idx. assigns HardwareDevice_matches (devs_of (res_devices self)) (devs_of (res_devices req)) idx) \<and>
    (\<forall>(k, v)\<in>set (props_of (res_properties req)). match_ok (props_of (res_properties self)) k v)"
  unfolding Resources_matches_True device.first_fit_iff [OF assms] ..

theorem resources_match_complete_witness:
  "\<exists>idx. assigns HardwareDevice_matches (devs_of (res_devices two_gpus))
     (devs_of (res_devices (need_gpus [PInt 20, PInt 8]))) idx"
proof -
  have d: "decides HardwareDevice_matches (devs_of (res_devices two_gpus)) (devs_of (res_devices (need_gpus [PInt 20, PInt 8])))"
    by (auto simp: decides_def gpu_eval)
  have c: "sorted_wrt (\<lambda>r r'. device_relaxes (devs_of (res_devices two_gpus)) r' r)
      (devs_of (res_devices (need_gpus [PInt 20, PInt 8])))"
    by (simp add: device_relaxes_def need_gpus_def two_gpus_def gpu_def devs_of_def props_of_def value_relaxes_def
        dget_def less_eq_flt_def)
  have "Resources_matches two_gpus (need_gpus [PInt 20, PInt 8]) = Inr True" by (simp add: gpu_eval)
  then show ?thesis using resources_match_complete [OF d c] by blast
qed

text \<open>
  Listed in the other order the same request is refused although an assignment exists: two GPUs
  with 24 and 16 GB satisfy the request for 8 and 20 GB only when the 20 GB device is listed
  first.
\<close>
theorem resources_match_incomplete:
  "assigns HardwareDevice_matches (devs_of (res_devices two_gpus))
     (devs_of (res_devices (need_gpus [PInt 8, PInt 20]))) [1, 0] \<and>
   Resources_matches two_gpus (need_gpus [PInt 8, PInt 20]) = Inr False \<and>
   Resources_matches two_gpus (need_gpus [PInt 20, PInt 8]) = Inr True"
  by (simp add: gpu_eval nth_Cons less_Suc_eq all_conj_distrib split: nat.splits)

text \<open>
  A device that matches a requirement matches every relaxation of it (fewer or empty fields, a
  shorter model substring, smaller numbers, fewer properties).
\<close>
theorem device_match_relax:
  assumes "device_relaxes my r' r" and "d \<in> set my" and "HardwareDevice_matches d r = Inr True"
  shows "HardwareDevice_matches d r' = Inr True"
  using assms by (rule device.relax)

theorem device_match_relax_witness:
  "HardwareDevice_matches (gpu [(''os'', PStr ''linux''), (''vram'', PInt 24)])
     (gpu [(''os'', PList [PStr ''linux'', PStr ''darwin'']), (''vram'', PInt 12)]) = Inr True"
proof (rule device_match_relax)
  let ?d = "gpu [(''os'', PStr ''linux''), (''vram'', PInt 24)]"
  show "device_relaxes [?d] (gpu [(''os'', PList [PStr ''linux'', PStr ''darwin'']), (''vram'', PInt 12)])
      (gpu [(''os'', PList [PStr ''linux'']), (''vram'', PInt 16)])"
    by (simp add: device_relaxes_def gpu_def props_of_def value_relaxes_def dget_def less_eq_flt_def)
  show "?d \<in> set [?d]" by simp
  show "HardwareDevice_matches ?d (gpu [(''os'', PList [PStr ''linux'']), (''vram'', PInt 16)]) = Inr True"
    by (simp add: gpu_eval in_set_def py_mem_def)
qed

text \<open>
  A device offered as its own requirement matches exactly when none of its properties is None or
  an empty collection; it never raises on comparable values.
\<close>
theorem device_self_match:
  assumes "dev_properties d = Some p" and "dwf p" and "\<forall>(k, v)\<in>set p. val_ok v \<and> comparable v"
  shows "HardwareDevice_matches d d = Inr (\<forall>(k, v)\<in>set p. v \<noteq> PNone \<and> coll_of v \<noteq> Some [])"
  using assms match_properties_self
  by (auto simp: HardwareDevice_matches_def props_of_def)

theorem device_self_match_witness:
  "HardwareDevice_matches (gpu [(''vram'', PInt 24), (''tags'', PList [])])
     (gpu [(''vram'', PInt 24), (''tags'', PList [])]) = Inr False"
  using device_self_match [of "gpu [(''vram'', PInt 24), (''tags'', PList [])]" "[(''vram'', PInt 24), (''tags'', PList [])]"]
  by (simp add: gpu_def dwf_def comparable_def)

text \<open>
  A numeric requirement on a numeric property is a lower bound: it is met exactly when the offered
  number is at least the required one, across bool, int and float.
\<close>
theorem match_entry_numeric:
  assumes "dget k my_props = Some v" and "num_of v = Some y" and "num_of req_v = Some x"
    and "x \<noteq> NaN" and "y \<noteq> NaN"
  shows "match_entry my_props (k, req_v) = Inr (x \<le> y)"
proof -
  have "v \<noteq> PNone" using assms(2) by auto
  with assms show ?thesis by (simp add: match_entry_def match_value_num flt_linear)
qed

theorem match_entry_numeric_witness:
  "match_entry [(''vram'', PInt 24)] (''vram'', PFloat (Fin (47 / 2))) = Inr True"
  using match_entry_numeric [of "''vram''" "[(''vram'', PInt 24)]" "PInt 24" "Fin 24" "PFloat (Fin (47 / 2))" "Fin (47 / 2)"]
  by (simp add: dget_def less_eq_flt_def)

text \<open>
  On hashable elements a list requirement is met by a scalar in it or by a list that shares an
  element with it, and a scalar requirement by a list that contains it.
\<close>
theorem match_value_membership:
  assumes "list_all hashable rs" and "list_all hashable vs" and "hashable x"
    and "coll_of x = None"
  shows "match_value x (PList rs) = Inr (py_mem x rs) \<and>
    match_value (PList vs) (PList rs) = Inr (\<exists>v\<in>set vs. py_mem v rs) \<and>
    match_value (PList vs) x = Inr (py_mem x vs)"
  using assms by (auto simp: match_value_def in_set_def list_ex_iff split: option.splits)

theorem match_value_membership_witness:
  "match_value (PStr ''linux'') (PList [PStr ''darwin'', PStr ''linux'']) = Inr True"
  using match_value_membership [of "[PStr ''darwin'', PStr ''linux'']" "[]" "PStr ''linux''"]
  by (simp add: py_mem_def)

text \<open>
  Because bool is an int in Python, the requirement False is met by True, and the requirement True
  by the integer 5.
\<close>
theorem match_bool_requirement:
  "match_entry [(''shared'', PBool True)] (''shared'', PBool False) = Inr True \<and>
   match_entry [(''shared'', PBool False)] (''shared'', PBool True) = Inr False \<and>
   match_entry [(''count'', PInt 5)] (''count'', PBool True) = Inr True"
  by (simp add: match_entry_def match_value_def dget_def)

text \<open>
  The only exception the property comparison raises is the TypeError of an unhashable element, and
  then some offered or required value is not comparable.
\<close>
theorem match_properties_errors:
  assumes "match_properties p rq = Inl e"
  shows "e = unhashable \<and> (\<exists>(k, r)\<in>set rq. \<exists>v. dget k (props_of p) = Some v \<and> \<not> (comparable v \<and> comparable r))"
proof -
  from assms obtain k r where kr: "(k, r) \<in> set rq" "match_entry (props_of p) (k, r) = Inl e"
    by (auto simp: match_properties_def props_of_def dest!: forall_res_Inl)
  then obtain v where v: "dget k (props_of p) = Some v" "match_value v r = Inl e"
    by (auto simp: match_entry_def split: option.splits if_splits)
  with match_value_total [of v r] have "\<not> (comparable v \<and> comparable r)" by force
  with kr v match_value_error show ?thesis by blast
qed

theorem match_properties_errors_witness:
  "\<exists>(k, r)\<in>set [(''tags'', PList [PList []])]. \<exists>v. dget k (props_of (Some [(''tags'', PInt 1)])) = Some v \<and>
     \<not> (comparable v \<and> comparable r)"
proof -
  have h: "match_properties (Some [(''tags'', PInt 1)]) [(''tags'', PList [PList []])] = Inl unhashable"
    by (simp add: match_properties_def match_entry_def match_value_def dget_def)
  show ?thesis using match_properties_errors [OF h] by blast
qed

text \<open>
  SkillInfo.matches is reflexive and transitive: a skill offered through an intermediate
  description still meets the requirement.
\<close>
theorem skill_match_preorder:
  "SkillInfo_matches s s \<and> (SkillInfo_matches a b \<longrightarrow> SkillInfo_matches b c \<longrightarrow> SkillInfo_matches a c)"
  by (auto simp: SkillInfo_matches_def split: if_splits)

theorem skill_match_preorder_witness:
  "\<exists>s :: skill_info. SkillInfo_matches s s \<and> (SkillInfo_matches s s \<longrightarrow> SkillInfo_matches s s)"
  using skill_match_preorder by blast

end
