(* ===== verification/Rxon_Serial.thy ===== *)
theory Rxon_Serial
  imports Rxon_Errors "HOL-Library.List_Lexorder" "HOL-Library.Char_ord"
begin

text \<open>
  \<^verbatim>\<open>src/rxon/utils.py\<close>: conversion of any object to a JSON value in normal form
  (\<open>to_dict\<close>), its inverse for model classes (\<open>from_dict\<close>), the JSON text and the hash of an
  object.  orjson and msgspec are arguments: \<open>codec\<close> holds \<open>orjson.dumps\<close> and \<open>loads\<close>, and
  \<open>to_builtins\<close>, \<open>str()\<close> of an arbitrary object; a model class carries its \<open>isinstance\<close> test and
  \<open>msgspec.convert\<close>.  What the code relies on in orjson is the predicate \<open>codec_ok\<close>.
\<close>

subsection \<open>The libraries\<close>

datatype orjson_opt = OPT_SORT_KEYS | OPT_NON_STR_KEYS

record 'b codec =
  oj_dumps :: "(pyval \<Rightarrow> pyval) option \<Rightarrow> orjson_opt list \<Rightarrow> pyval \<Rightarrow> exn + 'b"
  oj_loads :: "'b \<Rightarrow> exn + pyval"
  to_builtins :: "pyval \<Rightarrow> exn + pyval"
  py_str :: "pyval \<Rightarrow> string"

subsection \<open>Normal form\<close>

definition MAX_RECURSION_DEPTH :: nat where
  "MAX_RECURSION_DEPTH = 30"

definition recursion_error :: exn where
  "recursion_error = PyExn RecursionError ''Maximum recursion depth (30) exceeded in to_dict''"

definition is_integer :: "rat \<Rightarrow> bool" where
  "is_integer q \<longleftrightarrow> of_int \<lfloor>q\<rfloor> = q"

fun finalize_structure :: "nat \<Rightarrow> pyval \<Rightarrow> exn + pyval"
  and finalize_items :: "nat \<Rightarrow> (string \<times> pyval) list \<Rightarrow> exn + (string \<times> pyval) list"
  and finalize_list :: "nat \<Rightarrow> pyval list \<Rightarrow> exn + pyval list" where
  "finalize_structure depth (PDict d) =
     (if depth > MAX_RECURSION_DEPTH then Inl recursion_error
      else rbind (finalize_items (depth + 1) d) (\<lambda>d'. Inr (PDict d')))"
| "finalize_structure depth (PList xs) =
     (if depth > MAX_RECURSION_DEPTH then Inl recursion_error
      else rbind (finalize_list (depth + 1) xs) (\<lambda>xs'. Inr (PList xs')))"
| "finalize_structure depth (PFloat (Fin q)) =
     (if depth > MAX_RECURSION_DEPTH then Inl recursion_error
      else if is_integer q then Inr (PInt \<lfloor>q\<rfloor>) else Inr (PFloat (Fin q)))"
| "finalize_structure depth v =
     (if depth > MAX_RECURSION_DEPTH then Inl recursion_error else Inr v)"
| "finalize_items depth [] = Inr []"
| "finalize_items depth ((k, v) # d) =
     (if v = PNone then finalize_items depth d
      else rbind (finalize_structure depth v) (\<lambda>v'.
             rbind (finalize_items depth d) (\<lambda>d'. Inr ((k, v') # d'))))"
| "finalize_list depth [] = Inr []"
| "finalize_list depth (x # xs) =
     rbind (finalize_structure depth x) (\<lambda>x'.
       rbind (finalize_list depth xs) (\<lambda>xs'. Inr (x' # xs')))"

subsection \<open>\<open>to_dict\<close> and \<open>from_dict\<close>\<close>

text \<open>The callback orjson gets for the objects it cannot encode itself.\<close>

fun default_handler :: "'b codec \<Rightarrow> pyval \<Rightarrow> pyval" where
  "default_handler C (PStruct c fs) =
     (case to_builtins C (PStruct c fs) of
        Inr (PDict d) \<Rightarrow> PDict (filter (\<lambda>(k, v). \<not> startswith k ''_'') d)
      | _ \<Rightarrow> PStr (py_str C (PStruct c fs)))"
| "default_handler C (PEnum c v) = v"
| "default_handler C (PStamp s) = PStr s"
| "default_handler C v = PStr (py_str C v)"

definition to_dict :: "'b codec \<Rightarrow> pyval \<Rightarrow> nat \<Rightarrow> exn + pyval" where
  "to_dict C obj depth =
     (if depth > MAX_RECURSION_DEPTH then Inl recursion_error
      else if obj = PNone then Inr PNone
      else case oj_dumps C (Some (default_handler C)) [OPT_SORT_KEYS, OPT_NON_STR_KEYS] obj of
          Inl e \<Rightarrow> if is_py TypeError e \<and> contains ''Recursion limit reached'' (exn_str (py_str C) e)
                   then Inl recursion_error else Inl e
        | Inr json_bytes \<Rightarrow> rbind (oj_loads C json_bytes) (finalize_structure depth))"

record pycls =
  cls_name :: string
  cls_is_struct :: bool
  cls_isinstance :: "pyval \<Rightarrow> exn + bool"
  cls_convert :: "pyval \<Rightarrow> exn + pyval"

fun is_dict :: "pyval \<Rightarrow> bool" where
  "is_dict (PDict _) = True"
| "is_dict _ = False"

definition from_dict :: "(pyval \<Rightarrow> string) \<Rightarrow> pycls \<Rightarrow> pyval \<Rightarrow> exn + pyval" where
  "from_dict ps cls data =
     (if data = PNone then Inr PNone
      else rbind (case cls_isinstance cls data of
                    Inl e \<Rightarrow> if is_py TypeError e then Inr False else Inl e
                  | Inr b \<Rightarrow> Inr b)
        (\<lambda>inst. if inst then Inr data
           else if cls_is_struct cls \<and> \<not> is_dict data then Inr data
           else case cls_convert cls data of
               Inl e \<Rightarrow> if is_py MsgspecError e \<or> is_py TypeError e \<or> is_py KeyError e \<or> is_py ValueError e
                  then Inl (PyExn ValueError (''Failed to instantiate '' @ cls_name cls @ '': '' @ exn_str ps e))
                  else Inl e
             | Inr v \<Rightarrow> Inr v))"

definition json_dumps :: "'b codec \<Rightarrow> pyval \<Rightarrow> exn + 'b" where
  "json_dumps C obj = rbind (to_dict C obj 0) (oj_dumps C None [])"

definition calculate_dict_hash :: "'b codec \<Rightarrow> ('b \<Rightarrow> string) \<Rightarrow> pyval \<Rightarrow> exn + string" where
  "calculate_dict_hash C sha256 obj =
     rbind (to_dict C obj 0) (\<lambda>d. rbind (oj_dumps C None [OPT_SORT_KEYS] d) (\<lambda>m. Inr (sha256 m)))"

subsection \<open>Reference: the normal form without the depth counter\<close>

fun normal :: "pyval \<Rightarrow> pyval"
  and normal_items :: "(string \<times> pyval) list \<Rightarrow> (string \<times> pyval) list"
  and normal_list :: "pyval list \<Rightarrow> pyval list" where
  "normal (PDict d) = PDict (normal_items d)"
| "normal (PList xs) = PList (normal_list xs)"
| "normal (PFloat (Fin q)) = (if is_integer q then PInt \<lfloor>q\<rfloor> else PFloat (Fin q))"
| "normal v = v"
| "normal_items [] = []"
| "normal_items ((k, v) # d) = (if v = PNone then normal_items d else (k, normal v) # normal_items d)"
| "normal_list [] = []"
| "normal_list (x # xs) = normal x # normal_list xs"

text \<open>Levels below a value that \<open>finalize_structure\<close> visits: dropped entries do not count.\<close>

fun levels :: "pyval \<Rightarrow> nat"
  and levels_items :: "(string \<times> pyval) list \<Rightarrow> nat"
  and levels_list :: "pyval list \<Rightarrow> nat" where
  "levels (PDict d) = levels_items d"
| "levels (PList xs) = levels_list xs"
| "levels v = 0"
| "levels_items [] = 0"
| "levels_items ((k, v) # d) =
     (if v = PNone then levels_items d else max (Suc (levels v)) (levels_items d))"
| "levels_list [] = 0"
| "levels_list (x # xs) = max (Suc (levels x)) (levels_list xs)"

text \<open>What a normal form is free of.\<close>

fun canonical :: "pyval \<Rightarrow> bool"
  and canonical_items :: "(string \<times> pyval) list \<Rightarrow> bool"
  and canonical_list :: "pyval list \<Rightarrow> bool" where
  "canonical (PDict d) = canonical_items d"
| "canonical (PList xs) = canonical_list xs"
| "canonical (PFloat (Fin q)) = (\<not> is_integer q)"
| "canonical v = True"
| "canonical_items [] = True"
| "canonical_items ((k, v) # d) = (v \<noteq> PNone \<and> canonical v \<and> canonical_items d)"
| "canonical_list [] = True"
| "canonical_list (x # xs) = (canonical x \<and> canonical_list xs)"

lemma finalize_equiv:
  "finalize_structure depth v =
     (if depth + levels v > MAX_RECURSION_DEPTH then Inl recursion_error else Inr (normal v))"
  "depth \<le> Suc MAX_RECURSION_DEPTH \<Longrightarrow> finalize_items depth d =
     (if depth + levels_items d > Suc MAX_RECURSION_DEPTH then Inl recursion_error
      else Inr (normal_items d))"
  "depth \<le> Suc MAX_RECURSION_DEPTH \<Longrightarrow> finalize_list depth xs =
     (if depth + levels_list xs > Suc MAX_RECURSION_DEPTH then Inl recursion_error
      else Inr (normal_list xs))"
proof (induction depth v and depth d and depth xs
    rule: finalize_structure_finalize_items_finalize_list.induct)
  case (6 depth k v d)
  then show ?case by (cases "v = PNone") (auto simp: max_def)
next
  case (8 depth x xs)
  then show ?case by (auto simp: max_def)
qed (auto simp: not_less)

lemma canonical_normal: "canonical (normal v)"
  "canonical_items (normal_items d)" "canonical_list (normal_list xs)"
proof (induction v and d and xs rule: normal_normal_items_normal_list.induct)
  case (6 k v d)
  moreover have "v \<noteq> PNone \<Longrightarrow> normal v \<noteq> PNone"
    by (cases v rule: normal.cases) auto
  ultimately show ?case by auto
qed auto

lemma normal_canonical: "canonical v \<Longrightarrow> normal v = v"
  "canonical_items d \<Longrightarrow> normal_items d = d" "canonical_list xs \<Longrightarrow> normal_list xs = xs"
  by (induction v and d and xs rule: normal_normal_items_normal_list.induct) auto

lemma normal_PNone_iff [simp]: "normal v = PNone \<longleftrightarrow> v = PNone"
  by (cases v rule: normal.cases) auto

lemma levels_normal [simp]: "levels (normal v) = levels v"
  "levels_items (normal_items d) = levels_items d" "levels_list (normal_list xs) = levels_list xs"
  by (induction v and d and xs rule: normal_normal_items_normal_list.induct) auto

lemma keys_normal_items: "map fst (normal_items d) = map fst (filter (\<lambda>p. snd p \<noteq> PNone) d)"
  by (induction d) auto


subsection \<open>JSON values up to key order\<close>

fun is_json :: "pyval \<Rightarrow> bool"
  and is_json_items :: "(string \<times> pyval) list \<Rightarrow> bool"
  and is_json_list :: "pyval list \<Rightarrow> bool" where
  "is_json PNone = True"
| "is_json (PBool b) = True"
| "is_json (PInt i) = True"
| "is_json (PFloat f) = (case f of Fin q \<Rightarrow> True | _ \<Rightarrow> False)"
| "is_json (PStr s) = True"
| "is_json (PList xs) = is_json_list xs"
| "is_json (PDict d) = (is_json_items d \<and> distinct (map fst d))"
| "is_json _ = False"
| "is_json_items [] = True"
| "is_json_items ((k, v) # d) = (is_json v \<and> is_json_items d)"
| "is_json_list [] = True"
| "is_json_list (x # xs) = (is_json x \<and> is_json_list xs)"

text \<open>Every dictionary with its keys sorted: two values are equal as JSON iff these agree.\<close>

fun json_sort :: "pyval \<Rightarrow> pyval"
  and json_sort_items :: "(string \<times> pyval) list \<Rightarrow> (string \<times> pyval) list"
  and json_sort_list :: "pyval list \<Rightarrow> pyval list" where
  "json_sort (PDict d) = PDict (sort_key fst (json_sort_items d))"
| "json_sort (PList xs) = PList (json_sort_list xs)"
| "json_sort v = v"
| "json_sort_items [] = []"
| "json_sort_items ((k, v) # d) = (k, json_sort v) # json_sort_items d"
| "json_sort_list [] = []"
| "json_sort_list (x # xs) = json_sort x # json_sort_list xs"

definition json_eq :: "pyval \<Rightarrow> pyval \<Rightarrow> bool" where
  "json_eq v w \<longleftrightarrow> json_sort v = json_sort w"

lemma json_sort_items_map: "json_sort_items d = map (apsnd json_sort) d"
  by (induction d) auto

lemma json_sort_list_map: "json_sort_list xs = map json_sort xs"
  by (induction xs) auto

lemma is_json_items_conv: "is_json_items d = (\<forall>p\<in>set d. is_json (snd p))"
  by (induction d) auto

lemma is_json_list_conv: "is_json_list xs = (\<forall>x\<in>set xs. is_json x)"
  by (induction xs) auto

lemma normal_items_map: "normal_items d = map (apsnd normal) (filter (\<lambda>p. snd p \<noteq> PNone) d)"
  by (induction d) auto

lemma normal_list_map: "normal_list xs = map normal xs"
  by (induction xs) auto

lemma map_insort_fst: "map (apsnd f) (insort_key fst p d) = insort_key fst (apsnd f p) (map (apsnd f) d)"
  by (induction d) auto

lemma map_sort_fst: "map (apsnd f) (sort_key fst d) = sort_key fst (map (apsnd f) d)"
  by (induction d) (simp_all add: map_insort_fst)

lemma json_sort_PNone_iff [simp]: "json_sort v = PNone \<longleftrightarrow> v = PNone"
  by (cases v) auto

lemmas json_maps = json_sort_items_map json_sort_list_map normal_items_map normal_list_map

lemma normal_json_sort: "normal (json_sort v) = json_sort (normal v)"
proof (induction v)
  case (PFloat f)
  then show ?case by (cases f) auto
next
  case (PList xs)
  then show ?case by (simp add: json_maps)
next
  case (PDict d)
  then have "sort_key fst (map (\<lambda>x. apsnd normal (apsnd json_sort x)) (filter (\<lambda>p. snd p \<noteq> PNone) d)) =
      sort_key fst (map (\<lambda>x. apsnd json_sort (apsnd normal x)) (filter (\<lambda>p. snd p \<noteq> PNone) d))"
    by (intro arg_cong [where f = "sort_key fst"] map_cong) (auto simp: snds.simps)
  then show ?case
    by (simp add: json_maps filter_sort map_sort_fst filter_map o_def)
qed simp_all

lemma json_sort_idem [simp]: "json_sort (json_sort v) = json_sort v"
proof (induction v)
  case (PList xs)
  then show ?case by (simp add: json_maps)
next
  case (PDict d)
  then have "sort_key fst (map (\<lambda>x. apsnd json_sort (apsnd json_sort x)) d) =
      sort_key fst (map (apsnd json_sort) d)"
    by (intro arg_cong [where f = "sort_key fst"] map_cong) (auto simp: snds.simps)
  then show ?case
    by (simp add: json_maps map_sort_fst sort_key_id_if_sorted sorted_sort_key o_def)
qed simp_all

lemma levels_items_le: "levels_items d \<le> n \<longleftrightarrow> (\<forall>p\<in>set d. snd p \<noteq> PNone \<longrightarrow> levels (snd p) < n)"
  by (induction d) (auto split: if_splits)

lemma levels_list_le: "levels_list xs \<le> n \<longleftrightarrow> (\<forall>x\<in>set xs. levels x < n)"
  by (induction xs) auto

lemma nat_eq_by_bounds: "(\<And>n. a \<le> n \<longleftrightarrow> b \<le> n) \<Longrightarrow> a = (b :: nat)"
  by (metis order_antisym order_refl)

lemma levels_json_sort [simp]: "levels (json_sort v) = levels v"
proof (induction v)
  case (PList xs)
  then have "levels_list (map json_sort xs) = levels_list xs"
    by (intro nat_eq_by_bounds) (simp add: levels_list_le)
  then show ?case by (simp add: json_sort_list_map)
next
  case (PDict d)
  then have "levels_items (sort_key fst (map (apsnd json_sort) d)) = levels_items d"
    by (intro nat_eq_by_bounds) (auto simp: levels_items_le snds.simps)
  then show ?case by (simp add: json_sort_items_map)
qed simp_all

lemma canonical_items_conv: "canonical_items d = (\<forall>p\<in>set d. snd p \<noteq> PNone \<and> canonical (snd p))"
  by (induction d) auto

lemma canonical_list_conv: "canonical_list xs = (\<forall>x\<in>set xs. canonical x)"
  by (induction xs) auto

lemma canonical_json_sort [simp]: "canonical (json_sort v) = canonical v"
proof (induction v)
  case (PList xs)
  then show ?case by (simp add: json_maps canonical_list_conv)
next
  case (PDict d)
  then show ?case by (fastforce simp: json_maps canonical_items_conv snds.simps)
qed simp_all

lemma is_json_json_sort [simp]: "is_json (json_sort v) = is_json v"
proof (induction v)
  case (PList xs)
  then show ?case by (simp add: json_maps is_json_list_conv)
next
  case (PDict d)
  have "distinct (map fst (sort_key fst (map (apsnd json_sort) d))) \<longleftrightarrow> distinct (map fst d)"
    by (simp add: distinct_map inj_on_def) (auto; force)
  with PDict show ?case by (auto simp: json_maps is_json_items_conv snds.simps)
qed simp_all

lemma is_json_normal: "is_json v \<Longrightarrow> is_json (normal v)"
proof (induction v)
  case (PFloat f)
  then show ?case by (cases f) auto
next
  case (PList xs)
  then show ?case by (simp add: json_maps is_json_list_conv)
next
  case (PDict d)
  then show ?case
    by (auto simp: json_maps is_json_items_conv snds.simps o_def distinct_map_filter)
qed simp_all

lemma json_eq_normal: "json_eq v w \<Longrightarrow> json_eq (normal v) (normal w)"
  by (metis json_eq_def normal_json_sort)

lemma json_eq_levels: "json_eq v w \<Longrightarrow> levels v = levels w"
  by (metis json_eq_def levels_json_sort)

lemma json_eq_canonical: "json_eq v w \<Longrightarrow> canonical v \<Longrightarrow> canonical w"
  by (metis canonical_json_sort json_eq_def)

lemma json_eq_is_json: "json_eq v w \<Longrightarrow> is_json v \<Longrightarrow> is_json w"
  by (metis is_json_json_sort json_eq_def)

lemma json_eq_refl [simp]: "json_eq v v"
  by (simp add: json_eq_def)

lemma json_eq_sym: "json_eq v w \<Longrightarrow> json_eq w v"
  by (simp add: json_eq_def)

lemma json_eq_trans: "json_eq u v \<Longrightarrow> json_eq v w \<Longrightarrow> json_eq u w"
  by (simp add: json_eq_def)

lemma json_eq_is_dict: "json_eq v w \<Longrightarrow> is_dict v = is_dict w"
  by (cases v; cases w) (auto simp: json_eq_def)

lemma json_eq_PNone: "json_eq v w \<Longrightarrow> v = PNone \<longleftrightarrow> w = PNone"
  by (metis json_eq_def json_sort_PNone_iff)


subsection \<open>What the code relies on in orjson\<close>

text \<open>
  For JSON values: what was written reads back as the same JSON; with \<open>OPT_SORT_KEYS\<close> the
  text does not depend on the order of the keys; whether a value can be written does not
  depend on the callback or the options; reading yields JSON values.
\<close>

definition codec_ok :: "'b codec \<Rightarrow> bool" where
  "codec_ok C \<longleftrightarrow>
     (\<forall>h os v b. is_json v \<longrightarrow> oj_dumps C h os v = Inr b \<longrightarrow>
        (\<exists>w. oj_loads C b = Inr w \<and> json_eq v w)) \<and>
     (\<forall>h os v w. is_json v \<longrightarrow> json_eq v w \<longrightarrow> OPT_SORT_KEYS \<in> set os \<longrightarrow>
        oj_dumps C h os v = oj_dumps C h os w) \<and>
     (\<forall>h os h' os' v b. is_json v \<longrightarrow> oj_dumps C h os v = Inr b \<longrightarrow>
        (\<exists>b'. oj_dumps C h' os' v = Inr b')) \<and>
     (\<forall>b v. oj_loads C b = Inr v \<longrightarrow> is_json v)"

lemma codec_ok_loads_dumps:
  "codec_ok C \<Longrightarrow> is_json v \<Longrightarrow> oj_dumps C h os v = Inr b \<Longrightarrow> \<exists>w. oj_loads C b = Inr w \<and> json_eq v w"
  unfolding codec_ok_def by blast

lemma codec_ok_sorted:
  "codec_ok C \<Longrightarrow> is_json v \<Longrightarrow> json_eq v w \<Longrightarrow> OPT_SORT_KEYS \<in> set os \<Longrightarrow>
    oj_dumps C h os v = oj_dumps C h os w"
  unfolding codec_ok_def by blast

lemma codec_ok_options:
  "codec_ok C \<Longrightarrow> is_json v \<Longrightarrow> oj_dumps C h os v = Inr b \<Longrightarrow> \<exists>b'. oj_dumps C h' os' v = Inr b'"
  unfolding codec_ok_def by blast

lemma codec_ok_loads: "codec_ok C \<Longrightarrow> oj_loads C b = Inr v \<Longrightarrow> is_json v"
  unfolding codec_ok_def by blast

text \<open>Every integer in the value fits 64 bits (signed or unsigned), orjson's documented limit.\<close>

fun ints_in_range :: "pyval \<Rightarrow> bool"
  and ints_in_range_items :: "(string \<times> pyval) list \<Rightarrow> bool"
  and ints_in_range_list :: "pyval list \<Rightarrow> bool" where
  "ints_in_range (PInt i) = (- (2 ^ 63) \<le> i \<and> i < 2 ^ 64)"
| "ints_in_range (PDict d) = ints_in_range_items d"
| "ints_in_range (PList xs) = ints_in_range_list xs"
| "ints_in_range _ = True"
| "ints_in_range_items [] = True"
| "ints_in_range_items ((k, v) # d) = (ints_in_range v \<and> ints_in_range_items d)"
| "ints_in_range_list [] = True"
| "ints_in_range_list (x # xs) = (ints_in_range x \<and> ints_in_range_list xs)"

definition codec_int_limit :: "'b codec \<Rightarrow> bool" where
  "codec_int_limit C \<longleftrightarrow> (\<forall>h os v b. is_json v \<longrightarrow> oj_dumps C h os v = Inr b \<longrightarrow> ints_in_range v)"

lemma ints_items_conv: "ints_in_range_items d = (\<forall>p\<in>set d. ints_in_range (snd p))"
  by (induction d) auto

lemma ints_list_conv: "ints_in_range_list xs = (\<forall>x\<in>set xs. ints_in_range x)"
  by (induction xs) auto

lemma ints_in_range_json_sort [simp]: "ints_in_range (json_sort v) = ints_in_range v"
proof (induction v)
  case (PList xs)
  then show ?case by (simp add: json_maps ints_list_conv)
next
  case (PDict d)
  then show ?case by (fastforce simp: json_maps ints_items_conv snds.simps)
qed simp_all

text \<open>A codec with these properties: the text is the value itself with its keys sorted.\<close>

definition plain_codec :: "pyval codec" where
  "plain_codec = \<lparr>
     oj_dumps = (\<lambda>h os v. if is_json v \<and> ints_in_range v then Inr (json_sort v)
       else Inl (PyExn TypeError ''Type is not JSON serializable'')),
     oj_loads = (\<lambda>b. if is_json b then Inr b else Inl (PyExn ValueError ''invalid JSON'')),
     to_builtins = (\<lambda>v. case v of PStruct c fs \<Rightarrow> Inr (PDict fs) | _ \<Rightarrow> Inr v),
     py_str = (\<lambda>v. ''object'')\<rparr>"

lemma plain_codec_ok: "codec_ok plain_codec"
  unfolding codec_ok_def
proof (intro conjI allI impI)
  fix h os v w b h' os'
  show "is_json v \<Longrightarrow> oj_dumps plain_codec h os v = Inr b \<Longrightarrow> \<exists>w. oj_loads plain_codec b = Inr w \<and> json_eq v w"
    by (auto simp: plain_codec_def json_eq_def split: if_splits)
  show "is_json v \<Longrightarrow> json_eq v w \<Longrightarrow> OPT_SORT_KEYS \<in> set os \<Longrightarrow>
      oj_dumps plain_codec h os v = oj_dumps plain_codec h os w"
    using is_json_json_sort [of v] is_json_json_sort [of w]
      ints_in_range_json_sort [of v] ints_in_range_json_sort [of w]
    by (simp add: plain_codec_def json_eq_def)
  show "is_json v \<Longrightarrow> oj_dumps plain_codec h os v = Inr b \<Longrightarrow> \<exists>b'. oj_dumps plain_codec h' os' v = Inr b'"
    by (auto simp: plain_codec_def split: if_splits)
  show "oj_loads plain_codec b = Inr v \<Longrightarrow> is_json v"
    by (auto simp: plain_codec_def split: if_splits)
qed

lemma plain_codec_int_limit: "codec_int_limit plain_codec"
  by (auto simp: codec_int_limit_def plain_codec_def split: if_splits)

subsection \<open>Lemmas on \<open>to_dict\<close>\<close>

lemma finalize_Inr:
  "finalize_structure depth v = Inr d \<longleftrightarrow> depth + levels v \<le> MAX_RECURSION_DEPTH \<and> d = normal v"
  by (auto simp: finalize_equiv)

lemma to_dict_Inr:
  assumes "codec_ok C" and "to_dict C obj depth = Inr d"
  shows "is_json d \<and> canonical d \<and> depth + levels d \<le> MAX_RECURSION_DEPTH"
proof (cases "obj = PNone")
  case True
  with assms(2) show ?thesis by (auto simp: to_dict_def split: if_splits)
next
  case False
  with assms(2) obtain b v where "oj_loads C b = Inr v" "finalize_structure depth v = Inr d"
    by (auto simp: to_dict_def split: if_splits sum.splits)
  with assms(1) show ?thesis
    by (auto simp: finalize_Inr canonical_normal intro: is_json_normal codec_ok_loads)
qed

lemma to_dict_json:
  assumes ok: "codec_ok C" and j: "is_json v" and l: "levels v \<le> MAX_RECURSION_DEPTH"
    and w: "oj_dumps C h os v = Inr b"
  shows "\<exists>d. to_dict C v 0 = Inr d \<and> json_eq d (normal v)"
proof (cases "v = PNone")
  case True
  then show ?thesis by (simp add: to_dict_def)
next
  case False
  from codec_ok_options [OF ok j w] obtain b' where
    b': "oj_dumps C (Some (default_handler C)) [OPT_SORT_KEYS, OPT_NON_STR_KEYS] v = Inr b'" by blast
  from codec_ok_loads_dumps [OF ok j b'] obtain u where u: "oj_loads C b' = Inr u" "json_eq v u" by blast
  then have "to_dict C v 0 = Inr (normal u)"
    using False b' l json_eq_levels [OF u(2)] by (simp add: to_dict_def finalize_equiv)
  with u(2) show ?thesis using json_eq_normal json_eq_sym by blast
qed

text \<open>What the receiver of \<open>json_dumps(obj)\<close> reads converts to the same JSON value again.\<close>

lemma to_dict_wire:
  assumes ok: "codec_ok C" and d: "to_dict C obj 0 = Inr d"
    and s: "oj_dumps C None os d = Inr b" and r: "oj_loads C b = Inr p"
  shows "\<exists>d'. to_dict C p 0 = Inr d' \<and> json_eq d' d"
proof -
  from to_dict_Inr [OF ok d] have j: "is_json d" "canonical d" "levels d \<le> MAX_RECURSION_DEPTH" by auto
  from codec_ok_loads_dumps [OF ok j(1) s] r have e: "json_eq d p" by auto
  then have p: "is_json p" "levels p \<le> MAX_RECURSION_DEPTH" "normal p = p"
    using j json_eq_is_json json_eq_levels json_eq_canonical normal_canonical(1) by fastforce+
  have "oj_dumps C None [OPT_SORT_KEYS] d = oj_dumps C None [OPT_SORT_KEYS] p"
    using codec_ok_sorted [OF ok j(1) e] by simp
  moreover obtain b' where "oj_dumps C None [OPT_SORT_KEYS] d = Inr b'"
    using codec_ok_options [OF ok j(1) s] by blast
  ultimately have "oj_dumps C None [OPT_SORT_KEYS] p = Inr b'" by simp
  from to_dict_json [OF ok p(1,2) this] p(3) e show ?thesis
    using json_eq_sym json_eq_trans by metis
qed


subsection \<open>Properties\<close>

text \<open>
  C17: The recursive clean-up equals its specification: it raises RecursionError exactly when the
  depth plus the number of levels of the value exceeds 30, and otherwise returns the normal form
  (no None in dictionaries, whole floats as integers).
\<close>
theorem finalize_structure_spec:
  "finalize_structure depth v =
     (if depth + levels v > MAX_RECURSION_DEPTH then Inl recursion_error else Inr (normal v))"
  by (rule finalize_equiv)

text \<open>
  Whatever object is converted, a result of to_dict is a JSON value in normal form (a fixed point
  of the normalisation) within the depth limit.
\<close>
theorem to_dict_normal_form:
  assumes "codec_ok C" and "to_dict C obj depth = Inr d"
  shows "is_json d \<and> canonical d \<and> normal d = d \<and> depth + levels d \<le> MAX_RECURSION_DEPTH"
  using to_dict_Inr [OF assms] normal_canonical(1) by blast

theorem to_dict_normal_form_witness:
  "normal (PDict [(''val'', PInt 10)]) = PDict [(''val'', PInt 10)] \<and>
   to_dict plain_codec (PDict [(''val'', PFloat (Fin 10)), (''gone'', PNone)]) 0 = Inr (PDict [(''val'', PInt 10)])"
proof -
  have h: "to_dict plain_codec (PDict [(''val'', PFloat (Fin 10)), (''gone'', PNone)]) 0
      = Inr (PDict [(''val'', PInt 10)])"
    by (simp add: to_dict_def plain_codec_def MAX_RECURSION_DEPTH_def is_integer_def)
  show ?thesis using to_dict_normal_form [OF plain_codec_ok h] h by blast
qed

text \<open>
  C24: The hash of an object equals the hash of what the receiver parses from its JSON text, so
  both sides compute the same digest.
\<close>
theorem hash_stable_over_wire:
  assumes "codec_ok C" and "json_dumps C obj = Inr b" and "oj_loads C b = Inr p"
  shows "calculate_dict_hash C sha256 p = calculate_dict_hash C sha256 obj"
proof -
  from assms(2) obtain d where d: "to_dict C obj 0 = Inr d" "oj_dumps C None [] d = Inr b"
    by (auto simp: json_dumps_def)
  from to_dict_wire [OF assms(1) d assms(3)] obtain d' where
    d': "to_dict C p 0 = Inr d'" "json_eq d' d" by blast
  from to_dict_Inr [OF assms(1) d'(1)] have "is_json d'" by blast
  from codec_ok_sorted [OF assms(1) this d'(2), of "[OPT_SORT_KEYS]" None] show ?thesis
    by (simp add: calculate_dict_hash_def d(1) d'(1))
qed

theorem hash_stable_over_wire_witness:
  "calculate_dict_hash plain_codec (\<lambda>b. ''h'') (PDict [(''a'', PInt 1), (''b'', PInt 2)]) =
   calculate_dict_hash plain_codec (\<lambda>b. ''h'') (PDict [(''b'', PFloat (Fin 2)), (''x'', PNone), (''a'', PInt 1)])"
proof (rule hash_stable_over_wire [OF plain_codec_ok])
  show "json_dumps plain_codec (PDict [(''b'', PFloat (Fin 2)), (''x'', PNone), (''a'', PInt 1)])
      = Inr (PDict [(''a'', PInt 1), (''b'', PInt 2)])"
    by (simp add: json_dumps_def to_dict_def plain_codec_def MAX_RECURSION_DEPTH_def is_integer_def)
  show "oj_loads plain_codec (PDict [(''a'', PInt 1), (''b'', PInt 2)])
      = Inr (PDict [(''a'', PInt 1), (''b'', PInt 2)])"
    by (simp add: plain_codec_def)
qed

text \<open>
  Two payloads whose normal forms are the same JSON up to the order of keys have the same hash
  (None fields, key order and whole floats do not matter).
\<close>
theorem hash_equivalent_payloads:
  assumes ok: "codec_ok C" and j: "is_json v" "is_json w" and e: "json_eq (normal v) (normal w)"
    and dv: "oj_dumps C None [] v = Inr b" and dw: "oj_dumps C None [] w = Inr b'"
  shows "calculate_dict_hash C sha256 v = calculate_dict_hash C sha256 w"
proof (cases "levels v \<le> MAX_RECURSION_DEPTH")
  case True
  moreover from e have "levels v = levels w" using json_eq_levels by fastforce
  ultimately have l: "levels v \<le> MAX_RECURSION_DEPTH" "levels w \<le> MAX_RECURSION_DEPTH" by auto
  from to_dict_json [OF ok j(1) l(1) dv] obtain d where
    d: "to_dict C v 0 = Inr d" "json_eq d (normal v)" by blast
  from to_dict_json [OF ok j(2) l(2) dw] obtain d' where
    d': "to_dict C w 0 = Inr d'" "json_eq d' (normal w)" by blast
  have "json_eq d d'" using d(2) d'(2) e json_eq_sym json_eq_trans by blast
  moreover from to_dict_Inr [OF ok d(1)] have "is_json d" by blast
  ultimately have "oj_dumps C None [OPT_SORT_KEYS] d = oj_dumps C None [OPT_SORT_KEYS] d'"
    using codec_ok_sorted [OF ok, of d d'] by simp
  then show ?thesis by (simp add: calculate_dict_hash_def d(1) d'(1))
next
  case False
  moreover from e have "levels v = levels w" using json_eq_levels by fastforce
  ultimately have l: "\<not> levels v \<le> MAX_RECURSION_DEPTH" "\<not> levels w \<le> MAX_RECURSION_DEPTH" by auto
  have fails: "to_dict C x 0 = Inl recursion_error"
    if "is_json x" "\<not> levels x \<le> MAX_RECURSION_DEPTH" "oj_dumps C None [] x = Inr y" for x y
  proof -
    from codec_ok_options [OF ok that(1,3)] obtain c where
      c: "oj_dumps C (Some (default_handler C)) [OPT_SORT_KEYS, OPT_NON_STR_KEYS] x = Inr c" by blast
    from codec_ok_loads_dumps [OF ok that(1) c] obtain u where
      "oj_loads C c = Inr u" "levels u = levels x" using json_eq_levels by force
    with c that(2) show ?thesis by (cases "x = PNone") (auto simp: to_dict_def finalize_equiv)
  qed
  show ?thesis
    by (simp add: calculate_dict_hash_def fails [OF j(1) l(1) dv] fails [OF j(2) l(2) dw])
qed

theorem hash_equivalent_payloads_witness:
  "calculate_dict_hash plain_codec (\<lambda>b. ''h'') (PDict [(''a'', PInt 1), (''b'', PFloat (Fin (3 / 2)))]) =
   calculate_dict_hash plain_codec (\<lambda>b. ''h'')
     (PDict [(''b'', PFloat (Fin (3 / 2))), (''x'', PNone), (''a'', PFloat (Fin 1))])"
  by (rule hash_equivalent_payloads [OF plain_codec_ok])
    (simp_all add: plain_codec_def json_eq_def is_integer_def)

text \<open>
  A whole float of at least 2^64, which orjson can write, becomes an integer that orjson cannot
  write: the object can be converted but neither dumped nor hashed.
\<close>
theorem large_float_cannot_be_hashed:
  assumes ok: "codec_ok C" and lim: "codec_int_limit C"
    and q: "is_integer q" "2 ^ 64 \<le> q"
    and w: "oj_dumps C (Some (default_handler C)) [OPT_SORT_KEYS, OPT_NON_STR_KEYS]
        (PDict [(k, PFloat (Fin q))]) = Inr b"
  shows "to_dict C (PDict [(k, PFloat (Fin q))]) 0 = Inr (PDict [(k, PInt \<lfloor>q\<rfloor>)]) \<and>
    (\<exists>e. json_dumps C (PDict [(k, PFloat (Fin q))]) = Inl e) \<and>
    (\<exists>e. calculate_dict_hash C sha256 (PDict [(k, PFloat (Fin q))]) = Inl e)"
proof -
  let ?v = "PDict [(k, PFloat (Fin q))]" and ?d = "PDict [(k, PInt \<lfloor>q\<rfloor>)]"
  obtain u where u: "oj_loads C b = Inr u" "json_eq ?v u"
    using codec_ok_loads_dumps [OF ok _ w] by auto
  have "u = ?v"
  proof (cases u)
    case (PDict d)
    with u(2) have s: "sort_key fst (json_sort_items d) = [(k, PFloat (Fin q))]"
      by (simp add: json_eq_def)
    then have "length d = 1"
      by (metis One_nat_def json_sort_items_map length_map length_sort list.size(3,4) plus_1_eq_Suc
          add.commute)
    then obtain k' w where d1: "d = [(k', w)]" by (cases d) (auto simp: length_Suc_conv)
    with s have "k' = k" "json_sort w = PFloat (Fin q)" by auto
    then have "w = PFloat (Fin q)" by (cases w) auto
    with d1 PDict \<open>k' = k\<close> show ?thesis by simp
  qed (use u(2) in \<open>auto simp: json_eq_def\<close>)
  with u(1) w q(1) have t: "to_dict C ?v 0 = Inr ?d"
    by (simp add: to_dict_def MAX_RECURSION_DEPTH_def)
  have "\<not> ints_in_range ?d"
    using q by (simp add: is_integer_def)
  moreover have "is_json ?d" by simp
  ultimately have "\<exists>e. oj_dumps C h os ?d = Inl e" for h os
    using lim unfolding codec_int_limit_def by (cases "oj_dumps C h os ?d") blast+
  with t show ?thesis by (auto simp: json_dumps_def calculate_dict_hash_def rbind_Inl_iff)
qed

theorem large_float_cannot_be_hashed_witness:
  "to_dict plain_codec (PDict [(''v'', PFloat (Fin (10 ^ 20)))]) 0 = Inr (PDict [(''v'', PInt (10 ^ 20))]) \<and>
   (\<exists>e. json_dumps plain_codec (PDict [(''v'', PFloat (Fin (10 ^ 20)))]) = Inl e)"
  using large_float_cannot_be_hashed [OF plain_codec_ok plain_codec_int_limit, of "10 ^ 20" "''v''"
      "PDict [(''v'', PFloat (Fin (10 ^ 20)))]" "\<lambda>b. ''h''"]
  by (simp add: plain_codec_def is_integer_def)

text \<open>
  from_dict for a model class on every branch: None and non-dictionaries pass unchanged, a
  dictionary is converted, and a conversion error of the caught classes becomes a ValueError that
  names the class.
\<close>
theorem from_dict_struct:
  assumes "cls_is_struct cls" and "cls_isinstance cls data = Inr False"
    and "\<And>e. cls_convert cls data = Inl e \<Longrightarrow>
      is_py MsgspecError e \<or> is_py TypeError e \<or> is_py KeyError e \<or> is_py ValueError e"
  shows "from_dict ps cls data =
    (if data = PNone \<or> \<not> is_dict data then Inr data
     else case cls_convert cls data of
         Inr v \<Rightarrow> Inr v
       | Inl e \<Rightarrow> Inl (PyExn ValueError (''Failed to instantiate '' @ cls_name cls @ '': '' @ exn_str ps e)))"
  using assms by (auto simp: from_dict_def split: sum.splits)

theorem from_dict_struct_witness:
  "from_dict (\<lambda>v. ''object'')
     \<lparr>cls_name = ''Point'', cls_is_struct = True, cls_isinstance = (\<lambda>v. Inr False),
      cls_convert = (\<lambda>v. Inl (PyExn MsgspecError ''missing field x''))\<rparr> (PDict [])
   = Inl (PyExn ValueError ''Failed to instantiate Point: missing field x'')"
  by (subst from_dict_struct) auto

end
