(* ===== verification/Rxon_Security.thy ===== *)
theory Rxon_Security
  imports Rxon_Serial "HOL-Library.Word"
begin

text \<open>
  \<^verbatim>\<open>src/rxon/security.py\<close>: signing and verifying payloads and bubbling chains
  with HMAC-SHA256 and Ed25519, the two TLS context factories and the certificate identity.
  The hash function and the Ed25519 keys of the \<open>cryptography\<close> package are arguments (the
  record \<open>crypto\<close>); hexadecimal text and \<open>hmac.compare_digest\<close> are modelled.
\<close>

subsection \<open>Hexadecimal text\<close>

type_synonym byte = "8 word"

definition hex_digit :: "nat \<Rightarrow> char" where
  "hex_digit n = (if n < 10 then char_of (48 + n) else char_of (87 + n))"

definition hex_val :: "char \<Rightarrow> nat option" where
  "hex_val c = (let n = (of_char c :: nat) in
     if 48 \<le> n \<and> n \<le> 57 then Some (n - 48)
     else if 97 \<le> n \<and> n \<le> 102 then Some (n - 87)
     else if 65 \<le> n \<and> n \<le> 70 then Some (n - 55)
     else None)"

fun to_hex :: "byte list \<Rightarrow> string" where
  "to_hex [] = []"
| "to_hex (b # bs) = hex_digit (unat b div 16) # hex_digit (unat b mod 16) # to_hex bs"

text \<open>\<open>bytes.fromhex\<close>: pairs of digits, with ASCII white space allowed between bytes.\<close>

definition is_space :: "char \<Rightarrow> bool" where
  "is_space c = (let n = (of_char c :: nat) in n = 32 \<or> (9 \<le> n \<and> n \<le> 13))"

fun from_hex :: "string \<Rightarrow> byte list option" where
  "from_hex [] = Some []"
| "from_hex [c] = (if is_space c then Some [] else None)"
| "from_hex (c # d # cs) =
     (if is_space c then from_hex (d # cs)
      else case (hex_val c, hex_val d) of
          (Some h, Some l) \<Rightarrow> map_option ((#) (of_nat (16 * h + l))) (from_hex cs)
        | _ \<Rightarrow> None)"

lemma hex_val_digit: "n < 16 \<Longrightarrow> hex_val (hex_digit n) = Some n"
  by (auto simp: hex_val_def hex_digit_def Let_def)

lemma hex_digit_no_space: "n < 16 \<Longrightarrow> \<not> is_space (hex_digit n)"
  by (auto simp: is_space_def hex_digit_def Let_def)

lemma hex_digit_ascii: "n < 16 \<Longrightarrow> (of_char (hex_digit n) :: nat) < 128"
  by (auto simp: hex_digit_def)

lemma unat_byte_nibbles: "unat (b :: byte) div 16 < 16" "unat (b :: byte) mod 16 < 16"
proof -
  have "unat b < 2 ^ LENGTH(8)" by (rule unsigned_less)
  then have "unat b < 256" by simp
  then show "unat b div 16 < 16" by (simp add: div_less_iff_less_mult)
qed simp

lemma from_hex_to_hex [simp]: "from_hex (to_hex bs) = Some bs"
proof (induction bs)
  case (Cons b bs)
  have "16 * (unat b div 16) + unat b mod 16 = unat b" by simp
  with Cons show ?case
    by (simp add: hex_digit_no_space hex_val_digit unat_byte_nibbles del: of_nat_add of_nat_mult)
qed simp

lemma length_to_hex [simp]: "length (to_hex bs) = 2 * length bs"
  by (induction bs) auto

lemma to_hex_ascii: "is_ascii (to_hex bs)"
  by (induction bs) (auto simp: is_ascii_def hex_digit_ascii unat_byte_nibbles)

lemma to_hex_inj: "to_hex a = to_hex b \<Longrightarrow> a = b"
  by (metis from_hex_to_hex option.inject)

lemma to_hex_Nil_iff [simp]: "to_hex bs = [] \<longleftrightarrow> bs = []"
  by (cases bs) auto

subsection \<open>The libraries\<close>

datatype 'k loaded = Ed25519Key 'k | OtherKey

record ('b, 'sk, 'pk) crypto =
  hmac_sha256 :: "string \<Rightarrow> 'b \<Rightarrow> byte list"
  load_pem_private_key :: "string \<Rightarrow> exn + 'sk loaded"
  load_pem_public_key :: "string \<Rightarrow> exn + 'pk loaded"
  ed25519_sign :: "'sk \<Rightarrow> 'b \<Rightarrow> byte list"
  ed25519_verify :: "'pk \<Rightarrow> byte list \<Rightarrow> 'b \<Rightarrow> exn + unit"

text \<open>\<open>hmac.compare_digest\<close> of two strings: only ASCII strings are accepted.\<close>

definition compare_digest :: "string \<Rightarrow> string \<Rightarrow> exn + bool" where
  "compare_digest a b =
     (if is_ascii a \<and> is_ascii b then Inr (a = b)
      else Inl (PyExn TypeError ''comparing strings with non-ASCII characters is not supported''))"

subsection \<open>The signed bytes\<close>

text \<open>The normal form of the payload, less the signature fields and the ignored ones.\<close>

fun signed_part :: "string list option \<Rightarrow> pyval \<Rightarrow> pyval" where
  "signed_part ignore_fields (PDict d) =
     PDict (foldl (\<lambda>d field. dpop field d) (dpop ''_signature'' (dpop ''security'' d))
       (case ignore_fields of None \<Rightarrow> [] | Some fs \<Rightarrow> fs))"
| "signed_part ignore_fields v = v"

definition signed_message :: "'b codec \<Rightarrow> string list option \<Rightarrow> pyval \<Rightarrow> exn + 'b" where
  "signed_message C ignore_fields payload =
     rbind (to_dict C payload 0)
       (\<lambda>data. oj_dumps C None [OPT_SORT_KEYS] (signed_part ignore_fields data))"

subsection \<open>HMAC\<close>

definition sign_payload ::
  "('b, 'sk, 'pk) crypto \<Rightarrow> 'b codec \<Rightarrow> pyval \<Rightarrow> string \<Rightarrow> string list option \<Rightarrow> exn + string" where
  "sign_payload K C payload secret ignore_fields =
     (if secret = [] then Inl (PyExn ValueError ''Secret key for signing cannot be empty.'')
      else rbind (signed_message C ignore_fields payload)
        (\<lambda>message. Inr (to_hex (hmac_sha256 K secret message))))"

definition verify_signature ::
  "('b, 'sk, 'pk) crypto \<Rightarrow> 'b codec \<Rightarrow> pyval \<Rightarrow> string \<Rightarrow> string \<Rightarrow> string list option \<Rightarrow> exn + bool" where
  "verify_signature K C payload signature secret ignore_fields =
     (if signature = [] \<or> secret = [] then Inr False
      else rbind (sign_payload K C payload secret ignore_fields)
        (\<lambda>expected_signature. compare_digest expected_signature signature))"

subsection \<open>Ed25519\<close>

definition load_signing_key :: "('b, 'sk, 'pk) crypto \<Rightarrow> string \<Rightarrow> exn + 'sk loaded" where
  "load_signing_key K private_key_pem =
     (case load_pem_private_key K private_key_pem of
        Inl (PyExn c m) \<Rightarrow>
          if c = TypeError then Inl (PyExn TypeError
            (''Failed to load Ed25519 private key (password-protected keys are not supported): '' @ m))
          else if c = Cancelled then Inl (PyExn c m)
          else Inl (PyExn ValueError (''Invalid private key: '' @ m))
      | Inl e \<Rightarrow> Inl (PyExn ValueError (''Invalid private key: '' @ exn_str (\<lambda>_. []) e))
      | Inr k \<Rightarrow> Inr k)"

definition sign_payload_ed25519 ::
  "('b, 'sk, 'pk) crypto \<Rightarrow> 'b codec \<Rightarrow> pyval \<Rightarrow> string \<Rightarrow> string list option \<Rightarrow> exn + string" where
  "sign_payload_ed25519 K C payload private_key_pem ignore_fields =
     (if private_key_pem = [] then Inl (PyExn ValueError ''Private key for signing cannot be empty.'')
      else rbind (signed_message C ignore_fields payload) (\<lambda>message.
        rbind (load_signing_key K private_key_pem) (\<lambda>private_key.
          case private_key of
            OtherKey \<Rightarrow> Inl (PyExn TypeError ''Key is not an Ed25519 private key.'')
          | Ed25519Key k \<Rightarrow> Inr (to_hex (ed25519_sign K k message)))))"

text \<open>The body of the verifiers' \<open>try\<close> block, whose every exception means False.\<close>

definition check_ed25519 :: "('b, 'sk, 'pk) crypto \<Rightarrow> string \<Rightarrow> string \<Rightarrow> 'b \<Rightarrow> exn + bool" where
  "check_ed25519 K public_key_pem signature_hex message =
     (case load_pem_public_key K public_key_pem of
        Inl e \<Rightarrow> if is_exception e then Inr False else Inl e
      | Inr OtherKey \<Rightarrow> Inr False
      | Inr (Ed25519Key k) \<Rightarrow>
          (case from_hex signature_hex of
             None \<Rightarrow> Inr False
           | Some sig \<Rightarrow>
               (case ed25519_verify K k sig message of
                  Inl e \<Rightarrow> if is_exception e then Inr False else Inl e
                | Inr _ \<Rightarrow> Inr True)))"

definition verify_signature_ed25519 ::
  "('b, 'sk, 'pk) crypto \<Rightarrow> 'b codec \<Rightarrow> pyval \<Rightarrow> string \<Rightarrow> string \<Rightarrow> string list option \<Rightarrow> exn + bool" where
  "verify_signature_ed25519 K C payload signature_hex public_key_pem ignore_fields =
     (if signature_hex = [] \<or> public_key_pem = [] then Inr False
      else rbind (signed_message C ignore_fields payload) (check_ed25519 K public_key_pem signature_hex))"

subsection \<open>Bubbling chains\<close>

definition chain_message :: "'b codec \<Rightarrow> string list \<Rightarrow> exn + 'b" where
  "chain_message C bubbling_chain = oj_dumps C None [OPT_SORT_KEYS] (PList (map PStr bubbling_chain))"

definition sign_bubbling_chain ::
  "('b, 'sk, 'pk) crypto \<Rightarrow> 'b codec \<Rightarrow> string list \<Rightarrow> string \<Rightarrow> exn + string" where
  "sign_bubbling_chain K C bubbling_chain private_key_pem =
     (if private_key_pem = [] then Inl (PyExn ValueError ''Private key cannot be empty.'')
      else rbind (chain_message C bubbling_chain) (\<lambda>message.
        rbind (load_pem_private_key K private_key_pem) (\<lambda>private_key.
          case private_key of
            OtherKey \<Rightarrow> Inl (PyExn TypeError ''Key is not an Ed25519 private key.'')
          | Ed25519Key k \<Rightarrow> Inr (to_hex (ed25519_sign K k message)))))"

definition verify_bubbling_chain_signature ::
  "('b, 'sk, 'pk) crypto \<Rightarrow> 'b codec \<Rightarrow> string list \<Rightarrow> string \<Rightarrow> string \<Rightarrow> exn + bool" where
  "verify_bubbling_chain_signature K C bubbling_chain signature_hex public_key_pem =
     (if signature_hex = [] \<or> public_key_pem = [] then Inr False
      else rbind (chain_message C bubbling_chain) (check_ed25519 K public_key_pem signature_hex))"

definition sign_bubbling_chain_hmac ::
  "('b, 'sk, 'pk) crypto \<Rightarrow> 'b codec \<Rightarrow> string list \<Rightarrow> string \<Rightarrow> exn + string" where
  "sign_bubbling_chain_hmac K C bubbling_chain secret =
     (if secret = [] then Inl (PyExn ValueError ''Secret cannot be empty.'')
      else rbind (chain_message C bubbling_chain)
        (\<lambda>message. Inr (to_hex (hmac_sha256 K secret message))))"

definition verify_bubbling_chain_hmac ::
  "('b, 'sk, 'pk) crypto \<Rightarrow> 'b codec \<Rightarrow> string list \<Rightarrow> string \<Rightarrow> string \<Rightarrow> exn + bool" where
  "verify_bubbling_chain_hmac K C bubbling_chain signature secret =
     (if signature = [] \<or> secret = [] then Inr False
      else rbind (sign_bubbling_chain_hmac K C bubbling_chain secret)
        (\<lambda>expected. compare_digest expected signature))"


subsection \<open>TLS contexts and certificate identity\<close>

datatype purpose = SERVER_AUTH | CLIENT_AUTH

datatype verify_mode = CERT_NONE | CERT_OPTIONAL | CERT_REQUIRED

record ssl_context =
  ctx_cert_chain :: "(string \<times> string) option"
  ctx_cafiles :: "string list"
  ctx_verify_mode :: verify_mode
  ctx_check_hostname :: bool

text \<open>
  \<open>ssl.create_default_context\<close>: a client-side context verifies the server and its host name,
  a server-side one does not ask for a certificate.  Loading files may raise.
\<close>

fun create_default_context :: "purpose \<Rightarrow> ssl_context" where
  "create_default_context SERVER_AUTH =
     \<lparr>ctx_cert_chain = None, ctx_cafiles = [], ctx_verify_mode = CERT_REQUIRED, ctx_check_hostname = True\<rparr>"
| "create_default_context CLIENT_AUTH =
     \<lparr>ctx_cert_chain = None, ctx_cafiles = [], ctx_verify_mode = CERT_NONE, ctx_check_hostname = False\<rparr>"

record tls_files =
  cert_chain_loads :: "string \<Rightarrow> string \<Rightarrow> exn + unit"
  cafile_loads :: "string \<Rightarrow> exn + unit"

definition load_cert_chain :: "tls_files \<Rightarrow> string \<Rightarrow> string \<Rightarrow> ssl_context \<Rightarrow> exn + ssl_context" where
  "load_cert_chain F cert key ctx =
     rbind (cert_chain_loads F cert key) (\<lambda>_. Inr (ctx\<lparr>ctx_cert_chain := Some (cert, key)\<rparr>))"

definition load_verify_locations :: "tls_files \<Rightarrow> string \<Rightarrow> ssl_context \<Rightarrow> exn + ssl_context" where
  "load_verify_locations F ca ctx =
     rbind (cafile_loads F ca) (\<lambda>_. Inr (ctx\<lparr>ctx_cafiles := ctx_cafiles ctx @ [ca]\<rparr>))"

fun path_given :: "string option \<Rightarrow> bool" where
  "path_given None = False"
| "path_given (Some p) = (p \<noteq> [])"

definition create_server_ssl_context ::
  "tls_files \<Rightarrow> string \<Rightarrow> string \<Rightarrow> string option \<Rightarrow> bool \<Rightarrow> exn + ssl_context" where
  "create_server_ssl_context F cert_path key_path ca_path require_client_cert =
     rbind (load_cert_chain F cert_path key_path (create_default_context CLIENT_AUTH)) (\<lambda>context.
       rbind (if path_given ca_path then load_verify_locations F (the ca_path) context else Inr context)
         (\<lambda>context. Inr (if require_client_cert
            then context\<lparr>ctx_verify_mode := CERT_REQUIRED\<rparr>
            else context\<lparr>ctx_verify_mode := CERT_OPTIONAL\<rparr>)))"

definition create_client_ssl_context ::
  "tls_files \<Rightarrow> string option \<Rightarrow> string option \<Rightarrow> string option \<Rightarrow> exn + ssl_context" where
  "create_client_ssl_context F ca_path cert_path key_path =
     rbind (if path_given ca_path
            then load_verify_locations F (the ca_path) (create_default_context SERVER_AUTH)
            else Inr (create_default_context SERVER_AUTH)) (\<lambda>context.
       if path_given cert_path \<and> path_given key_path
       then load_cert_chain F (the cert_path) (the key_path) context
       else Inr context)"

text \<open>The TLS object of the connection with \<open>getpeercert()\<close>; an absent or empty certificate is falsy.\<close>

type_synonym peer_cert = "(string \<times> string) list list dict"

fun first_common_name :: "(string \<times> string) list \<Rightarrow> string option" where
  "first_common_name [] = None"
| "first_common_name ((k, v) # rdns) = (if k = ''commonName'' then Some v else first_common_name rdns)"

fun subject_common_name :: "(string \<times> string) list list \<Rightarrow> string option" where
  "subject_common_name [] = None"
| "subject_common_name (parts # subject) =
     (case first_common_name parts of Some cn \<Rightarrow> Some cn | None \<Rightarrow> subject_common_name subject)"

definition extract_cert_identity :: "peer_cert option option \<Rightarrow> string option" where
  "extract_cert_identity ssl_object =
     (case ssl_object of
        None \<Rightarrow> None
      | Some None \<Rightarrow> None
      | Some (Some cert) \<Rightarrow>
          if cert = [] then None
          else subject_common_name (case dget ''subject'' cert of None \<Rightarrow> [] | Some s \<Rightarrow> s))"

subsection \<open>Lemmas\<close>

lemma compare_digest_hex [simp]:
  "is_ascii s \<Longrightarrow> compare_digest (to_hex bs) s = Inr (to_hex bs = s)"
  by (simp add: compare_digest_def to_hex_ascii)

lemma sign_payload_Inr:
  "sign_payload K C p k ign = Inr s \<longleftrightarrow>
     k \<noteq> [] \<and> (\<exists>m. signed_message C ign p = Inr m \<and> s = to_hex (hmac_sha256 K k m))"
  by (auto simp: sign_payload_def)

lemma verify_signature_True:
  "verify_signature K C p s k ign = Inr True \<longleftrightarrow>
     s \<noteq> [] \<and> k \<noteq> [] \<and> (\<exists>m. signed_message C ign p = Inr m \<and> s = to_hex (hmac_sha256 K k m))"
  by (auto simp: verify_signature_def sign_payload_Inr compare_digest_def to_hex_ascii split: if_splits)

lemma dpop_sort: "sort_key fst (json_sort_items (dpop k d)) = dpop k (sort_key fst (json_sort_items d))"
  by (simp add: dpop_def json_sort_items_map filter_sort filter_map o_def)

lemma dpops_sort:
  "sort_key fst (json_sort_items (foldl (\<lambda>d f. dpop f d) d fs)) =
     foldl (\<lambda>d f. dpop f d) (sort_key fst (json_sort_items d)) fs"
  by (induction fs arbitrary: d) (simp_all add: dpop_sort)

lemma json_eq_signed_part: "json_eq v w \<Longrightarrow> json_eq (signed_part ign v) (signed_part ign w)"
  by (cases v; cases w) (auto simp: json_eq_def dpops_sort dpop_sort)

lemma is_json_dpop: "is_json (PDict d) \<Longrightarrow> is_json (PDict (dpop k d))"
  by (auto simp: is_json_items_conv dpop_def distinct_map_filter)

lemma is_json_signed_part: "is_json v \<Longrightarrow> is_json (signed_part ign v)"
proof (induction ign v rule: signed_part.induct)
  case (1 ign d)
  have "is_json (PDict d) \<Longrightarrow> is_json (PDict (foldl (\<lambda>d f. dpop f d) d fs))" for d fs
    by (induction fs arbitrary: d) (simp_all add: is_json_dpop del: is_json.simps)
  with "1.prems" show ?case by (simp add: is_json_dpop del: is_json.simps)
qed auto

text \<open>Two payloads whose normal forms differ only in the signature fields sign the same bytes.\<close>

lemma signed_message_cong:
  assumes ok: "codec_ok C" and d: "to_dict C p 0 = Inr d" "to_dict C q 0 = Inr e"
    and eq: "json_eq (signed_part ign e) (signed_part ign d)"
  shows "signed_message C ign q = signed_message C ign p"
proof -
  have "is_json (signed_part ign e)" using to_dict_Inr [OF ok d(2)] is_json_signed_part by blast
  from codec_ok_sorted [OF ok this eq, of "[OPT_SORT_KEYS]" None] show ?thesis
    by (simp add: signed_message_def d)
qed

text \<open>One hop: what \<open>json_dumps\<close> puts on the wire, read by the next node.\<close>

definition hop :: "'b codec \<Rightarrow> pyval \<Rightarrow> pyval \<Rightarrow> bool" where
  "hop C p q = (case json_dumps C p of Inl _ \<Rightarrow> False | Inr b \<Rightarrow> oj_loads C b = Inr q)"

lemma signed_message_hop:
  assumes ok: "codec_ok C" and h: "hop C p q"
  shows "signed_message C ign q = signed_message C ign p"
proof -
  from h obtain d b where d: "to_dict C p 0 = Inr d" "oj_dumps C None [] d = Inr b" "oj_loads C b = Inr q"
    by (auto simp: hop_def json_dumps_def split: sum.splits)
  from to_dict_wire [OF ok d] obtain e where "to_dict C q 0 = Inr e" "json_eq e d" by blast
  with d(1) show ?thesis by (blast intro: signed_message_cong [OF ok] json_eq_signed_part)
qed

fun relayed :: "('m \<Rightarrow> 'm \<Rightarrow> bool) \<Rightarrow> 'm \<Rightarrow> 'm list \<Rightarrow> bool" where
  "relayed step p [] = True"
| "relayed step p (q # qs) = (step p q \<and> relayed step q qs)"

subsection \<open>The signature interface\<close>

text \<open>
  A scheme signs and verifies messages in an environment \<open>e\<close>; \<open>pair\<close> says that two keys
  belong together there and \<open>step\<close> that one message is what the next node makes of another.
  A signature made for a message verifies on every message that signs alike, and signing
  alike survives a step.
\<close>

locale signature_scheme =
  fixes sign :: "'e \<Rightarrow> 'm \<Rightarrow> string \<Rightarrow> exn + string"
    and verify :: "'e \<Rightarrow> 'm \<Rightarrow> string \<Rightarrow> string \<Rightarrow> exn + bool"
    and pair :: "'e \<Rightarrow> string \<Rightarrow> string \<Rightarrow> bool"
    and step :: "'e \<Rightarrow> 'm \<Rightarrow> 'm \<Rightarrow> bool"
  assumes verify_sign: "pair e sk pk \<Longrightarrow> sign e m sk = Inr s \<Longrightarrow> verify e m s pk = Inr True"
    and verify_empty: "verify e m [] pk = Inr False"
    and sign_step: "pair e sk pk \<Longrightarrow> step e m m' \<Longrightarrow> sign e m' sk = sign e m sk"
begin

lemma signature_nonempty: "pair e sk pk \<Longrightarrow> sign e m sk = Inr s \<Longrightarrow> s \<noteq> []"
  using verify_sign [of e sk pk m s] verify_empty [of e m pk] by auto

lemma relay_verifies:
  "pair e sk pk \<Longrightarrow> sign e m sk = Inr s \<Longrightarrow> relayed (step e) m ms \<Longrightarrow> m' \<in> set (m # ms) \<Longrightarrow>
    verify e m' s pk = Inr True"
proof (induction ms arbitrary: m)
  case Nil
  then show ?case by (simp add: verify_sign)
next
  case (Cons q qs)
  show ?case
  proof (cases "m' = m")
    case True
    with Cons.prems show ?thesis by (simp add: verify_sign)
  next
    case False
    from Cons.prems have "sign e q sk = Inr s" using sign_step [of e sk pk m q] by simp
    with Cons False show ?thesis by simp
  qed
qed

end


subsection \<open>The four schemes\<close>

text \<open>
  The environment of a payload scheme is the crypto library, the codec and the ignored
  fields.  HMAC uses one secret, under which no digest is empty; an Ed25519 pair loads as
  such and verifies what it signed.
\<close>

type_synonym ('b, 'sk, 'pk) payload_env = "('b, 'sk, 'pk) crypto \<times> 'b codec \<times> string list option"

definition hmac_pair :: "('b, 'sk, 'pk) crypto \<Rightarrow> string \<Rightarrow> string \<Rightarrow> bool" where
  "hmac_pair K sk pk \<longleftrightarrow> sk = pk \<and> (\<forall>m. hmac_sha256 K sk m \<noteq> [])"

definition ed25519_pair :: "('b, 'sk, 'pk) crypto \<Rightarrow> string \<Rightarrow> string \<Rightarrow> bool" where
  "ed25519_pair K sk pk \<longleftrightarrow> pk \<noteq> [] \<and> (\<exists>a b. load_pem_private_key K sk = Inr (Ed25519Key a) \<and>
     load_pem_public_key K pk = Inr (Ed25519Key b) \<and>
     (\<forall>m. ed25519_sign K a m \<noteq> [] \<and> ed25519_verify K b (ed25519_sign K a m) m = Inr ()))"

definition chain_hop :: "'b codec \<Rightarrow> string list \<Rightarrow> string list \<Rightarrow> bool" where
  "chain_hop C c c' = hop C (PList (map PStr c)) (PList (map PStr c'))"

lemma case_loaded_Inr:
  "(case x of OtherKey \<Rightarrow> Inl e | Ed25519Key a \<Rightarrow> Inr (f a)) = Inr s \<longleftrightarrow> (\<exists>a. x = Ed25519Key a \<and> s = f a)"
  by (cases x) auto

lemma load_signing_key_Inr: "load_signing_key K k = Inr x \<longleftrightarrow> load_pem_private_key K k = Inr x"
  by (auto simp: load_signing_key_def split: sum.splits exn.splits)

lemma sign_payload_ed25519_Inr:
  "sign_payload_ed25519 K C p k ign = Inr s \<longleftrightarrow> k \<noteq> [] \<and>
     (\<exists>m a. signed_message C ign p = Inr m \<and> load_pem_private_key K k = Inr (Ed25519Key a) \<and>
        s = to_hex (ed25519_sign K a m))"
  by (auto simp: sign_payload_ed25519_def load_signing_key_Inr case_loaded_Inr)

lemma sign_bubbling_chain_Inr:
  "sign_bubbling_chain K C c k = Inr s \<longleftrightarrow> k \<noteq> [] \<and>
     (\<exists>m a. chain_message C c = Inr m \<and> load_pem_private_key K k = Inr (Ed25519Key a) \<and>
        s = to_hex (ed25519_sign K a m))"
  by (auto simp: sign_bubbling_chain_def case_loaded_Inr)

lemma sign_bubbling_chain_hmac_Inr:
  "sign_bubbling_chain_hmac K C c k = Inr s \<longleftrightarrow> k \<noteq> [] \<and>
     (\<exists>m. chain_message C c = Inr m \<and> s = to_hex (hmac_sha256 K k m))"
  by (auto simp: sign_bubbling_chain_hmac_def)

lemma check_ed25519_signed:
  "load_pem_public_key K pk = Inr (Ed25519Key b) \<Longrightarrow> ed25519_verify K b sig m = Inr () \<Longrightarrow>
    check_ed25519 K pk (to_hex sig) m = Inr True"
  by (simp add: check_ed25519_def)

lemma json_sort_strings [simp]: "json_sort_list (map PStr c) = map PStr c"
  by (induction c) auto

lemma normal_strings [simp]: "normal_list (map PStr c) = map PStr c"
  by (induction c) auto

lemma is_json_strings [simp]: "is_json_list (map PStr c)"
  by (induction c) auto

lemma chain_hop_same:
  assumes ok: "codec_ok C" and h: "chain_hop C c c'"
  shows "c' = c"
proof -
  from h obtain d b where d: "to_dict C (PList (map PStr c)) 0 = Inr d" "oj_dumps C None [] d = Inr b"
    "oj_loads C b = Inr (PList (map PStr c'))"
    by (auto simp: chain_hop_def hop_def json_dumps_def split: sum.splits)
  then obtain x u where u: "oj_dumps C (Some (default_handler C)) [OPT_SORT_KEYS, OPT_NON_STR_KEYS]
      (PList (map PStr c)) = Inr x" "oj_loads C x = Inr u" "d = normal u"
    by (auto simp: to_dict_def finalize_Inr split: sum.splits if_splits)
  with codec_ok_loads_dumps [OF ok _ u(1)] have "json_eq (PList (map PStr c)) u" by auto
  then have "json_sort u = PList (map PStr c)" by (simp add: json_eq_def)
  then have "json_sort d = PList (map PStr c)" using u(3) normal_json_sort [of u] by simp
  moreover from to_dict_Inr [OF ok d(1)] codec_ok_loads_dumps [OF ok _ d(2)] d(3)
  have "json_eq d (PList (map PStr c'))" by auto
  ultimately have "map PStr c' = map PStr c" by (simp add: json_eq_def)
  moreover have "inj PStr" by (simp add: inj_def)
  ultimately show ?thesis by (simp add: inj_map_eq_map)
qed

interpretation hmac: signature_scheme
  "\<lambda>(e :: ('b, 'sk, 'pk) payload_env) p k. sign_payload (fst e) (fst (snd e)) p k (snd (snd e))"
  "\<lambda>e p s k. verify_signature (fst e) (fst (snd e)) p s k (snd (snd e))"
  "\<lambda>e sk pk. codec_ok (fst (snd e)) \<and> hmac_pair (fst e) sk pk"
  "\<lambda>e. hop (fst (snd e))"
proof (unfold_locales, goal_cases)
  case (1 e sk pk m s)
  then show ?case by (auto simp: verify_signature_True sign_payload_Inr hmac_pair_def)
next
  case (2 e m pk)
  show ?case by (simp add: verify_signature_def)
next
  case (3 e sk pk m m')
  then show ?case by (simp add: sign_payload_def signed_message_hop)
qed

interpretation ed25519: signature_scheme
  "\<lambda>(e :: ('b, 'sk, 'pk) payload_env) p k. sign_payload_ed25519 (fst e) (fst (snd e)) p k (snd (snd e))"
  "\<lambda>e p s k. verify_signature_ed25519 (fst e) (fst (snd e)) p s k (snd (snd e))"
  "\<lambda>e sk pk. codec_ok (fst (snd e)) \<and> ed25519_pair (fst e) sk pk"
  "\<lambda>e. hop (fst (snd e))"
proof (unfold_locales, goal_cases)
  case (1 e sk pk m s)
  then show ?case
    by (auto simp: sign_payload_ed25519_Inr verify_signature_ed25519_def ed25519_pair_def check_ed25519_signed)
next
  case (2 e m pk)
  show ?case by (simp add: verify_signature_ed25519_def)
next
  case (3 e sk pk m m')
  then show ?case by (simp add: sign_payload_ed25519_def signed_message_hop)
qed

interpretation chain_ed25519: signature_scheme
  "\<lambda>(e :: ('b, 'sk, 'pk) crypto \<times> 'b codec) c k. sign_bubbling_chain (fst e) (snd e) c k"
  "\<lambda>e c s k. verify_bubbling_chain_signature (fst e) (snd e) c s k"
  "\<lambda>e sk pk. codec_ok (snd e) \<and> ed25519_pair (fst e) sk pk"
  "\<lambda>e. chain_hop (snd e)"
proof (unfold_locales, goal_cases)
  case (1 e sk pk m s)
  then show ?case
    by (auto simp: sign_bubbling_chain_Inr verify_bubbling_chain_signature_def ed25519_pair_def check_ed25519_signed)
next
  case (2 e m pk)
  show ?case by (simp add: verify_bubbling_chain_signature_def)
next
  case (3 e sk pk m m')
  then show ?case using chain_hop_same by blast
qed

interpretation chain_hmac: signature_scheme
  "\<lambda>(e :: ('b, 'sk, 'pk) crypto \<times> 'b codec) c k. sign_bubbling_chain_hmac (fst e) (snd e) c k"
  "\<lambda>e c s k. verify_bubbling_chain_hmac (fst e) (snd e) c s k"
  "\<lambda>e sk pk. codec_ok (snd e) \<and> hmac_pair (fst e) sk pk"
  "\<lambda>e. chain_hop (snd e)"
proof (unfold_locales, goal_cases)
  case (1 e sk pk m s)
  then show ?case
    by (auto simp: sign_bubbling_chain_hmac_Inr verify_bubbling_chain_hmac_def hmac_pair_def to_hex_ascii)
next
  case (2 e m pk)
  show ?case by (simp add: verify_bubbling_chain_hmac_def)
next
  case (3 e sk pk m m')
  then show ?case using chain_hop_same by blast
qed


subsection \<open>Properties\<close>

text \<open>A library in which every key is good, for the closed instances.\<close>

definition plain_crypto :: "('b, string, string) crypto" where
  "plain_crypto = \<lparr>
     hmac_sha256 = (\<lambda>k m. [42]),
     load_pem_private_key = (\<lambda>pem. Inr (Ed25519Key pem)),
     load_pem_public_key = (\<lambda>pem. Inr (Ed25519Key pem)),
     ed25519_sign = (\<lambda>k m. [7]),
     ed25519_verify = (\<lambda>k sig m. if sig = [7] then Inr () else Inl (PyExn OtherError ''InvalidSignature''))\<rparr>"

definition task1 :: pyval where
  "task1 = PDict [(''job_id'', PStr ''j1''), (''priority'', PFloat (Fin 1)), (''deadline'', PNone)]"

definition task1_wire :: pyval where
  "task1_wire = PDict [(''job_id'', PStr ''j1''), (''priority'', PInt 1)]"

lemma char_of_samples [simp]:
  "char_of (48 :: nat) = CHR ''0''" "char_of (50 :: nat) = CHR ''2''"
  "char_of (55 :: nat) = CHR ''7''" "char_of (97 :: nat) = CHR ''a''"
  by code_simp+

lemma task1_message: "signed_message plain_codec None task1 = Inr task1_wire"
  by (simp add: task1_def task1_wire_def signed_message_def to_dict_def plain_codec_def
      MAX_RECURSION_DEPTH_def is_integer_def dpop_def)

lemma dpop_dset [simp]: "dpop k (dset k v d) = dpop k d"
  by (induction d) (auto simp: dpop_def)

text \<open>
  C7: A payload signed with HMAC, sent with its security field attached and relayed through any
  number of hops that re-encode it, still verifies at every hop with the same secret.
\<close>
theorem signed_payload_relay:
  assumes "codec_ok C" and "\<And>m. hmac_sha256 K secret m \<noteq> []"
    and d: "to_dict C payload 0 = Inr (PDict d)"
    and sg: "sign_payload K C payload secret ignore_fields = Inr s"
    and q: "to_dict C sent 0 = Inr (PDict (dset ''security'' sec d))"
    and r: "relayed (hop C) sent received" "p \<in> set (sent # received)"
  shows "verify_signature K C p s secret ignore_fields = Inr True"
proof -
  have "signed_message C ignore_fields sent = signed_message C ignore_fields payload"
    by (simp add: signed_message_def d q)
  with sg have "sign_payload K C sent secret ignore_fields = Inr s" by (simp add: sign_payload_Inr)
  with hmac.relay_verifies [of "(K, C, ignore_fields)" secret secret sent s received p] assms r
  show ?thesis by (simp add: hmac_pair_def)
qed

theorem signed_payload_relay_witness:
  "verify_signature plain_crypto plain_codec (PDict [(''a'', PInt 1), (''security'', PStr ''2a'')]) ''2a'' ''key'' None = Inr True"
proof (rule signed_payload_relay [OF plain_codec_ok])
  show "\<And>m. hmac_sha256 plain_crypto ''key'' m \<noteq> []" by (simp add: plain_crypto_def)
  show "to_dict plain_codec (PDict [(''a'', PInt 1)]) 0 = Inr (PDict [(''a'', PInt 1)])"
    by (simp add: to_dict_def plain_codec_def MAX_RECURSION_DEPTH_def)
  show "sign_payload plain_crypto plain_codec (PDict [(''a'', PInt 1)]) ''key'' None = Inr ''2a''"
    by (simp add: sign_payload_def signed_message_def to_dict_def plain_codec_def plain_crypto_def
        MAX_RECURSION_DEPTH_def dpop_def hex_digit_def)
  show "to_dict plain_codec (PDict [(''a'', PInt 1), (''security'', PStr ''2a'')]) 0
      = Inr (PDict (dset ''security'' (PStr ''2a'') [(''a'', PInt 1)]))"
    by (simp add: to_dict_def plain_codec_def MAX_RECURSION_DEPTH_def)
  show "relayed (hop plain_codec) (PDict [(''a'', PInt 1), (''security'', PStr ''2a'')]) []" by simp
qed simp

text \<open>
  C14: A payload signed with an Ed25519 private key, sent with its security field attached and
  relayed through any number of hops that re-encode it, verifies at every hop with the matching
  public key: a non-empty PEM text whose key accepts what the private key signed.
\<close>
theorem ed25519_payload_relay:
  assumes "codec_ok C" and "ed25519_pair K private_key public_key"
    and d: "to_dict C payload 0 = Inr (PDict d)"
    and sg: "sign_payload_ed25519 K C payload private_key ignore_fields = Inr s"
    and q: "to_dict C sent 0 = Inr (PDict (dset ''security'' sec d))"
    and r: "relayed (hop C) sent received" "p \<in> set (sent # received)"
  shows "verify_signature_ed25519 K C p s public_key ignore_fields = Inr True"
proof -
  have "signed_message C ignore_fields sent = signed_message C ignore_fields payload"
    by (simp add: signed_message_def d q)
  with sg have "sign_payload_ed25519 K C sent private_key ignore_fields = Inr s"
    by (simp only: sign_payload_ed25519_def)
  with ed25519.relay_verifies [of "(K, C, ignore_fields)" private_key public_key sent s received p] assms r
  show ?thesis by simp
qed

theorem ed25519_payload_relay_witness:
  "verify_signature_ed25519 plain_crypto plain_codec (PDict [(''a'', PInt 1), (''security'', PStr ''07'')]) ''07'' ''pub'' None = Inr True"
proof (rule ed25519_payload_relay [OF plain_codec_ok])
  show "ed25519_pair plain_crypto ''priv'' ''pub''" by (simp add: ed25519_pair_def plain_crypto_def)
  show "to_dict plain_codec (PDict [(''a'', PInt 1)]) 0 = Inr (PDict [(''a'', PInt 1)])"
    by (simp add: to_dict_def plain_codec_def MAX_RECURSION_DEPTH_def)
  show "sign_payload_ed25519 plain_crypto plain_codec (PDict [(''a'', PInt 1)]) ''priv'' None = Inr ''07''"
    by (simp add: sign_payload_ed25519_def signed_message_def to_dict_def plain_codec_def plain_crypto_def
        MAX_RECURSION_DEPTH_def dpop_def load_signing_key_def hex_digit_def)
  show "to_dict plain_codec (PDict [(''a'', PInt 1), (''security'', PStr ''07'')]) 0
      = Inr (PDict (dset ''security'' (PStr ''07'') [(''a'', PInt 1)]))"
    by (simp add: to_dict_def plain_codec_def MAX_RECURSION_DEPTH_def)
  show "relayed (hop plain_codec) (PDict [(''a'', PInt 1), (''security'', PStr ''07'')])
      [PDict [(''a'', PInt 1), (''security'', PStr ''07'')]]"
    by (simp add: hop_def json_dumps_def to_dict_def plain_codec_def MAX_RECURSION_DEPTH_def)
qed simp

text \<open>
  One signature accepted for two payloads means that the HMAC of their signed messages coincide:
  verification never accepts a different message unless the MAC collides.
\<close>
theorem accepted_signature_collision:
  assumes "verify_signature K C p s secret ign = Inr True"
    and "verify_signature K C q s secret ign = Inr True"
  shows "\<exists>m n. signed_message C ign p = Inr m \<and> signed_message C ign q = Inr n \<and>
    s = to_hex (hmac_sha256 K secret m) \<and> hmac_sha256 K secret m = hmac_sha256 K secret n"
  using assms unfolding verify_signature_True using to_hex_inj by blast

theorem accepted_signature_collision_witness:
  "\<exists>m. signed_message plain_codec None task1 = Inr m \<and> ''2a'' = to_hex (hmac_sha256 plain_crypto ''k'' m)"
proof -
  have h: "verify_signature plain_crypto plain_codec task1 ''2a'' ''k'' None = Inr True"
    unfolding verify_signature_True by (simp add: task1_message plain_crypto_def hex_digit_def)
  show ?thesis using accepted_signature_collision [OF h h] by blast
qed

text \<open>
  A signature with a non-ASCII character makes the HMAC check raise TypeError instead of returning
  False; the Ed25519 check decides it.
\<close>
theorem non_ascii_signature_raises:
  assumes "\<not> is_ascii s" and "secret \<noteq> []" and "signed_message C ign p = Inr m"
  shows "verify_signature K C p s secret ign =
      Inl (PyExn TypeError ''comparing strings with non-ASCII characters is not supported'') \<and>
    (\<forall>public_key \<noteq> []. is_ascii public_key \<longrightarrow>
       verify_signature_ed25519 K C p s public_key ign = check_ed25519 K public_key s m)"
proof -
  have "s \<noteq> []" using assms(1) by (auto simp: is_ascii_def)
  with assms show ?thesis
    by (simp add: verify_signature_def sign_payload_def compare_digest_def verify_signature_ed25519_def)
qed

theorem non_ascii_signature_raises_witness:
  "verify_signature plain_crypto plain_codec task1 [CHR 0xE9] ''k'' None =
    Inl (PyExn TypeError ''comparing strings with non-ASCII characters is not supported'')"
  using non_ascii_signature_raises [of "[CHR 0xE9]" "''k''", OF _ _ task1_message, of plain_crypto]
  by (simp add: is_ascii_def)

text \<open>
  The Ed25519 check returns a Boolean on every branch, and True exactly when both strings are
  given, the key loads as an Ed25519 key, the signature is hexadecimal and the library accepts it.
\<close>
theorem verify_ed25519_decides:
  assumes m: "signed_message C ign p = Inr m"
    and lib: "\<And>e. load_pem_public_key K pem = Inl e \<Longrightarrow> is_exception e"
      "\<And>k sig e. ed25519_verify K k sig m = Inl e \<Longrightarrow> is_exception e"
  shows "verify_signature_ed25519 K C p s pem ign =
    Inr (s \<noteq> [] \<and> pem \<noteq> [] \<and> (\<exists>k sig. load_pem_public_key K pem = Inr (Ed25519Key k) \<and>
       from_hex s = Some sig \<and> ed25519_verify K k sig m = Inr ()))"
  using lib
  by (auto simp: verify_signature_ed25519_def m check_ed25519_def split: sum.splits loaded.splits option.splits)

theorem verify_ed25519_decides_witness:
  "verify_signature_ed25519 plain_crypto plain_codec task1 ''zz'' ''pub'' None = Inr False \<and>
   verify_signature_ed25519 plain_crypto plain_codec task1 ''07 '' ''pub'' None = Inr True"
proof -
  have e: "is_exception (PyExn OtherError x)" for x by (simp add: is_exception_def)
  have "verify_signature_ed25519 plain_crypto plain_codec task1 s ''pub'' None =
    Inr (s \<noteq> [] \<and> (\<exists>sig. from_hex s = Some sig \<and> sig = [7]))" for s
    by (subst verify_ed25519_decides [OF task1_message])
      (auto simp: plain_crypto_def e split: if_splits)
  then show ?thesis by (simp add: hex_val_def is_space_def)
qed

text \<open>
  A signed bubbling chain verifies at every hop that receives the same chain through JSON, for the
  Ed25519 and the HMAC variant.
\<close>
theorem bubbling_chain_relay:
  assumes "codec_ok C" and "relayed (chain_hop C) chain received" and "c \<in> set (chain # received)"
  shows "(ed25519_pair K priv pub \<longrightarrow> sign_bubbling_chain K C chain priv = Inr s \<longrightarrow>
      verify_bubbling_chain_signature K C c s pub = Inr True) \<and>
    ((\<forall>m. hmac_sha256 K secret m \<noteq> []) \<longrightarrow> sign_bubbling_chain_hmac K C chain secret = Inr t \<longrightarrow>
      verify_bubbling_chain_hmac K C c t secret = Inr True)"
  using chain_ed25519.relay_verifies [of "(K, C)" priv pub chain s received c]
    chain_hmac.relay_verifies [of "(K, C)" secret secret chain t received c] assms
  by (simp add: hmac_pair_def)

theorem bubbling_chain_relay_witness:
  "verify_bubbling_chain_hmac plain_crypto plain_codec [''w1'', ''w2''] ''2a'' ''k'' = Inr True"
proof -
  have r: "relayed (chain_hop plain_codec) [''w1'', ''w2''] [[''w1'', ''w2'']]"
    by (simp add: chain_hop_def hop_def json_dumps_def to_dict_def plain_codec_def MAX_RECURSION_DEPTH_def)
  have s: "sign_bubbling_chain_hmac plain_crypto plain_codec [''w1'', ''w2''] ''k'' = Inr ''2a''"
    by (simp add: sign_bubbling_chain_hmac_def chain_message_def plain_codec_def plain_crypto_def hex_digit_def)
  have h: "\<forall>m :: pyval. hmac_sha256 plain_crypto ''k'' m \<noteq> []" by (simp add: plain_crypto_def)
  show ?thesis using bubbling_chain_relay [OF plain_codec_ok r, of "[''w1'', ''w2'']" plain_crypto "[]" "[]" "[]" "''k''" "''2a''"]
      s h by simp
qed

text \<open>
  bytes.fromhex reads back what bytes.hex wrote; the text is ASCII and twice as long.
\<close>
theorem hex_roundtrip: "from_hex (to_hex bs) = Some bs \<and> is_ascii (to_hex bs) \<and> length (to_hex bs) = 2 * length bs"
  by (simp add: to_hex_ascii)

text \<open>
  A client context always demands and checks the server certificate; a server context demands a
  client certificate exactly when asked, and otherwise still asks for one.
\<close>
theorem tls_contexts_verify_peer:
  "(create_client_ssl_context F ca cert key = Inr ctx \<longrightarrow>
      ctx_verify_mode ctx = CERT_REQUIRED \<and> ctx_check_hostname ctx \<and>
      ctx_cert_chain ctx = (if path_given cert \<and> path_given key then Some (the cert, the key) else None)) \<and>
   (create_server_ssl_context F sc sk ca require = Inr ctx \<longrightarrow>
      ctx_verify_mode ctx = (if require then CERT_REQUIRED else CERT_OPTIONAL) \<and>
      ctx_cert_chain ctx = Some (sc, sk) \<and>
      ctx_cafiles ctx = (if path_given ca then [the ca] else []))"
  by (auto simp: create_client_ssl_context_def create_server_ssl_context_def load_cert_chain_def
      load_verify_locations_def split: if_splits)

theorem tls_contexts_verify_peer_witness:
  "\<exists>ctx. create_client_ssl_context \<lparr>cert_chain_loads = (\<lambda>c k. Inr ()), cafile_loads = (\<lambda>c. Inr ())\<rparr>
     None (Some ''c.pem'') None = Inr ctx \<and> ctx_verify_mode ctx = CERT_REQUIRED \<and> ctx_cert_chain ctx = None"
  using tls_contexts_verify_peer [of "\<lparr>cert_chain_loads = (\<lambda>c k. Inr ()), cafile_loads = (\<lambda>c. Inr ())\<rparr>"
      None "Some ''c.pem''" None "create_default_context SERVER_AUTH"]
  by (simp add: create_client_ssl_context_def)

lemma first_common_name_map_of: "first_common_name rdns = map_of rdns ''commonName''"
  by (induction rdns) auto

lemma subject_common_name_map_of: "subject_common_name subject = map_of (concat subject) ''commonName''"
  by (induction subject) (auto simp: first_common_name_map_of map_add_def split: option.splits)

text \<open>
  The identity of a peer is the first commonName of its certificate subject, and None without TLS,
  without a certificate or without such an entry.
\<close>
theorem cert_identity_first_common_name:
  "extract_cert_identity ssl_object =
    (case ssl_object of
       Some (Some cert) \<Rightarrow>
         (case dget ''subject'' cert of Some s \<Rightarrow> map_of (concat s) ''commonName'' | None \<Rightarrow> None)
     | _ \<Rightarrow> None)"
  by (auto simp: extract_cert_identity_def subject_common_name_map_of dget_def split: option.splits)

end
