(* ===== verification/Rxon_Blob.thy ===== *)
theory Rxon_Blob
  imports Rxon_Security
begin

text \<open>
  \<^verbatim>\<open>src/rxon/blob.py\<close>: the configuration hash and the URI parser.  The parser
  calls \<open>urllib.parse.urlparse\<close>, modelled for the scheme \<open>s3\<close>: tabs and line breaks are
  removed, the network location runs to the first of \<open>/ ? #\<close>, the fragment and the query
  are cut off the path.  The checks \<open>urlparse\<close> makes on a bracketed or non-ASCII network
  location are the argument \<open>netloc_check\<close>.
\<close>

definition RXON_BLOB_SCHEME :: string where
  "RXON_BLOB_SCHEME = ''s3''"

subsection \<open>Configuration hash\<close>

definition config_str :: "string \<Rightarrow> string \<Rightarrow> string \<Rightarrow> string" where
  "config_str endpoint access_key bucket = endpoint @ ''|'' @ access_key @ ''|'' @ bucket"

definition calculate_config_hash ::
  "(string \<Rightarrow> byte list) \<Rightarrow> string option \<Rightarrow> string option \<Rightarrow> string option \<Rightarrow> string option" where
  "calculate_config_hash sha256 endpoint access_key bucket =
     (case (endpoint, access_key, bucket) of
        (Some e, Some a, Some b) \<Rightarrow>
          if e = [] \<or> a = [] \<or> b = [] then None
          else Some (take 16 (to_hex (sha256 (config_str e a b))))
      | _ \<Rightarrow> None)"

subsection \<open>URIs\<close>

definition is_line_char :: "char \<Rightarrow> bool" where
  "is_line_char c = (c = CHR 0x09 \<or> c = CHR 0x0A \<or> c = CHR 0x0D)"

definition is_delim :: "char \<Rightarrow> bool" where
  "is_delim c = (c = CHR ''/'' \<or> c = CHR ''?'' \<or> c = CHR ''#'')"

definition check_netloc :: "(string \<Rightarrow> exn + unit) \<Rightarrow> string \<Rightarrow> exn + unit" where
  "check_netloc netloc_check netloc =
     (if (CHR ''['' \<in> set netloc) \<noteq> (CHR '']'' \<in> set netloc)
      then Inl (PyExn ValueError ''Invalid IPv6 URL'')
      else if CHR ''['' \<in> set netloc \<or> \<not> is_ascii netloc then netloc_check netloc
      else Inr ())"

text \<open>\<open>urlparse(uri)\<close> of a string that starts with \<open>s3://\<close>: network location and path.\<close>

definition urlparse_s3 :: "(string \<Rightarrow> exn + unit) \<Rightarrow> string \<Rightarrow> exn + string \<times> string" where
  "urlparse_s3 netloc_check uri =
     (let url = drop 5 (filter (\<lambda>c. \<not> is_line_char c) uri);
          netloc = takeWhile (\<lambda>c. \<not> is_delim c) url;
          tail = dropWhile (\<lambda>c. \<not> is_delim c) url;
          path = takeWhile (\<lambda>c. c \<noteq> CHR ''?'') (takeWhile (\<lambda>c. c \<noteq> CHR ''#'') tail)
      in rbind (check_netloc netloc_check netloc) (\<lambda>_. Inr (netloc, path)))"

definition parse_uri ::
  "(string \<Rightarrow> exn + unit) \<Rightarrow> string \<Rightarrow> string option \<Rightarrow> string \<Rightarrow> exn + string \<times> string \<times> bool" where
  "parse_uri netloc_check uri default_bucket prefix =
     (let is_dir = endswith uri ''/'' in
      if startswith uri (RXON_BLOB_SCHEME @ ''://'') then
        rbind (urlparse_s3 netloc_check uri)
          (\<lambda>(bucket, path). Inr (bucket, lstrip ''/'' path, is_dir))
      else if \<not> path_given default_bucket then
        Inl (PyExn ValueError (''Cannot parse relative path '' @ [CHR 0x27] @ uri @ [CHR 0x27]
          @ '' without a default bucket.''))
      else (let clean_path = lstrip ''/'' uri;
                key = (if prefix \<noteq> [] then prefix @ clean_path else clean_path)
            in Inr (the default_bucket, key, is_dir)))"


subsection \<open>Lemmas\<close>

lemma endswith_last: "endswith s [c] \<longleftrightarrow> s \<noteq> [] \<and> last s = c"
  by (metis append_butlast_last_id endswith_iff last_snoc snoc_eq_iff_butlast)

lemma takeWhile_cut: "(\<And>x. x \<in> set xs \<Longrightarrow> P x) \<Longrightarrow> \<not> P y \<Longrightarrow> takeWhile P (xs @ y # ys) = xs"
  by (simp add: takeWhile_append2)

lemma dropWhile_cut: "(\<And>x. x \<in> set xs \<Longrightarrow> P x) \<Longrightarrow> \<not> P y \<Longrightarrow> dropWhile P (xs @ y # ys) = y # ys"
  by (simp add: dropWhile_append2)

text \<open>A bucket name \<open>urlparse\<close> takes as it is, and a key it does not cut.\<close>

definition plain_bucket :: "string \<Rightarrow> bool" where
  "plain_bucket b \<longleftrightarrow> is_ascii b \<and> list_all (\<lambda>c. \<not> is_delim c \<and> \<not> is_line_char c \<and> c \<noteq> CHR ''['' \<and> c \<noteq> CHR '']'') b"

definition plain_key :: "string \<Rightarrow> bool" where
  "plain_key k \<longleftrightarrow> list_all (\<lambda>c. c \<noteq> CHR ''?'' \<and> c \<noteq> CHR ''#'' \<and> \<not> is_line_char c) k \<and>
     \<not> startswith k ''/''"

lemma urlparse_s3_plain:
  assumes b: "plain_bucket b" and k: "plain_key k"
    and t: "t = [] \<or> (\<exists>r. t = CHR ''#'' # r) \<or> (\<exists>r. t = CHR ''?'' # r)"
    and tc: "list_all (\<lambda>c. \<not> is_line_char c) t"
  shows "urlparse_s3 N (''s3://'' @ b @ ''/'' @ k @ t) = Inr (b, ''/'' @ k)"
proof -
  let ?u = "''s3://'' @ b @ ''/'' @ k @ t" and ?k = "''/'' @ k"
  have f: "filter (\<lambda>c. \<not> is_line_char c) ?u = ?u"
    using b k tc by (auto simp: plain_bucket_def plain_key_def list_all_iff is_line_char_def)
  have n: "takeWhile (\<lambda>c. \<not> is_delim c) (b @ CHR ''/'' # k @ t) = b"
    "dropWhile (\<lambda>c. \<not> is_delim c) (b @ CHR ''/'' # k @ t) = CHR ''/'' # k @ t"
    using b by (auto simp: plain_bucket_def list_all_iff is_delim_def intro!: takeWhile_cut dropWhile_cut)
  have nofrag: "c \<in> set ?k \<Longrightarrow> c \<noteq> CHR ''#'' \<and> c \<noteq> CHR ''?''" for c
    using k by (auto simp: plain_key_def list_all_iff)
  have tk: "takeWhile (\<lambda>c. c \<noteq> CHR ''#'') (?k @ t) = ?k @ takeWhile (\<lambda>c. c \<noteq> CHR ''#'') t"
    using nofrag by (simp add: takeWhile_append2)
  have "takeWhile (\<lambda>c. c \<noteq> CHR ''?'') (?k @ takeWhile (\<lambda>c. c \<noteq> CHR ''#'') t)
      = ?k @ takeWhile (\<lambda>c. c \<noteq> CHR ''?'') (takeWhile (\<lambda>c. c \<noteq> CHR ''#'') t)"
    using nofrag by (simp add: takeWhile_append2)
  also have "takeWhile (\<lambda>c. c \<noteq> CHR ''?'') (takeWhile (\<lambda>c. c \<noteq> CHR ''#'') t) = []"
    using t by auto
  finally have p: "takeWhile (\<lambda>c. c \<noteq> CHR ''?'') (takeWhile (\<lambda>c. c \<noteq> CHR ''#'') (CHR ''/'' # k @ t)) = ?k"
    using tk by simp
  have "check_netloc N b = Inr ()"
    using b by (auto simp: check_netloc_def plain_bucket_def list_all_iff)
  then show ?thesis
    unfolding urlparse_s3_def Let_def f using n p by simp
qed

lemma lstrip_slash_key: "plain_key k \<Longrightarrow> lstrip ''/'' (''/'' @ k) = k"
  by (cases k) (auto simp: plain_key_def lstrip_def startswith_def)

subsection \<open>Properties\<close>

text \<open>
  The URI built from a plain bucket and key parses back to exactly these, with the directory flag
  of a trailing slash.
\<close>
theorem parse_uri_roundtrip:
  assumes "plain_bucket b" and "plain_key k"
  shows "parse_uri N (''s3://'' @ b @ ''/'' @ k) db prefix = Inr (b, k, k = [] \<or> last k = CHR ''/'')"
proof -
  have "endswith (''s3://'' @ b @ ''/'' @ k) ''/'' \<longleftrightarrow> k = [] \<or> last k = CHR ''/''"
    unfolding endswith_last by (cases "k = []") auto
  with urlparse_s3_plain [OF assms, of "[]" N] assms(2) show ?thesis
    by (simp add: parse_uri_def RXON_BLOB_SCHEME_def startswith_def lstrip_slash_key [simplified])
qed

theorem parse_uri_roundtrip_witness:
  "parse_uri (\<lambda>s. Inr ()) ''s3://data/models/v1/'' None [] = Inr (''data'', ''models/v1/'', True)"
  using parse_uri_roundtrip [of "''data''" "''models/v1/''" "\<lambda>s. Inr ()" None "[]"]
  by (simp add: plain_bucket_def plain_key_def is_ascii_def is_delim_def is_line_char_def startswith_def)

text \<open>
  A key that contains a question mark or a hash sign is cut there: everything from that character
  on is lost.
\<close>
theorem parse_uri_truncates_key:
  assumes "plain_bucket b" and "plain_key k" and "c = CHR ''#'' \<or> c = CHR ''?''"
    and "list_all (\<lambda>c. \<not> is_line_char c) t"
  shows "parse_uri N (''s3://'' @ b @ ''/'' @ k @ c # t) db prefix = Inr (b, k, t \<noteq> [] \<and> last t = CHR ''/'')"
proof -
  have "\<not> is_line_char c" using assms(3) by (auto simp: is_line_char_def)
  with urlparse_s3_plain [OF assms(1,2), of "c # t" N] assms(2-4) show ?thesis
    by (auto simp: parse_uri_def RXON_BLOB_SCHEME_def startswith_def Let_def endswith_last lstrip_slash_key
      simp flip: append.simps(2))
qed

theorem parse_uri_truncates_key_witness:
  "parse_uri (\<lambda>s. Inr ()) ''s3://data/report#2.csv'' None [] = Inr (''data'', ''report'', False)"
  using parse_uri_truncates_key [of "''data''" "''report''" "CHR ''#''" "''2.csv''" "\<lambda>s. Inr ()" None "[]"]
  by (simp add: plain_bucket_def plain_key_def is_ascii_def is_delim_def is_line_char_def startswith_def)

text \<open>
  A URI without a bucket is not rejected: the empty bucket is returned.
\<close>
theorem parse_uri_empty_bucket:
  "parse_uri N ''s3:///key'' None [] = Inr ([], ''key'', False)"
  by (simp add: parse_uri_def urlparse_s3_def check_netloc_def RXON_BLOB_SCHEME_def startswith_def
      endswith_def is_line_char_def is_delim_def is_ascii_def lstrip_def Let_def)

text \<open>
  A relative path needs a default bucket and otherwise raises ValueError; its key is the prefix
  followed by the path without leading slashes.
\<close>
theorem parse_uri_relative:
  assumes "\<not> startswith uri ''s3://''"
  shows "parse_uri N uri default_bucket prefix =
    (if path_given default_bucket
     then Inr (the default_bucket, prefix @ lstrip ''/'' uri, endswith uri ''/'')
     else Inl (PyExn ValueError (''Cannot parse relative path '' @ [CHR 0x27] @ uri @ [CHR 0x27]
        @ '' without a default bucket.''))) \<and>
    (lstrip ''/'' uri = [] \<or> hd (lstrip ''/'' uri) \<noteq> CHR ''/'')"
  using assms lstrip_no_lead [of "''/''" uri]
  by (auto simp: parse_uri_def RXON_BLOB_SCHEME_def Let_def)

theorem parse_uri_relative_witness:
  "parse_uri (\<lambda>s. Inr ()) ''//a/b'' (Some ''data'') ''tmp/'' = Inr (''data'', ''tmp/a/b'', False)"
  using parse_uri_relative [of "''//a/b''" "\<lambda>s. Inr ()" "Some ''data''" "''tmp/''"]
  by (simp add: startswith_def lstrip_def endswith_def)

text \<open>
  Without the separator in endpoint and access key the hashed string determines the three parts of
  the configuration.
\<close>
theorem config_str_injective:
  assumes "CHR ''|'' \<notin> set e" "CHR ''|'' \<notin> set a" "CHR ''|'' \<notin> set e'" "CHR ''|'' \<notin> set a'"
  shows "config_str e a b = config_str e' a' b' \<longleftrightarrow> e = e' \<and> a = a' \<and> b = b'"
proof -
  have split3: "CHR ''|'' \<notin> set e \<Longrightarrow> CHR ''|'' \<notin> set a \<Longrightarrow>
      split_on CHR ''|'' (config_str e a b) = e # a # split_on CHR ''|'' b" for e a b
    by (simp add: config_str_def split_on_append)
  from assms split3 [of e a b] split3 [of e' a' b'] show ?thesis
    by (metis join_split_on list.inject)
qed

theorem config_str_injective_witness:
  "config_str ''http'' ''key'' ''data'' \<noteq> config_str ''http'' ''key'' ''logs''"
  using config_str_injective [of "''http''" "''key''" "''http''" "''key''" "''data''" "''logs''"] by simp

text \<open>
  With the separator in a part, two different configurations have the same hash, whatever the hash
  function.
\<close>
theorem config_hash_collision:
  "calculate_config_hash sha256 (Some ''a|b'') (Some ''c'') (Some ''d'') =
   calculate_config_hash sha256 (Some ''a'') (Some ''b|c'') (Some ''d'') \<and>
   calculate_config_hash sha256 (Some ''a'') (Some ''b|c'') (Some ''d'') \<noteq> None"
  by (simp add: calculate_config_hash_def config_str_def)

end
