(* ===== verification/Rxon_Transport.thy ===== *)
theory Rxon_Transport
  imports Rxon_Serial
begin

text \<open>
  \<^verbatim>\<open>src/rxon/transports/base.py\<close>: the abstract \<open>Transport\<close>.  Its methods are
  the operations of an interface; a locale states what every implementation promises a worker
  (the identity never changes, a refresh installs exactly the token it returns, the
  implementation's own invariant is kept) and derives what holds after any run of operations.
\<close>

datatype transport_op =
    Connect
  | Close
  | Register pyval
  | PollTask rat "string list option" "string list option"
  | SendResult pyval
  | SendHeartbeat pyval
  | EmitEvent pyval
  | RefreshToken

locale transport =
  fixes step :: "transport_op \<Rightarrow> 's \<Rightarrow> 's"
    and identity :: "'s \<Rightarrow> string"
    and current_token :: "'s \<Rightarrow> string"
    and refreshed :: "'s \<Rightarrow> string option" \<comment> \<open>the token a refresh in this state returns\<close>
    and inv :: "'s \<Rightarrow> bool"
  assumes step_identity: "identity (step op s) = identity s"
    and step_inv: "inv s \<Longrightarrow> inv (step op s)"
    and refresh_installs:
      "current_token (step RefreshToken s) = (case refreshed s of None \<Rightarrow> current_token s | Some t \<Rightarrow> t)"
begin

lemma run_identity: "identity (fold step ops s) = identity s"
  by (induction ops arbitrary: s) (auto simp: step_identity)

lemma run_inv: "inv s \<Longrightarrow> inv (fold step ops s)"
  by (induction ops arbitrary: s) (auto simp: step_inv)

lemma run_then_refresh:
  "current_token (fold step (ops @ [RefreshToken]) s) =
     (case refreshed (fold step ops s) of None \<Rightarrow> current_token (fold step ops s) | Some t \<Rightarrow> t)"
  by (simp add: refresh_installs)

end

text \<open>
  The abstract \<open>Listener\<close>: \<open>start\<close> installs the handler that is called from then on, \<open>stop\<close>
  takes none away.
\<close>

datatype 'h listener_op = Start 'h | Stop

fun last_started :: "'h listener_op list \<Rightarrow> 'h option \<Rightarrow> 'h option" where
  "last_started [] h = h"
| "last_started (Start h # ops) _ = last_started ops (Some h)"
| "last_started (Stop # ops) h = last_started ops h"

locale listener_api =
  fixes apply_op :: "'h listener_op \<Rightarrow> 'l \<Rightarrow> 'l"
    and installed :: "'l \<Rightarrow> 'h option"
  assumes start_installs: "installed (apply_op (Start h) l) = Some h"
    and stop_keeps: "installed (apply_op Stop l) = installed l"
begin

lemma run_installed: "installed (fold apply_op ops l) = last_started ops (installed l)"
  by (induction ops "installed l" arbitrary: l rule: last_started.induct)
    (auto simp: start_installs stop_keeps)

end

end
