(* ===== verification/Rxon_Client.thy ===== *)
theory Rxon_Client
  imports Rxon_Transport
begin

text \<open>
  \<^verbatim>\<open>src/rxon/transports/http.py\<close>: \<open>HttpTransport\<close>, the worker side of the
  protocol.  The object is a record; aiohttp's session with everything behind it (network,
  orchestrator) is the \<open>world\<close>: a function that answers a request in view of everything that
  happened before, and the log of what happened.  A method takes and returns the object and
  the world.  The \<open>except\<close> clauses are functions on the raised value, tried in the order of
  the source.  Logging is not modelled; the flag that guards the version warning is.
\<close>

subsection \<open>Requests, responses, the world\<close>

record http_request =
  rq_method :: string
  rq_url :: string
  rq_params :: "pyval dict option"
  rq_json :: "pyval option"
  rq_headers :: "string dict"
  rq_timeout :: "rat option"

text \<open>
  A response with its status, header lookup, and the outcomes of \<open>await resp.json(loads=loads)\<close>
  and \<open>await resp.text()\<close>.
\<close>

record http_response =
  rs_status :: nat
  rs_header :: "string \<Rightarrow> string option"
  rs_json :: "exn + pyval"
  rs_text :: "exn + string"

datatype action = Sent http_request | Slept rat | WsSent pyval

record world =
  w_peer :: "action list \<Rightarrow> http_request \<Rightarrow> exn + http_response"
  w_ws :: "action list \<Rightarrow> pyval \<Rightarrow> exn + unit"
  w_log :: "action list"

definition exchange :: "world \<Rightarrow> http_request \<Rightarrow> (exn + http_response) \<times> world" where
  "exchange w rq = (w_peer w (w_log w) rq, w\<lparr>w_log := w_log w @ [Sent rq]\<rparr>)"

definition sleep :: "rat \<Rightarrow> world \<Rightarrow> world" where
  "sleep d w = w\<lparr>w_log := w_log w @ [Slept d]\<rparr>"

text \<open>
  The rest of the environment: the model classes (msgspec), \<open>float()\<close> of a header (None for
  \<open>ValueError\<close>), the seconds until an HTTP date (None when parsing or subtracting raises).
\<close>

record 'b http_env =
  e_codec :: "'b codec"
  e_token_cls :: pycls
  e_task_cls :: pycls
  e_float :: "string \<Rightarrow> flt option"
  e_date_delay :: "string \<Rightarrow> flt option"

subsection \<open>The object\<close>

record token_response =
  access_token :: string
  expires_in :: int
  tr_worker_id :: string
  refresh_token :: "string option"

record http_transport =
  base_url :: string
  worker_id :: string
  token :: string
  refresh_token_value :: "string option"
  session_closed :: "bool option" \<comment> \<open>\<open>_session\<close>: None, or whether it is closed\<close>
  own_session :: bool
  headers :: "string dict"
  result_retries :: int
  result_retry_delay :: rat
  ws_closed :: "bool option" \<comment> \<open>\<open>_ws_connection\<close>: None, or whether it is closed\<close>
  version_warning_logged :: bool
  closing :: bool

definition HttpTransport_init ::
  "string \<Rightarrow> string \<Rightarrow> string \<Rightarrow> bool option \<Rightarrow> int \<Rightarrow> rat \<Rightarrow> http_transport" where
  "HttpTransport_init url wid tok session retries retry_delay =
     \<lparr>base_url = rstrip ''/'' url, worker_id = wid, token = tok, refresh_token_value = None,
      session_closed = session, own_session = False,
      headers = [(AUTH_HEADER_WORKER, tok), (AUTH_HEADER_WORKER_ID, wid),
        (PROTOCOL_VERSION_HEADER, PROTOCOL_VERSION)],
      result_retries = retries, result_retry_delay = retry_delay,
      ws_closed = None, version_warning_logged = False, closing = False\<rparr>"

definition http_connect :: "http_transport \<Rightarrow> http_transport" where
  "http_connect s =
     (let s1 = (if session_closed s = None then s\<lparr>session_closed := Some False, own_session := True\<rparr> else s)
      in s1\<lparr>closing := False\<rparr>)"

definition http_close :: "http_transport \<Rightarrow> http_transport" where
  "http_close s =
     (let s0 = s\<lparr>closing := True\<rparr>;
          s1 = (if ws_closed s0 = Some False then s0\<lparr>ws_closed := Some True\<rparr> else s0)
      in if own_session s1 \<and> session_closed s1 = Some False
         then s1\<lparr>session_closed := Some True\<rparr> else s1)"

subsection \<open>Raised errors\<close>

definition auth_error :: "string \<Rightarrow> exn" where
  "auth_error endpoint = mk_rxon RxonAuthError (PStr (''Unauthorized (401) from '' @ endpoint)) None"

definition not_connected :: exn where
  "not_connected = mk_rxon RxonNetworkError (PStr ''Transport not connected. Call connect() first.'') None"

text \<open>The \<open>except\<close> clauses around one attempt of \<open>_request\<close>.\<close>

definition wrap_exn :: "'b http_env \<Rightarrow> string \<Rightarrow> string \<Rightarrow> exn \<Rightarrow> exn" where
  "wrap_exn E method endpoint e =
     (let str_e = exn_str (py_str (e_codec E)) e in
      if is_py ContentTypeError e then
        mk_rxon RxonProtocolError (PStr (''Response is not a valid JSON: '' @ str_e)) None
      else if is_py ClientError e \<or> is_py TimeoutError e then
        mk_rxon RxonNetworkError
          (PStr (''Network error during '' @ method @ '' '' @ endpoint @ '': '' @ str_e)) None
      else if is_rxon RxonError e then e
      else if is_exception e then
        mk_rxon RxonError (PStr (''Unexpected transport error: '' @ str_e)) None
      else e)"

definition map_err :: "('e \<Rightarrow> 'e) \<Rightarrow> 'e + 'a \<Rightarrow> 'e + 'a" where
  "map_err f r = (case r of Inl e \<Rightarrow> Inl (f e) | Inr x \<Rightarrow> Inr x)"

subsection \<open>Status 429\<close>

definition retry_seconds :: "'b http_env \<Rightarrow> http_response \<Rightarrow> flt option" where
  "retry_seconds E resp =
     (case rs_header resp ''Retry-After'' of
        None \<Rightarrow> None
      | Some retry_after \<Rightarrow>
          if retry_after = [] then None
          else case e_float E retry_after of
              Some f \<Rightarrow> Some f
            | None \<Rightarrow> e_date_delay E retry_after)"

text \<open>\<open>max(0.0, x)\<close>: the first argument unless the second is greater.\<close>

definition max_zero :: "flt \<Rightarrow> flt" where
  "max_zero x = (if Fin 0 < x then x else Fin 0)"

definition rate_limit_details :: "nat \<Rightarrow> flt option \<Rightarrow> pyval dict" where
  "rate_limit_details status retry =
     (let d = [(''status'', PInt (int status))]
      in case retry of None \<Rightarrow> d | Some x \<Rightarrow> dset ''retry_after'' (PFloat (max_zero x)) d)"

definition rate_limited :: "'b http_env \<Rightarrow> http_response \<Rightarrow> exn" where
  "rate_limited E resp =
     (let retry = retry_seconds E resp;
          on_error = (\<lambda>e. if is_py ContentTypeError e \<or> is_py ValueError e
            then (case rs_text resp of
                Inl e' \<Rightarrow> e'
              | Inr text \<Rightarrow> mk_rate_limit (PStr (''Rate limit exceeded (429): '' @ text))
                  (Some (rate_limit_details (rs_status resp) retry)))
            else e)
      in case rs_json resp of
          Inl e \<Rightarrow> on_error e
        | Inr (PDict data) \<Rightarrow>
            (let d = rate_limit_details 429 retry;
                 details = (case dget ''code'' data of None \<Rightarrow> d | Some c \<Rightarrow> dset ''code'' c d);
                 error_msg = (case dget ''error'' data of None \<Rightarrow> PNone | Some m \<Rightarrow> m)
             in mk_rate_limit (if truthy error_msg then error_msg else PStr ''Rate limit exceeded'')
                  (Some details))
        | Inr _ \<Rightarrow>
            (case rs_text resp of
               Inl e \<Rightarrow> on_error e
             | Inr text \<Rightarrow> mk_rate_limit (if text \<noteq> [] then PStr text else PStr ''Rate limit exceeded'')
                 (Some (rate_limit_details 429 retry))))"

text \<open>A response other than 401, as the body of the attempt handles it.\<close>

definition handle_status :: "'b http_env \<Rightarrow> http_response \<Rightarrow> exn + pyval" where
  "handle_status E resp =
     (if rs_status resp = 204 then Inr PNone
      else if rs_status resp = 429 then Inl (rate_limited E resp)
      else if rs_status resp \<ge> 400 then
        rbind (rs_text resp) (\<lambda>text. Inl (mk_rxon RxonProtocolError
          (PStr (''HTTP '' @ py_str (e_codec E) (PInt (int (rs_status resp))) @ '': '' @ text))
          (Some [(''status'', PInt (int (rs_status resp)))])))
      else rs_json resp)"

subsection \<open>Tokens\<close>

text \<open>The attribute reads on what \<open>from_dict(TokenResponse, data)\<close> returned.\<close>

definition as_token :: "pyval \<Rightarrow> exn + token_response" where
  "as_token v =
     (case v of
        PStruct c fs \<Rightarrow>
          (case (dget ''access_token'' fs, dget ''expires_in'' fs, dget ''worker_id'' fs, dget ''refresh_token'' fs) of
             (Some (PStr a), Some (PInt x), Some (PStr w), Some r) \<Rightarrow>
               Inr \<lparr>access_token = a, expires_in = x, tr_worker_id = w,
                 refresh_token = (case r of PStr t \<Rightarrow> Some t | _ \<Rightarrow> None)\<rparr>
           | _ \<Rightarrow> Inl (PyExn AttributeError ''no such attribute''))
      | _ \<Rightarrow> Inl (PyExn AttributeError ''no such attribute''))"

definition parse_token :: "'b http_env \<Rightarrow> pyval \<Rightarrow> exn + token_response" where
  "parse_token E data = rbind (from_dict (py_str (e_codec E)) (e_token_cls E) data) as_token"

definition set_token :: "token_response \<Rightarrow> http_transport \<Rightarrow> http_transport" where
  "set_token res s = s\<lparr>token := access_token res, refresh_token_value := refresh_token res,
     headers := dset AUTH_HEADER_WORKER (access_token res) (headers s)\<rparr>"

fun str_given :: "string option \<Rightarrow> bool" where
  "str_given None = False"
| "str_given (Some s) = (s \<noteq> [])"

definition refresh_request :: "http_transport \<Rightarrow> http_request" where
  "refresh_request s =
     \<lparr>rq_method = ''POST'',
      rq_url = base_url s @ (if str_given (refresh_token_value s) then STS_REFRESH_ENDPOINT else STS_TOKEN_ENDPOINT),
      rq_params = None,
      rq_json = (if str_given (refresh_token_value s)
        then Some (PDict [(''refresh_token'', PStr (the (refresh_token_value s)))]) else None),
      rq_headers = dset AUTH_HEADER_WORKER_ID (worker_id s) (headers s),
      rq_timeout = None\<rparr>"

definition http_refresh_token ::
  "'b http_env \<Rightarrow> http_transport \<Rightarrow> world \<Rightarrow> (exn + token_response option) \<times> http_transport \<times> world" where
  "http_refresh_token E s w =
     (if session_closed s = None then (Inr None, s, w)
      else case exchange w (refresh_request s) of
        (outcome, w') \<Rightarrow>
          (case rbind outcome (\<lambda>resp. if rs_status resp = 200
               then rbind (rs_json resp) (\<lambda>data. rbind (parse_token E data) (\<lambda>res. Inr (Some res)))
               else Inr None) of
             Inl e \<Rightarrow> (if is_exception e then Inr None else Inl e, s, w')
           | Inr None \<Rightarrow> (Inr None, s, w')
           | Inr (Some res) \<Rightarrow> (Inr (Some res), set_token res s, w')))"

subsection \<open>\<open>_request\<close>\<close>

definition note_version :: "http_response \<Rightarrow> http_transport \<Rightarrow> http_transport" where
  "note_version resp s =
     (case rs_header resp PROTOCOL_VERSION_HEADER of
        None \<Rightarrow> s
      | Some v \<Rightarrow> if v \<noteq> [] \<and> v \<noteq> PROTOCOL_VERSION \<and> \<not> version_warning_logged s
          then s\<lparr>version_warning_logged := True\<rparr> else s)"

record call =
  c_method :: string
  c_endpoint :: string
  c_params :: "pyval dict option"
  c_json :: "pyval option"
  c_timeout :: "rat option"

definition call_request :: "call \<Rightarrow> http_transport \<Rightarrow> string dict \<Rightarrow> http_request" where
  "call_request c s hdrs = \<lparr>rq_method = c_method c, rq_url = base_url s @ c_endpoint c,
     rq_params = c_params c, rq_json = c_json c, rq_headers = hdrs, rq_timeout = c_timeout c\<rparr>"

fun request_loop ::
  "'b http_env \<Rightarrow> call \<Rightarrow> nat list \<Rightarrow> string dict \<Rightarrow> http_transport \<Rightarrow> world \<Rightarrow>
     (exn + pyval) \<times> http_transport \<times> world" where
  "request_loop E c [] hdrs s w = (Inr PNone, s, w)"
| "request_loop E c (attempt # attempts) hdrs s w =
     (case exchange w (call_request c s hdrs) of
        (Inl e, w1) \<Rightarrow> (Inl (wrap_exn E (c_method c) (c_endpoint c) e), s, w1)
      | (Inr resp, w1) \<Rightarrow>
          (let s1 = note_version resp s in
           if rs_status resp = 401 then
             (if attempt = 0 then
                (case http_refresh_token E s1 w1 of
                   (Inl e, s2, w2) \<Rightarrow> (Inl (wrap_exn E (c_method c) (c_endpoint c) e), s2, w2)
                 | (Inr (Some _), s2, w2) \<Rightarrow> request_loop E c attempts (headers s2) s2 w2
                 | (Inr None, s2, w2) \<Rightarrow> (Inl (auth_error (c_endpoint c)), s2, w2))
              else (Inl (auth_error (c_endpoint c)), s1, w1))
           else (map_err (wrap_exn E (c_method c) (c_endpoint c)) (handle_status E resp), s1, w1)))"

definition http_request_call ::
  "'b http_env \<Rightarrow> call \<Rightarrow> http_transport \<Rightarrow> world \<Rightarrow> (exn + pyval) \<times> http_transport \<times> world" where
  "http_request_call E c s w =
     (if session_closed s = None then (Inl not_connected, s, w)
      else request_loop E c [0, 1] (headers s) s w)"


subsection \<open>The operations\<close>

fun has_access_token :: "pyval \<Rightarrow> bool" where
  "has_access_token (PDict d) = (dget ''access_token'' d \<noteq> None)"
| "has_access_token _ = False"

definition register_call :: "pyval \<Rightarrow> call" where
  "register_call registration = \<lparr>c_method = ''POST'', c_endpoint = ENDPOINT_WORKER_REGISTER,
     c_params = None, c_json = Some registration, c_timeout = None\<rparr>"

definition http_register ::
  "'b http_env \<Rightarrow> pyval \<Rightarrow> http_transport \<Rightarrow> world \<Rightarrow> (exn + pyval) \<times> http_transport \<times> world" where
  "http_register E registration s w =
     (case http_request_call E (register_call registration) s w of
        (Inl e, s1, w1) \<Rightarrow> (Inl e, s1, w1)
      | (Inr resp, s1, w1) \<Rightarrow>
          if has_access_token resp then
            (case parse_token E resp of
               Inl e \<Rightarrow> (if is_exception e then Inr resp else Inl e, s1, w1)
             | Inr res \<Rightarrow> (Inr resp, set_token res s1, w1))
          else (Inr resp, s1, w1))"

definition skills_param :: "string \<Rightarrow> string list option \<Rightarrow> pyval dict \<Rightarrow> pyval dict" where
  "skills_param name skills d =
     (case skills of None \<Rightarrow> d | Some xs \<Rightarrow> dset name (PStr (join '','' xs)) d)"

definition poll_call :: "http_transport \<Rightarrow> rat \<Rightarrow> string list option \<Rightarrow> string list option \<Rightarrow> call" where
  "poll_call s timeout available_skills hot_skills =
     \<lparr>c_method = ''GET'', c_endpoint = format_worker_id ENDPOINT_TASK_NEXT (worker_id s),
      c_params = Some (skills_param ''hot_skills'' hot_skills
        (skills_param ''available_skills'' available_skills [(''timeout'', PFloat (Fin timeout))])),
      c_json = None, c_timeout = Some (timeout + 5)\<rparr>"

definition http_poll_task ::
  "'b http_env \<Rightarrow> rat \<Rightarrow> string list option \<Rightarrow> string list option \<Rightarrow> http_transport \<Rightarrow> world \<Rightarrow>
     (exn + pyval) \<times> http_transport \<times> world" where
  "http_poll_task E timeout available_skills hot_skills s w =
     (case http_request_call E (poll_call s timeout available_skills hot_skills) s w of
        (Inl e, s1, w1) \<Rightarrow> (Inl e, s1, w1)
      | (Inr data, s1, w1) \<Rightarrow>
          (if truthy data then from_dict (py_str (e_codec E)) (e_task_cls E) data else Inr PNone, s1, w1))"

fun is_ignored :: "pyval \<Rightarrow> bool" where
  "is_ignored (PDict d) = (dget ''status'' d = Some (PStr ''ignored''))"
| "is_ignored _ = False"

definition result_call :: "pyval \<Rightarrow> call" where
  "result_call result = \<lparr>c_method = ''POST'', c_endpoint = ENDPOINT_TASK_RESULT,
     c_params = None, c_json = Some result, c_timeout = None\<rparr>"

text \<open>The retry loop: \<open>n\<close> attempts are left, \<open>i\<close> were made.\<close>

fun send_result_loop ::
  "'b http_env \<Rightarrow> pyval \<Rightarrow> rat \<Rightarrow> nat \<Rightarrow> nat \<Rightarrow> exn option \<Rightarrow> http_transport \<Rightarrow> world \<Rightarrow>
     (exn + bool) \<times> http_transport \<times> world" where
  "send_result_loop E result wait 0 i last_error s w =
     ((case last_error of Some e \<Rightarrow> Inl e | None \<Rightarrow> Inr False), s, w)"
| "send_result_loop E result wait (Suc n) i last_error s w =
     (case http_request_call E (result_call result) s w of
        (Inr resp, s1, w1) \<Rightarrow> (Inr (\<not> is_ignored resp), s1, w1)
      | (Inl e, s1, w1) \<Rightarrow>
          if is_rxon RxonNetworkError e
          then send_result_loop E result wait n (Suc i) (Some e) s1
                 (if 0 < n then sleep (wait * 2 ^ i) w1 else w1)
          else (Inl e, s1, w1))"

definition http_send_result ::
  "'b http_env \<Rightarrow> pyval \<Rightarrow> int option \<Rightarrow> rat option \<Rightarrow> http_transport \<Rightarrow> world \<Rightarrow>
     (exn + bool) \<times> http_transport \<times> world" where
  "http_send_result E result max_retries delay s w =
     (let retries = (case max_retries of Some r \<Rightarrow> r | None \<Rightarrow> result_retries s);
          wait = (case delay of Some d \<Rightarrow> d | None \<Rightarrow> result_retry_delay s)
      in send_result_loop E result wait (nat retries) 0 None s w)"

definition heartbeat_call :: "http_transport \<Rightarrow> pyval \<Rightarrow> call" where
  "heartbeat_call s heartbeat = \<lparr>c_method = ''PATCH'',
     c_endpoint = format_worker_id ENDPOINT_WORKER_HEARTBEAT (worker_id s),
     c_params = None, c_json = Some heartbeat, c_timeout = None\<rparr>"

definition http_send_heartbeat ::
  "'b http_env \<Rightarrow> pyval \<Rightarrow> http_transport \<Rightarrow> world \<Rightarrow> (exn + pyval) \<times> http_transport \<times> world" where
  "http_send_heartbeat E heartbeat s w = http_request_call E (heartbeat_call s heartbeat) s w"

definition event_call :: "pyval \<Rightarrow> call" where
  "event_call event = \<lparr>c_method = ''POST'', c_endpoint = ENDPOINT_WORKER_EVENTS,
     c_params = None, c_json = Some event, c_timeout = None\<rparr>"

text \<open>\<open>await ws.send_json(to_dict(event))\<close>.\<close>

definition ws_send :: "'b http_env \<Rightarrow> pyval \<Rightarrow> world \<Rightarrow> (exn + unit) \<times> world" where
  "ws_send E event w =
     (case to_dict (e_codec E) event 0 of
        Inl e \<Rightarrow> (Inl e, w)
      | Inr d \<Rightarrow> (w_ws w (w_log w) d, w\<lparr>w_log := w_log w @ [WsSent d]\<rparr>))"

definition http_emit_event ::
  "'b http_env \<Rightarrow> pyval \<Rightarrow> http_transport \<Rightarrow> world \<Rightarrow> (exn + bool) \<times> http_transport \<times> world" where
  "http_emit_event E event s w =
     (case (if ws_closed s = Some False then ws_send E event w
            else (Inl (PyExn OtherError ''no WebSocket''), w)) of
        (Inr _, w1) \<Rightarrow> (Inr True, s, w1)
      | (Inl e, w1) \<Rightarrow>
          if \<not> is_exception e then (Inl e, s, w1)
          else (case http_request_call E (event_call event) s w1 of
              (Inr _, s2, w2) \<Rightarrow> (Inr True, s2, w2)
            | (Inl e', s2, w2) \<Rightarrow> (if is_rxon RxonError e' then Inr False else Inl e', s2, w2)))"

text \<open>The object and the world after an operation of the interface.\<close>

fun http_step :: "'b http_env \<Rightarrow> transport_op \<Rightarrow> http_transport \<times> world \<Rightarrow> http_transport \<times> world" where
  "http_step E Connect (s, w) = (http_connect s, w)"
| "http_step E Close (s, w) = (http_close s, w)"
| "http_step E (Register r) (s, w) = snd (http_register E r s w)"
| "http_step E (PollTask t a h) (s, w) = snd (http_poll_task E t a h s w)"
| "http_step E (SendResult r) (s, w) = snd (http_send_result E r None None s w)"
| "http_step E (SendHeartbeat h) (s, w) = snd (http_send_heartbeat E h s w)"
| "http_step E (EmitEvent e) (s, w) = snd (http_emit_event E e s w)"
| "http_step E RefreshToken (s, w) = snd (http_refresh_token E s w)"

end
