(* ===== verification/Rxon_Client_Facts.thy ===== *)
theory Rxon_Client_Facts
  imports Rxon_Client
begin

text \<open>
  Facts on \<open>HttpTransport\<close>: which exceptions leave a request, how much it sends, what it
  leaves of the object, and the invariant that ties the headers to the token and every request
  ever sent to the worker.  The last part shows that the class implements the transport
  interface.
\<close>

subsection \<open>What leaves a request\<close>

lemma is_rxon_mk [simp]: "is_rxon RxonError (mk_rxon c m d)"
  unfolding is_rxon_top by (simp add: mk_rxon_def)

lemma is_rxon_mk_rate_limit [simp]: "is_rxon RxonError (mk_rate_limit m d)"
  by (simp add: mk_rate_limit_def Let_def)

lemma is_rxon_auth [simp]: "is_rxon RxonError (auth_error ep)"
  by (simp add: auth_error_def)

text \<open>The exceptions a caller of the transport sees: the package's own, or a cancellation.\<close>

definition surfaced :: "exn \<Rightarrow> bool" where
  "surfaced e \<longleftrightarrow> is_rxon RxonError e \<or> is_py Cancelled e"

lemma surfaced_mk [simp]: "surfaced (mk_rxon c m d)" "surfaced (auth_error ep)"
  by (simp_all add: surfaced_def)

lemma surfaced_wrap [simp]: "surfaced (wrap_exn E m ep e)"
  by (auto simp: wrap_exn_def Let_def surfaced_def is_exception_def)

lemma wrap_surfaced: "is_rxon RxonError e \<Longrightarrow> wrap_exn E m ep e = e"
  unfolding is_rxon_top by (auto simp: wrap_exn_def is_rxon_top)

lemma map_err_Inl: "map_err f r = Inl e \<longleftrightarrow> (\<exists>e'. r = Inl e' \<and> e = f e')"
  by (cases r) (auto simp: map_err_def)

lemma map_err_Inr [simp]: "map_err f r = Inr x \<longleftrightarrow> r = Inr x"
  by (cases r) (auto simp: map_err_def)

lemma refresh_Inl: "http_refresh_token E s w = (Inl e, s', w') \<Longrightarrow> is_py Cancelled e"
  by (auto simp: http_refresh_token_def is_exception_def split: if_splits sum.splits option.splits prod.splits)

lemma request_loop_surfaced: "request_loop E c as hdrs s w = (Inl e, s', w') \<Longrightarrow> surfaced e"
  by (induction E c as hdrs s w rule: request_loop.induct)
    (auto simp: Let_def map_err_Inl split: prod.splits sum.splits option.splits if_splits)

declare request_loop.simps [simp del]

lemma request_surfaced: "http_request_call E c s w = (Inl e, s', w') \<Longrightarrow> surfaced e"
  by (auto simp: http_request_call_def not_connected_def split: if_splits dest: request_loop_surfaced)

subsection \<open>What a request leaves of the object and adds to the log\<close>

definition same_frame :: "http_transport \<Rightarrow> http_transport \<Rightarrow> bool" where
  "same_frame s s' \<longleftrightarrow> base_url s' = base_url s \<and> worker_id s' = worker_id s \<and>
     session_closed s' = session_closed s \<and> own_session s' = own_session s \<and>
     result_retries s' = result_retries s \<and> result_retry_delay s' = result_retry_delay s \<and>
     ws_closed s' = ws_closed s \<and> closing s' = closing s"

lemma same_frame_refl [simp]: "same_frame s s"
  by (simp add: same_frame_def)

lemma same_frame_trans: "same_frame a b \<Longrightarrow> same_frame b c \<Longrightarrow> same_frame a c"
  by (simp add: same_frame_def)

lemma same_frame_set_token [simp]: "same_frame s (set_token r s)"
  by (simp add: same_frame_def set_token_def)

lemma same_frame_note_version [simp]: "same_frame s (note_version r s)"
  by (simp add: same_frame_def note_version_def split: option.splits)

text \<open>The world after some actions: same peer, longer log.\<close>

definition world_after :: "world \<Rightarrow> action list \<Rightarrow> world" where
  "world_after w acts = w\<lparr>w_log := w_log w @ acts\<rparr>"

lemma world_after_Nil [simp]: "world_after w [] = w"
  by (simp add: world_after_def)

lemma world_after_append [simp]: "world_after (world_after w a) b = world_after w (a @ b)"
  by (simp add: world_after_def)

lemma world_after_sel [simp]: "w_peer (world_after w a) = w_peer w" "w_ws (world_after w a) = w_ws w"
  "w_log (world_after w a) = w_log w @ a"
  by (simp_all add: world_after_def)

lemma exchange_eq: "exchange w rq = (w_peer w (w_log w) rq, world_after w [Sent rq])"
  by (simp add: exchange_def world_after_def)

lemma sleep_eq: "sleep d w = world_after w [Slept d]"
  by (simp add: sleep_def world_after_def)

lemma refresh_effect:
  "http_refresh_token E s w = (r, s', w') \<Longrightarrow>
    same_frame s s' \<and>
    w' = world_after w (if session_closed s = None then [] else [Sent (refresh_request s)]) \<and>
    (case r of Inr (Some res) \<Rightarrow> s' = set_token res s | _ \<Rightarrow> s' = s)"
  by (auto simp: http_refresh_token_def exchange_eq split: if_splits sum.splits option.splits prod.splits)

lemma request_loop_effect:
  "request_loop E c as hdrs s w = (r, s', w') \<Longrightarrow>
    same_frame s s' \<and> (\<exists>rqs. w' = world_after w (map Sent rqs) \<and> length rqs \<le> length as + count_list as 0)"
proof (induction as arbitrary: hdrs s w r s' w')
  case Nil
  then show ?case by (auto simp: request_loop.simps intro: exI [of _ "[]"])
next
  case (Cons attempt as)
  note step = Cons.prems [unfolded request_loop.simps exchange_eq]
  let ?rq = "call_request c s hdrs"
  show ?case
  proof (cases "w_peer w (w_log w) ?rq")
    case (Inl e)
    with step show ?thesis by (auto intro: exI [of _ "[?rq]"])
  next
    case (Inr resp)
    let ?s1 = "note_version resp s" and ?w1 = "world_after w [Sent ?rq]"
    obtain rr s2 w2 where ref: "http_refresh_token E ?s1 ?w1 = (rr, s2, w2)" by (cases "http_refresh_token E ?s1 ?w1")
    note eff = refresh_effect [OF ref]
    from eff obtain rqs0 where w2: "w2 = world_after ?w1 (map Sent rqs0)" "length rqs0 \<le> 1"
      by (cases "session_closed ?s1 = None") (auto intro: that [of "[]"] that [of "[refresh_request ?s1]"])
    have f2: "same_frame s s2" using eff same_frame_trans same_frame_note_version by blast
    consider (more) res where "rs_status resp = 401" "attempt = 0" "rr = Inr (Some res)"
      | (stop) "rs_status resp = 401" "attempt = 0" "s' = s2" "w' = w2"
      | (one) "s' = ?s1" "w' = ?w1"
      using step Inr ref by (auto simp: Let_def split: if_splits sum.splits option.splits)
    then show ?thesis
    proof cases
      case more
      with step Inr ref have "request_loop E c as (headers s2) s2 w2 = (r, s', w')" by simp
      from Cons.IH [OF this] obtain rqs where rqs: "same_frame s2 s'" "w' = world_after w2 (map Sent rqs)"
        "length rqs \<le> length as + count_list as 0" by blast
      then have "w' = world_after w (map Sent (?rq # rqs0 @ rqs))" using w2 by simp
      moreover have "length (?rq # rqs0 @ rqs) \<le> length (attempt # as) + count_list (attempt # as) 0"
        using rqs(3) w2(2) more(2) by simp
      ultimately show ?thesis using f2 rqs(1) same_frame_trans by blast
    next
      case stop
      then have "w' = world_after w (map Sent (?rq # rqs0))" using w2 by simp
      moreover have "length (?rq # rqs0) \<le> length (attempt # as) + count_list (attempt # as) 0"
        using w2(2) stop by simp
      ultimately show ?thesis using f2 stop(3) by blast
    next
      case one
      then have "w' = world_after w (map Sent [?rq])" by simp
      moreover have "length [?rq] \<le> length (attempt # as) + count_list (attempt # as) 0" by simp
      ultimately show ?thesis using one(1) same_frame_note_version by blast
    qed
  qed
qed

lemma request_effect:
  assumes "http_request_call E c s w = (r, s', w')"
  shows "same_frame s s' \<and> (\<exists>rqs. w' = world_after w (map Sent rqs) \<and> length rqs \<le> 3)"
proof (cases "session_closed s = None")
  case True
  with assms show ?thesis by (auto simp: http_request_call_def intro: exI [of _ "[]"])
next
  case False
  with assms have "request_loop E c [0, 1] (headers s) s w = (r, s', w')"
    by (simp add: http_request_call_def)
  from request_loop_effect [OF this] show ?thesis by auto
qed


subsection \<open>The invariant\<close>

definition identified :: "string \<Rightarrow> string dict \<Rightarrow> bool" where
  "identified wid h \<longleftrightarrow> dget AUTH_HEADER_WORKER_ID h = Some wid \<and>
     dget PROTOCOL_VERSION_HEADER h = Some PROTOCOL_VERSION"

definition coherent :: "http_transport \<Rightarrow> bool" where
  "coherent s \<longleftrightarrow> dget AUTH_HEADER_WORKER (headers s) = Some (token s) \<and>
     identified (worker_id s) (headers s)"

definition http_inv :: "http_transport \<times> world \<Rightarrow> bool" where
  "http_inv = (\<lambda>(s, w). coherent s \<and>
     (\<forall>rq. Sent rq \<in> set (w_log w) \<longrightarrow> identified (worker_id s) (rq_headers rq)))"

lemma coherent_set_token [simp]: "coherent s \<Longrightarrow> coherent (set_token r s)"
  by (simp add: coherent_def identified_def set_token_def)

lemma coherent_note_version [simp]: "coherent (note_version r s) = coherent s"
  by (simp add: coherent_def note_version_def split: option.splits)

lemma worker_id_note_version [simp]: "worker_id (note_version r s) = worker_id s"
  by (simp add: note_version_def split: option.splits)

lemma worker_id_set_token [simp]: "worker_id (set_token r s) = worker_id s"
  by (simp add: set_token_def)

lemma http_inv_note_version [simp]: "http_inv (note_version r s, w) = http_inv (s, w)"
  by (simp add: http_inv_def)

lemma http_inv_set_token [intro]: "http_inv (s, w) \<Longrightarrow> http_inv (set_token r s, w)"
  by (simp add: http_inv_def)

lemma http_inv_sent:
  "http_inv (s, w) \<Longrightarrow> identified (worker_id s) (rq_headers rq) \<Longrightarrow> http_inv (s, world_after w [Sent rq])"
  by (auto simp: http_inv_def)

lemma http_inv_other:
  "http_inv (s, w) \<Longrightarrow> (\<And>rq. a \<noteq> Sent rq) \<Longrightarrow> http_inv (s, world_after w [a])"
  by (auto simp: http_inv_def)

lemma http_inv_headers: "http_inv (s, w) \<Longrightarrow> identified (worker_id s) (headers s)"
  by (simp add: http_inv_def coherent_def)

lemma refresh_request_identified:
  "coherent s \<Longrightarrow> identified (worker_id s) (rq_headers (refresh_request s))"
  by (simp add: coherent_def identified_def refresh_request_def)

lemma http_inv_coherent: "http_inv (s, w) \<Longrightarrow> coherent s"
  by (simp add: http_inv_def)

lemma refresh_inv:
  assumes "http_refresh_token E s w = (r, s', w')" and "http_inv (s, w)"
  shows "http_inv (s', w')"
proof -
  have "http_inv (s, w')"
    using refresh_effect [OF assms(1)] assms(2)
    by (auto intro: http_inv_sent refresh_request_identified http_inv_coherent split: if_splits)
  then show ?thesis
    using refresh_effect [OF assms(1)] by (auto split: sum.splits option.splits)
qed

lemma request_loop_inv:
  "request_loop E c as hdrs s w = (r, s', w') \<Longrightarrow> identified (worker_id s) hdrs \<Longrightarrow> http_inv (s, w) \<Longrightarrow>
    http_inv (s', w')"
proof (induction as arbitrary: hdrs s w)
  case Nil
  then show ?case by (simp add: request_loop.simps)
next
  case (Cons attempt as)
  note step = Cons.prems(1) [unfolded request_loop.simps exchange_eq]
  let ?rq = "call_request c s hdrs"
  have inv1: "http_inv (s, world_after w [Sent ?rq])"
    using Cons.prems(2,3) by (intro http_inv_sent) (auto simp: call_request_def)
  show ?case
  proof (cases "w_peer w (w_log w) ?rq")
    case (Inl e)
    with step inv1 show ?thesis by auto
  next
    case (Inr resp)
    obtain rr s2 w2 where ref: "http_refresh_token E (note_version resp s) (world_after w [Sent ?rq]) = (rr, s2, w2)"
      by (cases "http_refresh_token E (note_version resp s) (world_after w [Sent ?rq])")
    with inv1 have inv2: "http_inv (s2, w2)" by (auto intro: refresh_inv)
    consider res where "request_loop E c as (headers s2) s2 w2 = (r, s', w')"
      | "s' = s2" "w' = w2" | "s' = note_version resp s" "w' = world_after w [Sent ?rq]"
      using step Inr ref by (auto simp: Let_def split: if_splits sum.splits option.splits)
    then show ?thesis
      using Cons.IH inv1 inv2 by cases (auto intro: http_inv_headers)
  qed
qed

lemma request_inv:
  "http_request_call E c s w = (r, s', w') \<Longrightarrow> http_inv (s, w) \<Longrightarrow> http_inv (s', w')"
  by (auto simp: http_request_call_def split: if_splits intro: request_loop_inv http_inv_headers)

subsection \<open>What every operation keeps\<close>

text \<open>
  An operation calls \<open>_request\<close>, \<open>refresh_token\<close>, the WebSocket, \<open>sleep\<close>, and installs tokens; what
  these keep, it keeps.
\<close>

definition client_call :: "http_transport \<Rightarrow> call \<Rightarrow> bool" where
  "client_call s c \<longleftrightarrow> (\<exists>v. c = register_call v \<or> c = result_call v \<or> c = event_call v \<or> c = heartbeat_call s v) \<or>
     (\<exists>t a h. c = poll_call s t a h)"

lemma client_callI [simp]: "client_call s (register_call v)" "client_call s (result_call v)" "client_call s (event_call v)"
    "client_call s (heartbeat_call s v)" "client_call s (poll_call s t a h)"
  by (auto simp: client_call_def)

locale kept =
  fixes E :: "'b http_env" and I :: "http_transport \<times> world \<Rightarrow> bool"
  assumes connect: "I (s, w) \<Longrightarrow> I (http_connect s, w)"
    and close: "I (s, w) \<Longrightarrow> I (http_close s, w)"
    and install: "I (s, w) \<Longrightarrow> I (set_token res s, w)"
    and slept: "I (s, w) \<Longrightarrow> I (s, world_after w [Slept d])"
    and ws_sent: "I (s, w) \<Longrightarrow> I (s, world_after w [WsSent v])"
    and request: "http_request_call E c s w = (r, s', w') \<Longrightarrow> client_call s c \<Longrightarrow> I (s, w) \<Longrightarrow> I (s', w')"
    and refresh: "http_refresh_token E s w = (tok, s', w') \<Longrightarrow> I (s, w) \<Longrightarrow> I (s', w')"
begin

lemma result_loop: "I (s, w) \<Longrightarrow> I (snd (send_result_loop E result wait n i le s w))"
proof (induction n arbitrary: i le s w)
  case (Suc n)
  obtain r s1 w1 where rq: "http_request_call E (result_call result) s w = (r, s1, w1)"
    by (cases "http_request_call E (result_call result) s w")
  from request [OF this] Suc.prems have 1: "I (s1, w1)" by simp
  then have "I (s1, if 0 < n then sleep (wait * 2 ^ i) w1 else w1)"
    by (auto simp: sleep_eq intro: slept)
  with 1 rq show ?case by (auto split: sum.split intro: Suc.IH)
qed simp

lemma emit: "I (s, w) \<Longrightarrow> I (snd (http_emit_event E e s w))"
proof -
  assume inv: "I (s, w)"
  obtain r1 w1 where ws: "(if ws_closed s = Some False then ws_send E e w
      else (Inl (PyExn OtherError ''no WebSocket''), w)) = (r1, w1)" by fastforce
  then have "w1 = w \<or> (\<exists>d. w1 = world_after w [WsSent d])"
    by (auto simp: ws_send_def world_after_def split: if_splits sum.splits)
  with inv have i1: "I (s, w1)" by (auto intro: ws_sent)
  obtain r2 s2 w2 where rq: "http_request_call E (event_call e) s w1 = (r2, s2, w2)"
    by (cases "http_request_call E (event_call e) s w1")
  from request [OF rq] i1 have "I (s2, w2)" by simp
  with i1 rq show ?thesis unfolding http_emit_event_def ws by (simp split: sum.split)
qed

lemma step: "I sw \<Longrightarrow> I (http_step E op sw)"
proof -
  assume inv: "I sw"
  obtain s w where sw: "sw = (s, w)" by (cases sw)
  have rq: "I (snd (http_request_call E c s w))" if "client_call s c" for c
    using request [OF _ that] inv sw by (cases "http_request_call E c s w") simp
  show ?thesis
  proof (cases op)
    case (Register r)
    with sw rq [of "register_call r"] show ?thesis
      by (auto simp: http_register_def install split: prod.splits sum.splits)
  next
    case (PollTask t a h)
    with sw rq [of "poll_call s t a h"] show ?thesis
      by (auto simp: http_poll_task_def split: prod.splits sum.splits)
  next
    case RefreshToken
    with sw inv refresh show ?thesis by (cases "http_refresh_token E s w") simp
  qed (use sw inv rq in \<open>simp_all add: connect close emit result_loop http_send_result_def Let_def http_send_heartbeat_def\<close>)
qed

lemma run: "I sw \<Longrightarrow> I (fold (http_step E) ops sw)"
  by (induction ops arbitrary: sw) (simp_all add: step)

end

interpretation http_invariant: kept E http_inv for E :: "'b http_env"
proof unfold_locales
  show "http_inv (s, w) \<Longrightarrow> http_inv (http_connect s, w)" "http_inv (s, w) \<Longrightarrow> http_inv (http_close s, w)" for s w
    by (simp_all add: http_inv_def coherent_def http_connect_def http_close_def Let_def)
qed (auto intro: http_inv_other request_inv refresh_inv)

lemma same_frame_worker: "same_frame s s' \<Longrightarrow> worker_id s' = worker_id s"
  by (simp add: same_frame_def)

interpretation same_worker: kept E "\<lambda>sw. worker_id (fst sw) = wid" for E :: "'b http_env" and wid :: string
  by unfold_locales
    (auto simp: http_connect_def http_close_def Let_def dest!: request_effect refresh_effect same_frame_worker)

subsection \<open>The class is a transport\<close>

definition http_refreshed :: "'b http_env \<Rightarrow> http_transport \<times> world \<Rightarrow> string option" where
  "http_refreshed E = (\<lambda>(s, w). case fst (http_refresh_token E s w) of
     Inr (Some res) \<Rightarrow> Some (access_token res) | _ \<Rightarrow> None)"

lemma http_refresh_installs:
  "token (fst (http_step E RefreshToken sw)) =
     (case http_refreshed E sw of None \<Rightarrow> token (fst sw) | Some t \<Rightarrow> t)"
proof -
  obtain s w where sw: "sw = (s, w)" by (cases sw)
  obtain r s' w' where r: "http_refresh_token E s w = (r, s', w')" by (cases "http_refresh_token E s w")
  from refresh_effect [OF r] r sw show ?thesis
    by (auto simp: http_refreshed_def set_token_def split: sum.splits option.splits)
qed

interpretation http: transport "http_step E" "\<lambda>sw. worker_id (fst sw)" "\<lambda>sw. token (fst sw)"
    "http_refreshed E" http_inv for E :: "'b http_env"
  by unfold_locales (rule same_worker.step http_invariant.step http_refresh_installs refl | assumption)+

end
