(* ===== verification/Rxon_Client_Props.thy ===== *)
theory Rxon_Client_Props
  imports Rxon_Client_Facts
begin

text \<open>
  The properties of \<open>HttpTransport\<close>, each with a closed instance: the request loop and its
  errors, the token refresh on 401, the rate limit, the retries of a result, the life cycle.
\<close>

subsection \<open>Closed instances\<close>

definition plain_cls :: "string \<Rightarrow> pycls" where
  "plain_cls name = \<lparr>cls_name = name, cls_is_struct = True,
     cls_isinstance = (\<lambda>v. case v of PStruct n fs \<Rightarrow> Inr (n = name) | _ \<Rightarrow> Inr False),
     cls_convert = (\<lambda>v. case v of
         PDict d \<Rightarrow> if dget ''access_token'' d = None then Inl (PyExn MsgspecError ''missing field'')
           else Inr (PStruct name (if dget ''refresh_token'' d = None then d @ [(''refresh_token'', PNone)] else d))
       | _ \<Rightarrow> Inl (PyExn MsgspecError ''expected object''))\<rparr>"

definition plain_env :: "pyval http_env" where
  "plain_env = \<lparr>e_codec = plain_codec, e_token_cls = plain_cls ''TokenResponse'',
     e_task_cls = plain_cls ''TaskPayload'',
     e_float = (\<lambda>s. if s = ''2.5'' then Some (Fin (5 / 2)) else None), e_date_delay = (\<lambda>s. None)\<rparr>"

definition reply :: "nat \<Rightarrow> pyval \<Rightarrow> http_response" where
  "reply st v = \<lparr>rs_status = st, rs_header = (\<lambda>h. None), rs_json = Inr v, rs_text = Inr ''text''\<rparr>"

definition w_of :: "(action list \<Rightarrow> http_request \<Rightarrow> exn + http_response) \<Rightarrow> world" where
  "w_of peer = \<lparr>w_peer = peer, w_ws = (\<lambda>l v. Inr ()), w_log = []\<rparr>"

definition s0 :: http_transport where
  "s0 = http_connect (HttpTransport_init ''http://h/'' ''w1'' ''t0'' None 3 (1 / 10))"

definition ping :: call where
  "ping = \<lparr>c_method = ''POST'', c_endpoint = ''/x'', c_params = None, c_json = None, c_timeout = None\<rparr>"

lemma reply_sel [simp]: "rs_status (reply st v) = st" "rs_header (reply st v) h = None"
  "rs_json (reply st v) = Inr v" "rs_text (reply st v) = Inr ''text''"
  by (simp_all add: reply_def)

lemma s0_open [simp]: "session_closed s0 = Some False"
  by (simp add: s0_def http_connect_def HttpTransport_init_def)

subsection \<open>Properties\<close>

lemma init_inv: "http_inv (HttpTransport_init url wid tok session retries delay, w\<lparr>w_log := []\<rparr>)"
  by (simp add: http_inv_def coherent_def identified_def HttpTransport_init_def dget_def)

text \<open>
  C11: After any sequence of operations of a transport, every request it ever sent carries the
  worker's identity and the protocol version, and its authentication header holds the current
  token.
\<close>
theorem every_request_identified:
  assumes "fold (http_step E) ops (HttpTransport_init url wid tok session retries delay, w\<lparr>w_log := []\<rparr>) = (s', w')"
  shows "worker_id s' = wid \<and> dget AUTH_HEADER_WORKER (headers s') = Some (token s') \<and>
    (\<forall>rq. Sent rq \<in> set (w_log w') \<longrightarrow>
       dget AUTH_HEADER_WORKER_ID (rq_headers rq) = Some wid \<and>
       dget PROTOCOL_VERSION_HEADER (rq_headers rq) = Some PROTOCOL_VERSION)"
proof -
  have "http_inv (fold (http_step E) ops (HttpTransport_init url wid tok session retries delay, w\<lparr>w_log := []\<rparr>))"
    by (rule http.run_inv [OF init_inv])
  with assms have "http_inv (s', w')" by simp
  moreover have "worker_id s' = wid"
    using http.run_identity [of E ops "(HttpTransport_init url wid tok session retries delay, w\<lparr>w_log := []\<rparr>)"] assms
    by (simp add: HttpTransport_init_def)
  ultimately show ?thesis by (simp add: http_inv_def coherent_def identified_def)
qed

theorem every_request_identified_witness:
  "\<exists>s' w'. fold (http_step plain_env) [Connect, SendHeartbeat PNone]
      (HttpTransport_init ''http://h'' ''w1'' ''t0'' None 3 0, (w_of (\<lambda>l rq. Inr (reply 200 PNone)))\<lparr>w_log := []\<rparr>) = (s', w') \<and>
    worker_id s' = ''w1''"
proof -
  obtain s' w' where f: "fold (http_step plain_env) [Connect, SendHeartbeat PNone]
      (HttpTransport_init ''http://h'' ''w1'' ''t0'' None 3 0, (w_of (\<lambda>l rq. Inr (reply 200 PNone)))\<lparr>w_log := []\<rparr>) = (s', w')"
    by fastforce
  with every_request_identified [OF f] show ?thesis by blast
qed

text \<open>
  The request loop never reaches a third attempt: a longer list of attempts gives the same result
  as range(2).
\<close>
theorem request_loop_two_attempts:
  "request_loop E c (0 # 1 # attempts) hdrs s w = request_loop E c [0, 1] hdrs s w"
proof -
  have "request_loop E c (Suc 0 # attempts) hdrs s w = request_loop E c [Suc 0] hdrs s w" for hdrs s w
    by (simp add: request_loop.simps Let_def split: prod.split sum.split)
  then show ?thesis
    by (simp add: request_loop.simps(2) [of _ _ 0] Let_def split: prod.split sum.split option.split)
qed

text \<open>
  One request sends at most three HTTP requests (the call, one token refresh, one repetition), and
  changes nothing of the transport but the token, its header and the version flag.
\<close>
theorem request_sends_at_most_three:
  "\<exists>rqs. snd (snd (http_request_call E c s w)) = world_after w (map Sent rqs) \<and> length rqs \<le> 3 \<and>
     same_frame s (fst (snd (http_request_call E c s w)))"
  using request_effect [of E c s w "fst (http_request_call E c s w)" "fst (snd (http_request_call E c s w))"
      "snd (snd (http_request_call E c s w))"] by auto

text \<open>
  C29: Whatever the network, the peer or the JSON parser raises, an error that leaves a request is
  one of the package's own classes or a cancellation.
\<close>
theorem request_errors_surface:
  assumes "http_request_call E c s w = (Inl e, s', w')"
  shows "is_rxon RxonError e \<or> is_py Cancelled e"
  using request_surfaced [OF assms] by (simp add: surfaced_def)

theorem request_errors_surface_witness:
  "is_rxon RxonError (wrap_exn plain_env ''POST'' ''/x'' (PyExn ClientError ''refused''))"
proof -
  have h: "http_request_call plain_env ping s0 (w_of (\<lambda>l rq. Inl (PyExn ClientError ''refused''))) =
    (Inl (wrap_exn plain_env ''POST'' ''/x'' (PyExn ClientError ''refused'')), s0,
     world_after (w_of (\<lambda>l rq. Inl (PyExn ClientError ''refused''))) [Sent (call_request ping s0 (headers s0))])"
    by (simp add: http_request_call_def request_loop.simps exchange_eq ping_def w_of_def)
  from request_errors_surface [OF h] show ?thesis by (auto simp: wrap_exn_def mk_rxon_def)
qed

text \<open>
  C23: On status 401 with a successful refresh, the request is repeated once with the new token:
  its outcome is that of the second reply, a second 401 is an authentication error, and the
  headers hold the token the refresh returned.
\<close>
theorem request_401_refreshes_once:
  assumes "session_closed s \<noteq> None"
    and "w_peer w (w_log w) (call_request c s (headers s)) = Inr resp1" and "rs_status resp1 = 401"
    and ref: "http_refresh_token E (note_version resp1 s)
        (world_after w [Sent (call_request c s (headers s))]) = (Inr (Some res), s2, w2)"
    and "w_peer w2 (w_log w2) (call_request c s2 (headers s2)) = Inr resp2"
  shows "http_request_call E c s w =
      (if rs_status resp2 = 401 then Inl (auth_error (c_endpoint c))
       else map_err (wrap_exn E (c_method c) (c_endpoint c)) (handle_status E resp2),
       note_version resp2 s2, world_after w2 [Sent (call_request c s2 (headers s2))]) \<and>
    dget AUTH_HEADER_WORKER (headers s2) = Some (access_token res) \<and> token s2 = access_token res"
proof -
  have "s2 = set_token res (note_version resp1 s)" using refresh_effect [OF ref] by simp
  then have "dget AUTH_HEADER_WORKER (headers s2) = Some (access_token res) \<and> token s2 = access_token res"
    by (simp add: set_token_def)
  with assms show ?thesis
    by (auto simp add: http_request_call_def request_loop.simps exchange_eq Let_def)
qed

definition expired_peer :: "action list \<Rightarrow> http_request \<Rightarrow> exn + http_response" where
  "expired_peer l rq =
     (if rq_url rq = ''http://h'' @ STS_TOKEN_ENDPOINT
      then Inr (reply 200 (PDict [(''access_token'', PStr ''t1''), (''expires_in'', PInt 300), (''worker_id'', PStr ''w1'')]))
      else if dget AUTH_HEADER_WORKER (rq_headers rq) = Some ''t1'' then Inr (reply 200 (PStr ''ok''))
      else Inr (reply 401 PNone))"

lemmas client_eval = exchange_eq expired_peer_def call_request_def ping_def s0_def http_connect_def
  HttpTransport_init_def note_version_def w_of_def plain_env_def plain_cls_def parse_token_def from_dict_def
  as_token_def set_token_def http_refresh_token_def refresh_request_def dget_def endpoint_defs header_defs
  rstrip_def lstrip_def world_after_def

theorem request_401_refreshes_once_witness:
  "fst (http_request_call plain_env ping s0 (w_of expired_peer)) = Inr (PStr ''ok'')"
proof -
  let ?s2 = "set_token \<lparr>access_token = ''t1'', expires_in = 300, tr_worker_id = ''w1'', refresh_token = None\<rparr> s0"
  let ?w1 = "world_after (w_of expired_peer) [Sent (call_request ping s0 (headers s0))]"
  have ref: "http_refresh_token plain_env (note_version (reply 401 PNone) s0) ?w1 =
      (Inr (Some \<lparr>access_token = ''t1'', expires_in = 300, tr_worker_id = ''w1'', refresh_token = None\<rparr>), ?s2,
       world_after ?w1 [Sent (refresh_request s0)])"
    by (simp add: client_eval)
  have h: "session_closed s0 \<noteq> None"
    "w_peer (w_of expired_peer) (w_log (w_of expired_peer)) (call_request ping s0 (headers s0)) = Inr (reply 401 PNone)"
    "w_peer (world_after ?w1 [Sent (refresh_request s0)]) (w_log (world_after ?w1 [Sent (refresh_request s0)]))
       (call_request ping ?s2 (headers ?s2)) = Inr (reply 200 (PStr ''ok''))"
    by (simp_all add: client_eval)
  from request_401_refreshes_once [OF h(1,2) _ ref h(3)] show ?thesis
    by (simp add: map_err_def handle_status_def)
qed

text \<open>
  Status 429 always ends in RxonRateLimitError with status 429, an error code, and the delay of
  Retry-After when one can be read, never negative, whatever the body is.
\<close>
theorem rate_limit_reported:
  assumes "rs_status resp = 429" and "rs_text resp = Inr text"
    and "\<And>e. rs_json resp = Inl e \<Longrightarrow> is_py ContentTypeError e \<or> is_py ValueError e"
  shows "\<exists>m d. handle_status E resp = Inl (RxonExn RxonRateLimitError m d) \<and>
    dget ''status'' d = Some (PInt 429) \<and> dget ''code'' d \<noteq> None \<and>
    dget ''retry_after'' d = map_option (\<lambda>x. PFloat (max_zero x)) (retry_seconds E resp) \<and>
    (\<forall>x. Fin 0 \<le> max_zero x)"
proof -
  have details: "dget ''status'' (rate_limit_details 429 r) = Some (PInt 429)"
    "dget ''retry_after'' (rate_limit_details 429 r) = map_option (\<lambda>x. PFloat (max_zero x)) r"
    "dget ''code'' (rate_limit_details 429 r) = None" for r
    by (auto simp: rate_limit_details_def dget_def Let_def split: option.splits)
  have code: "\<exists>d. mk_rate_limit m (Some (rate_limit_details 429 r)) = RxonExn RxonRateLimitError m d \<and>
      dget ''status'' d = Some (PInt 429) \<and> dget ''code'' d \<noteq> None \<and>
      dget ''retry_after'' d = map_option (\<lambda>x. PFloat (max_zero x)) r"
    "\<exists>d. mk_rate_limit m (Some (dset ''code'' v (rate_limit_details 429 r))) = RxonExn RxonRateLimitError m d \<and>
      dget ''status'' d = Some (PInt 429) \<and> dget ''code'' d \<noteq> None \<and>
      dget ''retry_after'' d = map_option (\<lambda>x. PFloat (max_zero x)) r" for m r v
    by (simp_all add: mk_rate_limit_simp details)
  have "Fin 0 \<le> max_zero x" for x
    by (auto simp: max_zero_def less_eq_flt_def)
  moreover have "\<exists>m d. rate_limited E resp = RxonExn RxonRateLimitError m d \<and>
      dget ''status'' d = Some (PInt 429) \<and> dget ''code'' d \<noteq> None \<and>
      dget ''retry_after'' d = map_option (\<lambda>x. PFloat (max_zero x)) (retry_seconds E resp)"
    using assms code
    by (auto simp: rate_limited_def Let_def split: sum.split pyval.split option.split) blast+
  ultimately show ?thesis using assms(1) by (auto simp: handle_status_def)
qed


theorem rate_limit_reported_witness:
  "\<exists>m d. handle_status plain_env \<lparr>rs_status = 429, rs_header = (\<lambda>h. Some ''2.5''),
      rs_json = Inl (PyExn ContentTypeError ''text/plain''), rs_text = Inr ''slow down''\<rparr>
      = Inl (RxonExn RxonRateLimitError m d) \<and>
    dget ''retry_after'' d = Some (PFloat (Fin (5 / 2)))"
  using rate_limit_reported [of "\<lparr>rs_status = 429, rs_header = (\<lambda>h. Some ''2.5''),
      rs_json = Inl (PyExn ContentTypeError ''text/plain''), rs_text = Inr ''slow down''\<rparr>" "''slow down''" plain_env]
  by (auto simp: retry_seconds_def plain_env_def max_zero_def)

text \<open>
  A reply with status 200 and a body that is not JSON raises the base class RxonError, and
  RxonProtocolError only when the content type is wrong.
\<close>
theorem invalid_json_class:
  assumes "session_closed s \<noteq> None"
    and "w_peer w (w_log w) (call_request c s (headers s)) = Inr resp"
    and "rs_status resp = 200" and "rs_json resp = Inl (PyExn k m)" and "k \<in> {ValueError, ContentTypeError}"
  shows "\<exists>msg. fst (http_request_call E c s w) =
    Inl (RxonExn (if k = ContentTypeError then RxonProtocolError else RxonError) msg [])"
  using assms
  by (auto simp: http_request_call_def request_loop.simps exchange_eq Let_def handle_status_def map_err_def
      wrap_exn_def mk_rxon_def is_exception_def)

theorem invalid_json_class_witness:
  "\<exists>msg. fst (http_request_call plain_env ping s0 (w_of (\<lambda>l rq. Inr
      ((reply 200 PNone)\<lparr>rs_json := Inl (PyExn ValueError ''unexpected end of data'')\<rparr>)))) = Inl (RxonExn RxonError msg [])"
  using invalid_json_class [of s0 "w_of (\<lambda>l rq. Inr ((reply 200 PNone)\<lparr>rs_json := Inl (PyExn ValueError ''unexpected end of data'')\<rparr>))"
      ping "(reply 200 PNone)\<lparr>rs_json := Inl (PyExn ValueError ''unexpected end of data'')\<rparr>" ValueError
      "''unexpected end of data''" plain_env]
  by (simp add: w_of_def reply_def)

text \<open>
  Every error status other than 401 and 429, 403 included, raises RxonProtocolError with that
  status in its details.
\<close>
theorem error_status_class:
  assumes "session_closed s \<noteq> None"
    and "w_peer w (w_log w) (call_request c s (headers s)) = Inr resp"
    and "400 \<le> rs_status resp" and "rs_status resp \<notin> {401, 429}" and "rs_text resp = Inr text"
  shows "\<exists>msg. fst (http_request_call E c s w) =
    Inl (RxonExn RxonProtocolError msg [(''status'', PInt (int (rs_status resp)))])"
  using assms
  by (auto simp: http_request_call_def request_loop.simps exchange_eq Let_def handle_status_def map_err_def
      wrap_exn_def mk_rxon_def is_exception_def)

theorem error_status_class_witness:
  "\<exists>msg. fst (http_request_call plain_env ping s0 (w_of (\<lambda>l rq. Inr (reply 403 PNone)))) =
    Inl (RxonExn RxonProtocolError msg [(''status'', PInt 403)])"
  using error_status_class [of s0 "w_of (\<lambda>l rq. Inr (reply 403 PNone))" ping "reply 403 PNone" "''text''" plain_env]
  by (simp add: w_of_def reply_def)

end
