(* ===== verification/Rxon_Client_Ops.thy ===== *)
theory Rxon_Client_Ops
  imports Rxon_Client_Props
begin

text \<open>
  The operations of \<open>HttpTransport\<close> above a single request: the retries of a result with their
  exponential delays, the tokens that a registration or a refresh brings, the delivery of an
  event, the life cycle of the session.
\<close>

subsection \<open>The retries of a result\<close>

definition slept :: "action list \<Rightarrow> rat" where
  "slept acts = sum_list (map (\<lambda>a. case a of Slept d \<Rightarrow> d | _ \<Rightarrow> 0) acts)"

definition sent_count :: "action list \<Rightarrow> nat" where
  "sent_count acts = length (filter (\<lambda>a. case a of Sent _ \<Rightarrow> True | _ \<Rightarrow> False) acts)"

lemma slept_simps [simp]: "slept [] = 0" "slept (Sent r # as) = slept as" "slept (Slept d # as) = d + slept as"
  "slept (as @ bs) = slept as + slept bs" "slept (map Sent rqs) = 0"
  by (simp_all add: slept_def) (induction rqs; simp)

lemma sent_count_simps [simp]: "sent_count [] = 0" "sent_count (Sent r # as) = Suc (sent_count as)"
  "sent_count (Slept d # as) = sent_count as" "sent_count (as @ bs) = sent_count as + sent_count bs"
  "sent_count (map Sent rqs) = length rqs"
  by (simp_all add: sent_count_def comp_def)

text \<open>The log of \<open>n\<close> failing attempts, the first of them the \<open>i\<close>-th.\<close>

fun retry_log :: "http_request \<Rightarrow> rat \<Rightarrow> nat \<Rightarrow> nat \<Rightarrow> action list" where
  "retry_log rq wait 0 i = []"
| "retry_log rq wait (Suc n) i = Sent rq # (if 0 < n then [Slept (wait * 2 ^ i)] else []) @ retry_log rq wait n (Suc i)"

lemma retry_log_sent: "sent_count (retry_log rq wait n i) = n"
  by (induction n arbitrary: i) auto

lemma retry_log_slept: "slept (retry_log rq wait (Suc n) i) = wait * 2 ^ i * (2 ^ n - 1)"
proof (induction n arbitrary: i)
  case (Suc n)
  have "slept (retry_log rq wait (Suc (Suc n)) i) = wait * 2 ^ i + slept (retry_log rq wait (Suc n) (Suc i))"
    by simp
  also have "\<dots> = wait * 2 ^ i * (2 ^ Suc n - 1)"
    unfolding Suc.IH by (simp add: algebra_simps)
  finally show ?case .
qed simp

definition unreachable :: "world \<Rightarrow> exn \<Rightarrow> bool" where
  "unreachable w e \<longleftrightarrow> (\<forall>l rq. w_peer w l rq = Inl e)"

lemma unreachable_after [simp]: "unreachable (world_after w acts) e = unreachable w e"
  by (simp add: unreachable_def)

lemma unreachable_request:
  "unreachable w e \<Longrightarrow> session_closed s \<noteq> None \<Longrightarrow>
    http_request_call E c s w =
      (Inl (wrap_exn E (c_method c) (c_endpoint c) e), s, world_after w [Sent (call_request c s (headers s))])"
  by (auto simp: http_request_call_def request_loop.simps exchange_eq unreachable_def)

lemma network_wrapped:
  "is_py ClientError e \<or> is_py TimeoutError e \<Longrightarrow> \<not> is_py ContentTypeError e \<Longrightarrow>
    is_rxon RxonNetworkError (wrap_exn E m ep e)"
  by (simp add: wrap_exn_def Let_def mk_rxon_def)

lemma unreachable_loop:
  assumes "unreachable w e" and "session_closed s \<noteq> None"
    and "is_py ClientError e \<or> is_py TimeoutError e" and "\<not> is_py ContentTypeError e"
  shows "send_result_loop E result wait (Suc n) i prev s w =
    (Inl (wrap_exn E ''POST'' ENDPOINT_TASK_RESULT e), s,
     world_after w (retry_log (call_request (result_call result) s (headers s)) wait (Suc n) i))"
  using assms(1)
proof (induction n arbitrary: i prev w)
  case 0
  with assms show ?case
    by (simp add: unreachable_request network_wrapped result_call_def)
next
  case (Suc n)
  have "send_result_loop E result wait (Suc (Suc n)) i prev s w =
      send_result_loop E result wait (Suc n) (Suc i) (Some (wrap_exn E ''POST'' ENDPOINT_TASK_RESULT e)) s
        (world_after w [Sent (call_request (result_call result) s (headers s)), Slept (wait * 2 ^ i)])"
    using assms(2-) Suc.prems
    by (subst send_result_loop.simps) (simp add: unreachable_request network_wrapped result_call_def sleep_eq
        del: send_result_loop.simps)
  with Suc.IH [of "world_after w [Sent (call_request (result_call result) s (headers s)), Slept (wait * 2 ^ i)]"]
    Suc.prems show ?case by (simp del: send_result_loop.simps)
qed

text \<open>
  C27: With an unreachable peer, send_result makes exactly the given number of attempts, sleeps
  wait * (2^(n-1) - 1) in all, and raises RxonNetworkError.
\<close>
theorem send_result_gives_up:
  assumes "unreachable w e" and "session_closed s \<noteq> None" and "0 < retries"
    and "is_py ClientError e \<or> is_py TimeoutError e" and "\<not> is_py ContentTypeError e"
  shows "\<exists>acts. http_send_result E result (Some retries) (Some wait) s w =
      (Inl (wrap_exn E ''POST'' ENDPOINT_TASK_RESULT e), s, world_after w acts) \<and>
    is_rxon RxonNetworkError (wrap_exn E ''POST'' ENDPOINT_TASK_RESULT e) \<and>
    sent_count acts = nat retries \<and> slept acts = wait * (2 ^ (nat retries - 1) - 1)"
proof -
  obtain n where n: "nat retries = Suc n" using assms(3) by (cases "nat retries") auto
  have "http_send_result E result (Some retries) (Some wait) s w =
      (Inl (wrap_exn E ''POST'' ENDPOINT_TASK_RESULT e), s,
       world_after w (retry_log (call_request (result_call result) s (headers s)) wait (Suc n) 0))"
    using unreachable_loop [OF assms(1,2,4,5)]
    by (simp add: http_send_result_def n del: send_result_loop.simps retry_log.simps)
  then show ?thesis
    using network_wrapped [OF assms(4,5)] n retry_log_slept [of _ wait n 0] retry_log_sent [of _ wait "Suc n" 0]
    by (intro exI [of _ "retry_log (call_request (result_call result) s (headers s)) wait (Suc n) 0"])
       (simp del: retry_log.simps)
qed

theorem send_result_gives_up_witness:
  "\<exists>acts. snd (snd (http_send_result plain_env PNone (Some 3) (Some (1 / 10)) s0
      (w_of (\<lambda>l rq. Inl (PyExn ClientError ''refused'')))))
    = world_after (w_of (\<lambda>l rq. Inl (PyExn ClientError ''refused''))) acts \<and> sent_count acts = 3 \<and> slept acts = 3 / 10"
proof -
  have "unreachable (w_of (\<lambda>l rq. Inl (PyExn ClientError ''refused''))) (PyExn ClientError ''refused'')"
    by (simp add: unreachable_def w_of_def)
  from send_result_gives_up [OF this, of s0 3 plain_env PNone "1 / 10"] show ?thesis by auto
qed

lemma send_result_loop_bound:
  assumes "send_result_loop E result wait n i prev s w = (r, s', w')"
  shows "\<exists>acts. w' = world_after w acts \<and> sent_count acts \<le> 3 * n \<and>
    (0 \<le> wait \<longrightarrow> slept acts \<le> wait * 2 ^ i * (2 ^ (n - 1) - 1))"
  using assms
proof (induction n arbitrary: i prev s w)
  case 0
  then show ?case by (auto intro: exI [of _ "[]"])
next
  case (Suc n)
  obtain r1 s1 w1 where rq: "http_request_call E (result_call result) s w = (r1, s1, w1)"
    by (cases "http_request_call E (result_call result) s w")
  from request_effect [OF rq] obtain rqs where rqs: "w1 = world_after w (map Sent rqs)" "length rqs \<le> 3" by blast
  show ?case
  proof (cases "\<exists>e. r1 = Inl e \<and> is_rxon RxonNetworkError e")
    case False
    with Suc.prems rq have "w' = w1" by (auto split: sum.splits if_splits)
    with rqs show ?thesis by (intro exI [of _ "map Sent rqs"]) auto
  next
    case True
    let ?mid = "if 0 < n then [Slept (wait * 2 ^ i)] else []"
    from True Suc.prems rq obtain e where
      "send_result_loop E result wait n (Suc i) (Some e) s1 (world_after w1 ?mid) = (r, s', w')"
      by (auto simp: sleep_eq split: if_splits)
    from Suc.IH [OF this] obtain acts where acts: "w' = world_after (world_after w1 ?mid) acts"
      "sent_count acts \<le> 3 * n" "0 \<le> wait \<longrightarrow> slept acts \<le> wait * 2 ^ Suc i * (2 ^ (n - 1) - 1)" by blast
    have "slept (map Sent rqs @ ?mid @ acts) \<le> wait * 2 ^ i * (2 ^ n - 1)" if "0 \<le> wait"
      using acts(3) that by (cases n) (auto simp: algebra_simps)
    moreover have "sent_count (map Sent rqs @ ?mid @ acts) \<le> 3 * Suc n" using acts(2) rqs(2) by auto
    moreover have "w' = world_after w (map Sent rqs @ ?mid @ acts)" using acts(1) rqs(1) by simp
    ultimately show ?thesis by (metis diff_Suc_1)
  qed
qed

text \<open>
  C37: Whatever the peer does, send_result sends at most three requests per attempt and sleeps at
  most wait * (2^(n-1) - 1); with no attempts allowed it returns False without sending anything.
\<close>
theorem send_result_bounded:
  assumes "http_send_result E result (Some retries) (Some wait) s w = (r, s', w')" and "0 \<le> wait"
  shows "\<exists>acts. w' = world_after w acts \<and> sent_count acts \<le> 3 * nat retries \<and>
    slept acts \<le> wait * (2 ^ (nat retries - 1) - 1) \<and> (retries \<le> 0 \<longrightarrow> r = Inr False \<and> acts = [])"
proof -
  from assms(1) have l: "send_result_loop E result wait (nat retries) 0 None s w = (r, s', w')"
    by (simp add: http_send_result_def)
  show ?thesis
  proof (cases "retries \<le> 0")
    case True
    with l show ?thesis by (intro exI [of _ "[]"]) auto
  next
    case False
    with send_result_loop_bound [OF l] assms(2) show ?thesis by auto
  qed
qed

theorem send_result_bounded_witness:
  "\<exists>acts. snd (snd (http_send_result plain_env PNone (Some 0) (Some 1) s0 (w_of (\<lambda>l rq. Inr (reply 200 PNone)))))
    = world_after (w_of (\<lambda>l rq. Inr (reply 200 PNone))) acts \<and> acts = []"
  using send_result_bounded [of plain_env PNone 0 1 s0 "w_of (\<lambda>l rq. Inr (reply 200 PNone))"]
  by (cases "http_send_result plain_env PNone (Some 0) (Some 1) s0 (w_of (\<lambda>l rq. Inr (reply 200 PNone)))") auto

subsection \<open>Tokens and events\<close>

text \<open>
  After any run of operations, a refresh that returns a token makes every following request carry
  that token.
\<close>
theorem refresh_token_used_next:
  assumes "fold (http_step E) ops (HttpTransport_init url wid tok session retries delay, w\<lparr>w_log := []\<rparr>) = (s, w')"
    and "fst (http_refresh_token E s w') = Inr (Some res)"
    and "fold (http_step E) (ops @ [RefreshToken])
           (HttpTransport_init url wid tok session retries delay, w\<lparr>w_log := []\<rparr>) = (s2, w2)"
  shows "dget AUTH_HEADER_WORKER (rq_headers (call_request c s2 (headers s2))) = Some (access_token res)"
proof -
  let ?i = "(HttpTransport_init url wid tok session retries delay, w\<lparr>w_log := []\<rparr>)"
  have "token s2 = access_token res"
    using http.run_then_refresh [of E ops ?i] assms by (simp add: http_refreshed_def)
  moreover have "http_inv (fold (http_step E) (ops @ [RefreshToken]) ?i)"
    by (rule http.run_inv [OF init_inv])
  then have "http_inv (s2, w2)" using assms(3) by simp
  ultimately show ?thesis by (simp add: http_inv_def coherent_def call_request_def)
qed

theorem refresh_token_used_next_witness:
  "\<exists>s2. dget AUTH_HEADER_WORKER (rq_headers (call_request ping s2 (headers s2))) = Some ''t1''"
proof -
  let ?i = "(HttpTransport_init ''http://h'' ''w1'' ''t0'' None 3 0, (w_of expired_peer)\<lparr>w_log := []\<rparr>)"
  obtain s w where a: "fold (http_step plain_env) [Connect] ?i = (s, w)" by fastforce
  obtain s2 w2 where b: "fold (http_step plain_env) ([Connect] @ [RefreshToken]) ?i = (s2, w2)" by fastforce
  have "fst (http_refresh_token plain_env s w) =
      Inr (Some \<lparr>access_token = ''t1'', expires_in = 300, tr_worker_id = ''w1'', refresh_token = None\<rparr>)"
    using a by (auto simp: client_eval)
  from refresh_token_used_next [OF a this b, of ping] show ?thesis by auto
qed

text \<open>
  A registration reply with an access token installs it; a reply that cannot be parsed leaves the
  token alone, and the reply is returned either way.
\<close>
theorem register_token:
  assumes "http_request_call E (register_call registration) s w = (Inr (PDict d), s1, w1)"
    and "dget ''access_token'' d = Some t"
  shows "http_register E registration s w =
    (case parse_token E (PDict d) of
       Inr res \<Rightarrow> (Inr (PDict d), set_token res s1, w1)
     | Inl e \<Rightarrow> (if is_exception e then Inr (PDict d) else Inl e, s1, w1)) \<and>
    same_frame s (fst (snd (http_register E registration s w)))"
  using assms request_effect [OF assms(1)]
  by (auto simp: http_register_def split: sum.split intro: same_frame_trans)

theorem register_token_witness:
  "fst (http_register plain_env PNone s0 (w_of (\<lambda>l rq. Inr (reply 200 (PDict [(''access_token'', PInt 7)])))))
     = Inr (PDict [(''access_token'', PInt 7)])"
proof -
  let ?w = "w_of (\<lambda>l rq. Inr (reply 200 (PDict [(''access_token'', PInt 7)])))"
  have "http_request_call plain_env (register_call PNone) s0 ?w = (Inr (PDict [(''access_token'', PInt 7)]), s0,
      world_after ?w [Sent (call_request (register_call PNone) s0 (headers s0))])"
    by (simp add: http_request_call_def request_loop.simps exchange_eq w_of_def Let_def handle_status_def
        map_err_def note_version_def)
  note this [THEN register_token, of "PInt 7"]
  moreover have "parse_token plain_env (PDict [(''access_token'', PInt 7)]) = Inl (PyExn AttributeError ''no such attribute'')"
    by (simp add: dget_def parse_token_def from_dict_def plain_env_def plain_cls_def as_token_def)
  ultimately show ?thesis by (simp add: dget_def is_exception_def)
qed

text \<open>
  emit_event raises nothing but a cancellation; an open WebSocket that takes the event is the only
  message sent, and without one the event is posted and the result tells whether the request
  succeeded.
\<close>
theorem emit_event_outcome:
  assumes "http_emit_event E event s w = (r, s', w')"
  shows "(\<forall>e. r = Inl e \<longrightarrow> is_py Cancelled e) \<and>
    (ws_closed s = Some False \<and> fst (ws_send E event w) = Inr () \<longrightarrow>
       r = Inr True \<and> s' = s \<and> (\<exists>d. to_dict (e_codec E) event 0 = Inr d \<and> w' = world_after w [WsSent d])) \<and>
    (ws_closed s \<noteq> Some False \<longrightarrow>
       (r = Inr True \<longleftrightarrow> (\<exists>v. fst (http_request_call E (event_call event) s w) = Inr v)) \<and>
       w' = snd (snd (http_request_call E (event_call event) s w)))"
proof -
  have "is_py Cancelled e" if "r = Inl e" for e
    using assms that unfolding http_emit_event_def
    by (auto simp: is_exception_def surfaced_def dest!: request_surfaced
        split: prod.splits sum.splits if_splits)
  moreover have "r = Inr True \<and> s' = s \<and> (\<exists>d. to_dict (e_codec E) event 0 = Inr d \<and> w' = world_after w [WsSent d])"
    if "ws_closed s = Some False" "fst (ws_send E event w) = Inr ()"
    using assms that by (auto simp: http_emit_event_def ws_send_def world_after_def split: prod.splits sum.splits)
  moreover have "(r = Inr True \<longleftrightarrow> (\<exists>v. fst (http_request_call E (event_call event) s w) = Inr v)) \<and>
      w' = snd (snd (http_request_call E (event_call event) s w))" if "ws_closed s \<noteq> Some False"
    using assms that by (auto simp: http_emit_event_def is_exception_def split: prod.splits sum.splits if_splits)
  ultimately show ?thesis by blast
qed

theorem emit_event_outcome_witness:
  "fst (http_emit_event plain_env PNone (s0\<lparr>ws_closed := Some False\<rparr>) (w_of (\<lambda>l rq. Inr (reply 200 PNone)))) = Inr True"
proof -
  let ?s = "s0\<lparr>ws_closed := Some False\<rparr>" and ?w = "w_of (\<lambda>l rq. Inr (reply 200 PNone))"
  obtain r s' w' where e: "http_emit_event plain_env PNone ?s ?w = (r, s', w')"
    by (cases "http_emit_event plain_env PNone ?s ?w")
  have "fst (ws_send plain_env PNone ?w) = Inr ()"
    by (simp add: ws_send_def to_dict_def w_of_def)
  with emit_event_outcome [OF e] e show ?thesis by simp
qed

subsection \<open>Life cycle\<close>

text \<open>
  connect after close does not open a new session: the transport keeps the closed one; a session
  passed in by the caller is never closed.
\<close>
theorem closed_session_stays_closed:
  "session_closed (http_connect (http_close (http_connect (HttpTransport_init url wid tok None retries delay)))) = Some True \<and>
   session_closed (http_close (http_connect (HttpTransport_init url wid tok (Some False) retries delay))) = Some False"
  by (simp add: http_connect_def http_close_def HttpTransport_init_def Let_def)

text \<open>
  poll_task returns None for an empty reply and the parsed task otherwise, and gives the request
  five seconds more than the server waits.
\<close>
theorem poll_task_outcome:
  assumes "http_request_call E (poll_call s timeout available hot) s w = (Inr data, s1, w1)"
    and "http_poll_task E timeout available hot s w = (r, s', w')"
  shows "s' = s1 \<and> w' = w1 \<and> (\<not> truthy data \<longrightarrow> r = Inr PNone) \<and>
    (truthy data \<longrightarrow> r = from_dict (py_str (e_codec E)) (e_task_cls E) data) \<and>
    c_timeout (poll_call s timeout available hot) = Some (timeout + 5)"
  using assms by (auto simp: http_poll_task_def poll_call_def)

theorem poll_task_outcome_witness:
  "fst (http_poll_task plain_env 30 None None s0 (w_of (\<lambda>l rq. Inr (reply 204 PNone)))) = Inr PNone"
proof -
  let ?w = "w_of (\<lambda>l rq. Inr (reply 204 PNone))" and ?c = "poll_call s0 30 None None"
  have q: "http_request_call plain_env ?c s0 ?w =
      (Inr PNone, s0, world_after ?w [Sent (call_request ?c s0 (headers s0))])"
    by (simp add: http_request_call_def request_loop.simps exchange_eq w_of_def Let_def handle_status_def
        map_err_def note_version_def)
  obtain r s' w' where p: "http_poll_task plain_env 30 None None s0 ?w = (r, s', w')"
    by (cases "http_poll_task plain_env 30 None None s0 ?w")
  from poll_task_outcome [OF q p] p show ?thesis by simp
qed

end
