(* ===== verification/Rxon_Listener.thy ===== *)
theory Rxon_Listener
  imports Rxon_Security Rxon_Transport
begin

text \<open>
  \<^verbatim>\<open>src/rxon/transports/http_server.py\<close>: \<open>HttpListener\<close>, the orchestrator side.
  A request is a record of what the handlers read of it; the orchestrator's own handler
  (\<open>self.handler\<close>) is a function of the calls it got before and the call it gets now, and the
  calls it got are the list every handler threads.  A handler returns the response or the
  exception that leaves it.
\<close>

subsection \<open>Requests, responses, the orchestrator\<close>

record inbound =
  in_headers :: "string \<Rightarrow> string option" \<comment> \<open>\<open>request.headers.get\<close>\<close>
  in_json :: "exn + pyval" \<comment> \<open>\<open>await request.json(loads=loads)\<close>\<close>
  in_can_read_body :: bool
  in_match_info :: "string \<Rightarrow> string option"
  in_query :: "string dict"
  in_ssl :: "peer_cert option option"
  in_self :: pyval \<comment> \<open>the request object itself\<close>
  in_ws :: "exn + pyval" \<comment> \<open>\<open>WebSocketResponse()\<close> after \<open>prepare(request)\<close>\<close>

datatype 'b body = JsonBody 'b | TextBody string | NoBody | Upgraded pyval

record 'b web_response =
  wr_status :: nat
  wr_body :: "'b body"
  wr_headers :: "string dict"

text \<open>What the orchestrator returns: a value to encode, or a finished response.\<close>

datatype 'b outcome = Value pyval | Response "'b web_response"

datatype hcall = HCall (hc_action: string) (hc_payload: pyval) (hc_context: "pyval dict")

record 'b listener =
  l_codec :: "'b codec"
  l_float :: "string \<Rightarrow> flt option"
  l_resp_truthy :: "'b web_response \<Rightarrow> bool" \<comment> \<open>\<open>bool(response)\<close> in aiohttp\<close>
  l_handler :: "(hcall list \<Rightarrow> hcall \<Rightarrow> exn + 'b outcome) option"

text \<open>A computation that may call the orchestrator and may raise.\<close>

type_synonym 'a io = "hcall list \<Rightarrow> (exn + 'a) \<times> hcall list"

definition ask :: "(hcall list \<Rightarrow> hcall \<Rightarrow> exn + 'b outcome) \<Rightarrow> string \<Rightarrow> pyval \<Rightarrow> pyval dict \<Rightarrow> 'b outcome io" where
  "ask h action payload context calls =
     (h calls (HCall action payload context), calls @ [HCall action payload context])"

subsection \<open>Responses\<close>

text \<open>\<open>_json_response\<close>: a finished response passes; a value is converted and written as JSON.\<close>

definition encode :: "'b codec \<Rightarrow> pyval \<Rightarrow> nat \<Rightarrow> exn + 'b web_response" where
  "encode C data status =
     rbind (to_dict C data 0) (\<lambda>d. rbind (json_dumps C d) (\<lambda>text.
       Inr \<lparr>wr_status = status, wr_body = JsonBody text, wr_headers = []\<rparr>))"

fun json_response :: "'b codec \<Rightarrow> 'b outcome \<Rightarrow> nat \<Rightarrow> exn + 'b web_response" where
  "json_response C (Response r) status = Inr r"
| "json_response C (Value data) status = encode C data status"

definition text_response :: "nat \<Rightarrow> string \<Rightarrow> 'b web_response" where
  "text_response status text = \<lparr>wr_status = status, wr_body = TextBody text, wr_headers = []\<rparr>"

definition empty_response :: "nat \<Rightarrow> 'b web_response" where
  "empty_response status = \<lparr>wr_status = status, wr_body = NoBody, wr_headers = []\<rparr>"

fun outcome_truthy :: "'b listener \<Rightarrow> 'b outcome \<Rightarrow> bool" where
  "outcome_truthy L (Value v) = truthy v"
| "outcome_truthy L (Response r) = l_resp_truthy L r"

text \<open>\<open>resp or default\<close>.\<close>

definition or_else :: "'b listener \<Rightarrow> 'b outcome \<Rightarrow> pyval \<Rightarrow> 'b outcome" where
  "or_else L resp dflt = (if outcome_truthy L resp then resp else Value dflt)"

subsection \<open>The \<open>except\<close> clauses shared by the handlers\<close>

definition error_status :: "exn \<Rightarrow> nat" where
  "error_status e =
     (case e of
        HttpExn status _ _ \<Rightarrow> status
      | _ \<Rightarrow> if is_py PermissionError e then 403
             else if is_rxon RxonRateLimitError e then 429
             else if is_py ValueError e then 400
             else 500)"

definition error_body :: "'b codec \<Rightarrow> exn \<Rightarrow> pyval" where
  "error_body C e =
     (case e of
        HttpExn _ text reason \<Rightarrow>
          PDict [(''error'', PStr (case text of Some t \<Rightarrow> if t \<noteq> [] then t else reason | None \<Rightarrow> reason))]
      | RxonExn c m details \<Rightarrow>
          if c \<le> RxonRateLimitError
          then PDict [(''error'', PStr (exn_str (py_str C) e)),
            (''code'', case dget ''code'' details of Some v \<Rightarrow> v | None \<Rightarrow> PNone)]
          else PDict [(''error'', PStr (exn_str (py_str C) e))]
      | _ \<Rightarrow> PDict [(''error'', PStr (exn_str (py_str C) e))])"

definition guarded :: "'b listener \<Rightarrow> 'b web_response io \<Rightarrow> 'b web_response io" where
  "guarded L m calls =
     (case m calls of
        (Inr r, calls') \<Rightarrow> (Inr r, calls')
      | (Inl e, calls') \<Rightarrow>
          (if is_exception e then encode (l_codec L) (error_body (l_codec L) e) (error_status e) else Inl e, calls'))"

subsection \<open>The context\<close>

definition opt_str :: "string option \<Rightarrow> pyval" where
  "opt_str s = (case s of None \<Rightarrow> PNone | Some t \<Rightarrow> PStr t)"

definition extract_context :: "inbound \<Rightarrow> pyval dict" where
  "extract_context rq =
     [(''token'', opt_str (in_headers rq AUTH_HEADER_WORKER)),
      (''worker_id_hint'', opt_str (in_headers rq AUTH_HEADER_WORKER_ID)),
      (''protocol_version'', opt_str (in_headers rq PROTOCOL_VERSION_HEADER)),
      (''cert_identity'', opt_str (extract_cert_identity (in_ssl rq))),
      (''transport'', PStr ''http''),
      (''raw_request'', in_self rq)]"

text \<open>The whitespace \<open>str.strip()\<close> removes, within Latin-1.\<close>

definition whitespace :: "char list" where
  "whitespace = [CHR 0x09, CHR 0x0A, CHR 0x0B, CHR 0x0C, CHR 0x0D, CHR 0x1C, CHR 0x1D, CHR 0x1E, CHR 0x1F,
     CHR 0x20, CHR 0x85, CHR 0xA0]"

definition skill_list :: "string \<Rightarrow> pyval" where
  "skill_list text = PList (map PStr (filter (\<lambda>s. s \<noteq> []) (map (strip whitespace) (split_on CHR '','' text))))"

definition add_skills :: "string \<Rightarrow> inbound \<Rightarrow> pyval dict \<Rightarrow> pyval dict" where
  "add_skills name rq context =
     (case dget name (in_query rq) of None \<Rightarrow> context | Some text \<Rightarrow> dset name (skill_list text) context)"

definition poll_timeout :: "'b listener \<Rightarrow> inbound \<Rightarrow> pyval" where
  "poll_timeout L rq =
     (case dget ''timeout'' (in_query rq) of
        None \<Rightarrow> PFloat (Fin 0)
      | Some text \<Rightarrow> (case l_float L text of Some f \<Rightarrow> PFloat f | None \<Rightarrow> PInt 0))"

definition poll_context :: "'b listener \<Rightarrow> inbound \<Rightarrow> string \<Rightarrow> pyval dict" where
  "poll_context L rq worker_id =
     add_skills ''hot_skills'' rq (add_skills ''available_skills'' rq
       (dset ''poll_timeout'' (poll_timeout L rq)
         (dset ''worker_id_hint'' (PStr worker_id) (extract_context rq))))"

subsection \<open>The handlers\<close>

definition initializing :: pyval where
  "initializing = PDict [(''error'', PStr ''Service is initializing'')]"

text \<open>\<open>_handle_register\<close>, \<open>_handle_result\<close> and \<open>_handle_event\<close> differ in the action and the default reply.\<close>

definition handle_post :: "string \<Rightarrow> string \<Rightarrow> 'b listener \<Rightarrow> inbound \<Rightarrow> 'b web_response io" where
  "handle_post action dflt L rq = guarded L (hbind (lift (in_json rq)) (\<lambda>payload.
     case l_handler L of
       Some h \<Rightarrow> hbind (ask h action payload (extract_context rq)) (\<lambda>resp.
         lift (json_response (l_codec L) (or_else L resp (PDict [(''status'', PStr dflt)])) 200))
     | None \<Rightarrow> lift (json_response (l_codec L) (Value initializing) 503)))"

definition handle_register :: "'b listener \<Rightarrow> inbound \<Rightarrow> 'b web_response io" where
  "handle_register = handle_post ''register'' ''registered''"

definition handle_result :: "'b listener \<Rightarrow> inbound \<Rightarrow> 'b web_response io" where
  "handle_result = handle_post ''result'' ''ok''"

definition handle_event :: "'b listener \<Rightarrow> inbound \<Rightarrow> 'b web_response io" where
  "handle_event = handle_post ''event'' ''event_accepted''"

definition handle_poll :: "'b listener \<Rightarrow> inbound \<Rightarrow> 'b web_response io" where
  "handle_poll L rq = guarded L (
     case in_match_info rq ''worker_id'' of
       None \<Rightarrow> lift (json_response (l_codec L) (Value (PDict [(''error'', PStr ''worker_id required'')])) 400)
     | Some worker_id \<Rightarrow>
         if worker_id = []
         then lift (json_response (l_codec L) (Value (PDict [(''error'', PStr ''worker_id required'')])) 400)
         else (case l_handler L of
             Some h \<Rightarrow> hbind (ask h ''poll'' (PStr worker_id) (poll_context L rq worker_id)) (\<lambda>task.
               lift (if outcome_truthy L task then json_response (l_codec L) task 200
                     else Inr (empty_response 204)))
           | None \<Rightarrow> lift (Inr (text_response 503 ''Service is initializing''))))"

definition handle_heartbeat :: "'b listener \<Rightarrow> inbound \<Rightarrow> 'b web_response io" where
  "handle_heartbeat L rq = guarded L (
     hbind (lift (if in_can_read_body rq then in_json rq else Inr PNone)) (\<lambda>payload.
       case l_handler L of
         Some h \<Rightarrow> hbind (ask h ''heartbeat'' payload
             (dset ''worker_id_hint'' (opt_str (in_match_info rq ''worker_id'')) (extract_context rq)))
           (\<lambda>resp. lift (json_response (l_codec L) resp 200))
       | None \<Rightarrow> lift (Inr (text_response 503 ''Service is initializing''))))"

definition handle_sts :: "'b listener \<Rightarrow> inbound \<Rightarrow> 'b web_response io" where
  "handle_sts L rq = guarded L (
     case l_handler L of
       Some h \<Rightarrow> hbind (ask h ''sts_token'' PNone (extract_context rq)) (\<lambda>token_data.
         lift (json_response (l_codec L) token_data 200))
     | None \<Rightarrow> lift (Inr (text_response 503 ''Service is initializing'')))"

definition handle_sts_refresh :: "'b listener \<Rightarrow> inbound \<Rightarrow> 'b web_response io" where
  "handle_sts_refresh L rq = guarded L (hbind (lift (in_json rq)) (\<lambda>payload.
     case l_handler L of
       Some h \<Rightarrow> hbind (ask h ''sts_refresh'' payload (extract_context rq)) (\<lambda>token_data.
         lift (json_response (l_codec L) token_data 200))
     | None \<Rightarrow> lift (Inr (text_response 503 ''Service is initializing''))))"

text \<open>
  \<open>_handle_ws\<close>: authentication first, with errors turned into responses; the session with the
  orchestrator runs outside every \<open>try\<close>.
\<close>

definition ws_context :: "inbound \<Rightarrow> pyval dict" where
  "ws_context rq =
     (case in_match_info rq ''worker_id'' of
        Some w \<Rightarrow> if w \<noteq> [] then dset ''worker_id_hint'' (PStr w) (extract_context rq) else extract_context rq
      | None \<Rightarrow> extract_context rq)"

definition ws_response :: "pyval \<Rightarrow> 'b web_response" where
  "ws_response ws = \<lparr>wr_status = 101, wr_body = Upgraded ws, wr_headers = []\<rparr>"

definition ws_auth_failed :: "'b codec \<Rightarrow> exn \<Rightarrow> 'b web_response" where
  "ws_auth_failed C e =
     (if is_py PermissionError e then text_response 403 (exn_str (py_str C) e)
      else text_response 500 (exn_str (py_str C) e))"

definition handle_ws :: "'b listener \<Rightarrow> inbound \<Rightarrow> 'b web_response io" where
  "handle_ws L rq calls =
     (case l_handler L of
        None \<Rightarrow> (rbind (in_ws rq) (\<lambda>ws. Inr (ws_response ws)), calls)
      | Some h \<Rightarrow>
          (case ask h ''websocket_auth'' PNone (ws_context rq) calls of
             (Inl e, calls1) \<Rightarrow>
               (if is_exception e then Inr (ws_auth_failed (l_codec L) e) else Inl e, calls1)
           | (Inr _, calls1) \<Rightarrow>
               hbind (lift (in_ws rq)) (\<lambda>ws. hbind (ask h ''websocket'' ws (ws_context rq))
                 (\<lambda>_. lift (Inr (ws_response ws)))) calls1))"

subsection \<open>The application\<close>

datatype endpoint = EpRegister | EpPoll | EpResult | EpHeartbeat | EpEvent | EpSts | EpStsRefresh | EpWs

definition routes :: "(string \<times> string \<times> endpoint) list" where
  "routes =
     [(''POST'', ENDPOINT_WORKER_REGISTER, EpRegister),
      (''GET'', ENDPOINT_TASK_NEXT, EpPoll),
      (''POST'', ENDPOINT_TASK_RESULT, EpResult),
      (''PATCH'', ENDPOINT_WORKER_HEARTBEAT, EpHeartbeat),
      (''POST'', ENDPOINT_WORKER_EVENTS, EpEvent),
      (''POST'', STS_TOKEN_ENDPOINT, EpSts),
      (''POST'', STS_REFRESH_ENDPOINT, EpStsRefresh),
      (''GET'', WS_ENDPOINT @ ''/{worker_id}'', EpWs)]"

fun dispatch :: "'b listener \<Rightarrow> endpoint \<Rightarrow> inbound \<Rightarrow> 'b web_response io" where
  "dispatch L EpRegister = handle_register L"
| "dispatch L EpPoll = handle_poll L"
| "dispatch L EpResult = handle_result L"
| "dispatch L EpHeartbeat = handle_heartbeat L"
| "dispatch L EpEvent = handle_event L"
| "dispatch L EpSts = handle_sts L"
| "dispatch L EpStsRefresh = handle_sts_refresh L"
| "dispatch L EpWs = handle_ws L"

text \<open>The middleware stamps every response that a handler returns.\<close>

definition version_middleware :: "'b web_response io \<Rightarrow> 'b web_response io" where
  "version_middleware m = hbind m (\<lambda>response.
     lift (Inr (response\<lparr>wr_headers := dset PROTOCOL_VERSION_HEADER PROTOCOL_VERSION (wr_headers response)\<rparr>)))"

definition serve :: "'b listener \<Rightarrow> endpoint \<Rightarrow> inbound \<Rightarrow> 'b web_response io" where
  "serve L ep rq = version_middleware (dispatch L ep rq)"

definition start :: "(hcall list \<Rightarrow> hcall \<Rightarrow> exn + 'b outcome) \<Rightarrow> 'b listener \<Rightarrow> 'b listener" where
  "start h L = L\<lparr>l_handler := Some h\<rparr>"

definition stop :: "'b listener \<Rightarrow> 'b listener" where
  "stop L = L"

fun listener_step :: "(hcall list \<Rightarrow> hcall \<Rightarrow> exn + 'b outcome) listener_op \<Rightarrow> 'b listener \<Rightarrow> 'b listener" where
  "listener_step (Start h) L = start h L"
| "listener_step Stop L = stop L"

interpretation http_listener: listener_api listener_step l_handler
  by unfold_locales (simp_all add: start_def stop_def)

end
