(* ===== verification/Rxon_Listener_Props.thy ===== *)
theory Rxon_Listener_Props
  imports Rxon_Listener
begin

text \<open>
  What \<open>HttpListener\<close> promises: every request is answered, an exception of the orchestrator
  becomes the status of its class, each request calls the orchestrator at most once and under
  the identity the request shows, a WebSocket is handed over only after it was authenticated.
  The contract shared by the handlers is a locale, interpreted on the seven HTTP handlers.
\<close>

subsection \<open>Facts on the combinators\<close>

lemma hbind_simps [simp]:
  "hbind (lift (Inr x)) f calls = f x calls"
  "hbind (lift (Inl e)) f calls = (Inl e, calls)"
  by (simp_all add: hbind_def lift_def)

lemma lift_simp [simp]: "lift r calls = (r, calls)"
  by (simp add: lift_def)

lemma hbind_ask [simp]:
  "hbind (ask h a p c) f calls =
     (case h calls (HCall a p c) of Inl e \<Rightarrow> (Inl e, calls @ [HCall a p c]) | Inr x \<Rightarrow> f x (calls @ [HCall a p c]))"
  by (simp add: hbind_def ask_def split: sum.split)

lemma snd_guarded [simp]: "snd (guarded L m calls) = snd (m calls)"
  by (simp add: guarded_def split: prod.split sum.split)

lemma guarded_raised:
  "fst (m calls) = Inl e \<Longrightarrow> is_exception e \<Longrightarrow>
    fst (guarded L m calls) = encode (l_codec L) (error_body (l_codec L) e) (error_status e)"
  by (cases "m calls") (simp add: guarded_def)

text \<open>The listener can write the report of an exception: its message, and for 429 its code.\<close>

definition reports :: "'b codec \<Rightarrow> exn \<Rightarrow> bool" where
  "reports C e \<longleftrightarrow> (\<exists>r. encode C (error_body C e) (error_status e) = Inr r)"

lemma encode_Inr: "encode C v st = Inr r \<Longrightarrow> wr_status r = st \<and>
    (\<exists>d t. to_dict C v 0 = Inr d \<and> json_dumps C d = Inr t \<and> wr_body r = JsonBody t)"
  by (auto simp: encode_def)

lemma guarded_Inl:
  "guarded L m calls = (Inl e, calls') \<Longrightarrow> is_py Cancelled e \<or>
    (\<exists>e'. fst (m calls) = Inl e' \<and> is_exception e' \<and> \<not> reports (l_codec L) e')"
  by (auto simp: guarded_def reports_def is_exception_def split: prod.splits sum.splits if_splits)

text \<open>The exceptions that can reach the \<open>except\<close> clauses: of the parser, the orchestrator, the encoder.\<close>

definition raised_in :: "'b listener \<Rightarrow> inbound \<Rightarrow> hcall list \<Rightarrow> exn \<Rightarrow> bool" where
  "raised_in L rq calls e \<longleftrightarrow> in_json rq = Inl e \<or>
     (\<exists>h c. l_handler L = Some h \<and> h calls c = Inl e) \<or> (\<exists>v st. encode (l_codec L) v st = Inl e)"

lemma json_response_Inl: "json_response C x st = Inl e \<Longrightarrow> \<exists>v st. encode C v st = Inl e"
  by (cases x) auto

lemmas handler_eval = hbind_def lift_def ask_def raised_in_def

subsection \<open>The contract of an HTTP handler\<close>

locale endpoint =
  fixes handle :: "'b listener \<Rightarrow> inbound \<Rightarrow> 'b web_response io"
    and action :: string
    and context_of :: "'b listener \<Rightarrow> inbound \<Rightarrow> pyval dict"
  assumes at_most_one: "snd (handle L rq calls) = calls \<or>
      (\<exists>p. snd (handle L rq calls) = calls @ [HCall action p (context_of L rq)])"
    and uninitialised: "l_handler L = None \<Longrightarrow> snd (handle L rq calls) = calls"
    and answers: "handle L rq calls = (Inl e, calls') \<Longrightarrow>
      is_py Cancelled e \<or> (\<exists>e'. raised_in L rq calls e' \<and> is_exception e' \<and> \<not> reports (l_codec L) e')"
    and reported: "l_handler L = Some h \<Longrightarrow> (\<And>c. h calls c = Inl e) \<Longrightarrow> is_exception e \<Longrightarrow>
      snd (handle L rq calls) \<noteq> calls \<Longrightarrow>
      fst (handle L rq calls) = encode (l_codec L) (error_body (l_codec L) e) (error_status e)"
begin

lemma run_attributed:
  "\<exists>cs. foldl (\<lambda>c rq. snd (handle L rq c)) calls rqs = calls @ cs \<and> length cs \<le> length rqs \<and>
     (\<forall>c\<in>set cs. hc_action c = action \<and> (\<exists>rq\<in>set rqs. hc_context c = context_of L rq))"
proof (induction rqs arbitrary: calls)
  case (Cons rq rqs)
  obtain cs1 where cs1: "snd (handle L rq calls) = calls @ cs1" "length cs1 \<le> 1"
      "\<forall>c\<in>set cs1. hc_action c = action \<and> hc_context c = context_of L rq"
    using at_most_one [of L rq calls] by (elim disjE exE) (auto intro: that [of "[]"] that [of "[_]"])
  from Cons.IH [of "calls @ cs1"] obtain cs where
    "foldl (\<lambda>c rq. snd (handle L rq c)) (calls @ cs1) rqs = (calls @ cs1) @ cs" "length cs \<le> length rqs"
    "\<forall>c\<in>set cs. hc_action c = action \<and> (\<exists>rq\<in>set rqs. hc_context c = context_of L rq)" by blast
  with cs1 show ?case by (intro exI [of _ "cs1 @ cs"]) auto
qed simp

lemma silent_without_handler:
  "l_handler L = None \<Longrightarrow> foldl (\<lambda>c rq. snd (handle L rq c)) calls rqs = calls"
  by (induction rqs arbitrary: calls) (auto simp: uninitialised)

end

lemma endpoint_guarded:
  assumes m: "\<And>L rq. handle L rq = guarded L (m L rq)"
    and one: "\<And>L rq calls. snd (m L rq calls) = calls \<or>
      (\<exists>p. snd (m L rq calls) = calls @ [HCall action p (context_of L rq)])"
    and none: "\<And>L rq calls. l_handler L = None \<Longrightarrow> snd (m L rq calls) = calls"
    and raised: "\<And>L rq calls h e. l_handler L = Some h \<Longrightarrow> (\<And>c. h calls c = Inl e) \<Longrightarrow>
      snd (m L rq calls) \<noteq> calls \<Longrightarrow> fst (m L rq calls) = Inl e"
    and src: "\<And>L rq calls e. fst (m L rq calls) = Inl e \<Longrightarrow> raised_in L rq calls e"
  shows "endpoint handle action context_of"
proof
  fix L rq calls h e calls'
  show "snd (handle L rq calls) = calls \<or> (\<exists>p. snd (handle L rq calls) = calls @ [HCall action p (context_of L rq)])"
    using one by (simp add: m)
  show "l_handler L = None \<Longrightarrow> snd (handle L rq calls) = calls" using none by (simp add: m)
  show "handle L rq calls = (Inl e, calls') \<Longrightarrow> is_py Cancelled e \<or> (\<exists>e'. raised_in L rq calls e' \<and> is_exception e' \<and> \<not> reports (l_codec L) e')"
    using src [of L rq calls] by (auto simp: m dest!: guarded_Inl)
  show "l_handler L = Some h \<Longrightarrow> (\<And>c. h calls c = Inl e) \<Longrightarrow> is_exception e \<Longrightarrow> snd (handle L rq calls) \<noteq> calls \<Longrightarrow>
      fst (handle L rq calls) = encode (l_codec L) (error_body (l_codec L) e) (error_status e)"
    using raised by (simp add: m guarded_raised)
qed

lemma endpoint_post: "endpoint (handle_post action dflt) action (\<lambda>L. extract_context)"
  by (rule endpoint_guarded, unfold handle_post_def, rule refl)
    (auto simp: handler_eval dest!: json_response_Inl split: prod.splits sum.splits option.splits)

interpretation register: endpoint handle_register "''register''" "\<lambda>L. extract_context"
  unfolding handle_register_def by (rule endpoint_post)

interpretation result: endpoint handle_result "''result''" "\<lambda>L. extract_context"
  unfolding handle_result_def by (rule endpoint_post)

interpretation event: endpoint handle_event "''event''" "\<lambda>L. extract_context"
  unfolding handle_event_def by (rule endpoint_post)

interpretation poll: endpoint handle_poll "''poll''"
    "\<lambda>L rq. poll_context L rq (the (in_match_info rq ''worker_id''))"
  by (rule endpoint_guarded, unfold handle_poll_def, rule refl)
    (auto simp: handler_eval dest!: json_response_Inl split: prod.splits sum.splits option.splits if_splits)

interpretation heartbeat: endpoint handle_heartbeat "''heartbeat''"
    "\<lambda>L rq. dset ''worker_id_hint'' (opt_str (in_match_info rq ''worker_id'')) (extract_context rq)"
  by (rule endpoint_guarded, unfold handle_heartbeat_def, rule refl)
    (auto simp: handler_eval dest!: json_response_Inl split: prod.splits sum.splits option.splits if_splits)

interpretation sts: endpoint handle_sts "''sts_token''" "\<lambda>L. extract_context"
  by (rule endpoint_guarded, unfold handle_sts_def, rule refl)
    (auto simp: handler_eval dest!: json_response_Inl split: prod.splits sum.splits option.splits if_splits)

interpretation sts_refresh: endpoint handle_sts_refresh "''sts_refresh''" "\<lambda>L. extract_context"
  by (rule endpoint_guarded, unfold handle_sts_refresh_def, rule refl)
    (auto simp: handler_eval dest!: json_response_Inl split: prod.splits sum.splits option.splits if_splits)


subsection \<open>Properties\<close>

lemma error_status_table:
  "error_status e = (case e of
        HttpExn st text reason \<Rightarrow> st
      | PyExn k m \<Rightarrow> if k = PermissionError then 403 else if k = ValueError then 400 else 500
      | RxonExn c m d \<Rightarrow> if c = RxonRateLimitError then 429 else 500)"
proof -
  have "py_sub k PermissionError = (k = PermissionError)" "py_sub k ValueError = (k = ValueError)" for k
    by (cases k; simp)+
  moreover have "c \<le> RxonRateLimitError \<longleftrightarrow> c = RxonRateLimitError" for c
    by (cases c) (simp_all add: less_eq_rxon_class_def)
  ultimately show ?thesis by (cases e) (simp_all add: error_status_def)
qed

lemma error_body_table:
  "error_body C e = PDict (case e of
        HttpExn st text reason \<Rightarrow>
          [(''error'', PStr (case text of Some s \<Rightarrow> if s = [] then reason else s | None \<Rightarrow> reason))]
      | PyExn k m \<Rightarrow> [(''error'', PStr m)]
      | RxonExn c m d \<Rightarrow>
          (''error'', PStr (case m of PStr s \<Rightarrow> s | _ \<Rightarrow> py_str C m)) #
          (if c = RxonRateLimitError then [(''code'', case dget ''code'' d of Some v \<Rightarrow> v | None \<Rightarrow> PNone)] else []))"
proof (cases e)
  case (RxonExn c m d)
  have "exn_str (py_str C) (RxonExn c m d) = (case m of PStr s \<Rightarrow> s | _ \<Rightarrow> py_str C m)" for c by (cases m) simp_all
  moreover have "c \<le> RxonRateLimitError \<longleftrightarrow> c = RxonRateLimitError"
    by (cases c) (simp_all add: less_eq_rxon_class_def)
  ultimately show ?thesis using RxonExn by (simp add: error_body_def)
qed (simp_all add: error_body_def split: option.split)

text \<open>The action under which an endpoint calls the orchestrator, and the context it passes.\<close>

fun action_of :: "endpoint \<Rightarrow> string" where
  "action_of EpRegister = ''register''"
| "action_of EpPoll = ''poll''"
| "action_of EpResult = ''result''"
| "action_of EpHeartbeat = ''heartbeat''"
| "action_of EpEvent = ''event''"
| "action_of EpSts = ''sts_token''"
| "action_of EpStsRefresh = ''sts_refresh''"
| "action_of EpWs = ''websocket''"

fun context_for :: "'b listener \<Rightarrow> endpoint \<Rightarrow> inbound \<Rightarrow> pyval dict" where
  "context_for L EpPoll rq = poll_context L rq (the (in_match_info rq ''worker_id''))"
| "context_for L EpHeartbeat rq =
     dset ''worker_id_hint'' (opt_str (in_match_info rq ''worker_id'')) (extract_context rq)"
| "context_for L EpWs rq = ws_context rq"
| "context_for L _ rq = extract_context rq"

text \<open>So the dispatcher obeys the contract at every HTTP endpoint.\<close>

lemma dispatch_endpoint:
  "ep \<noteq> EpWs \<Longrightarrow> endpoint (\<lambda>L. dispatch L ep) (action_of ep) (\<lambda>L. context_for L ep)"
proof -
  have c: "(\<lambda>L. context_for L e) = (\<lambda>L. extract_context)" if "e \<in> {EpRegister, EpResult, EpEvent, EpSts, EpStsRefresh}" for e
    using that by (auto intro!: ext)
  have p: "(\<lambda>L. context_for L EpPoll) = (\<lambda>L rq. poll_context L rq (the (in_match_info rq ''worker_id'')))"
    "(\<lambda>L. context_for L EpHeartbeat) =
      (\<lambda>L rq. dset ''worker_id_hint'' (opt_str (in_match_info rq ''worker_id'')) (extract_context rq))"
    by (auto intro!: ext)
  show "ep \<noteq> EpWs \<Longrightarrow> ?thesis"
    by (cases ep) (simp_all add: c p register.endpoint_axioms result.endpoint_axioms event.endpoint_axioms
        poll.endpoint_axioms heartbeat.endpoint_axioms sts.endpoint_axioms sts_refresh.endpoint_axioms)
qed

lemmas dispatch_reported = endpoint.reported [OF dispatch_endpoint]
lemmas dispatch_answers = endpoint.answers [OF dispatch_endpoint]

lemma serve_eq:
  "serve L ep rq calls =
     (case dispatch L ep rq calls of
        (Inl e, calls') \<Rightarrow> (Inl e, calls')
      | (Inr r, calls') \<Rightarrow>
          (Inr (r\<lparr>wr_headers := dset PROTOCOL_VERSION_HEADER PROTOCOL_VERSION (wr_headers r)\<rparr>), calls'))"
  by (simp add: serve_def version_middleware_def hbind_def lift_def cong: sum.case_cong)

lemma snd_serve [simp]: "snd (serve L ep rq calls) = snd (dispatch L ep rq calls)"
  by (simp add: serve_eq split: prod.split sum.split)

text \<open>
  C10: An exception the orchestrator raises in the call an HTTP endpoint makes becomes the HTTP
  status of its class (an HTTP exception its own, PermissionError 403, a rate limit 429,
  ValueError 400, anything else 500), with a JSON object as body and the protocol version in the
  headers. The object is what the codec serialises from the message under error (for an HTTP
  exception its text, or its reason when that is missing or empty) and, for a rate limit, the code
  of its details (null when there is none) under code, and nothing else. The codec has to be able
  to encode this report.
\<close>
theorem listener_error_status:
  assumes "ep \<noteq> EpWs" and "l_handler L = Some h" and "\<And>c. h calls c = Inl e" and "is_exception e"
    and "reports (l_codec L) e" and "snd (serve L ep rq calls) \<noteq> calls"
  shows "\<exists>r d t. fst (serve L ep rq calls) = Inr r \<and>
    wr_status r = (case e of
        HttpExn st text reason \<Rightarrow> st
      | PyExn k m \<Rightarrow> if k = PermissionError then 403 else if k = ValueError then 400 else 500
      | RxonExn c m d \<Rightarrow> if c = RxonRateLimitError then 429 else 500) \<and>
    to_dict (l_codec L) (PDict (case e of
        HttpExn st text reason \<Rightarrow>
          [(''error'', PStr (case text of Some s \<Rightarrow> if s = [] then reason else s | None \<Rightarrow> reason))]
      | PyExn k m \<Rightarrow> [(''error'', PStr m)]
      | RxonExn c m d \<Rightarrow>
          (''error'', PStr (case m of PStr s \<Rightarrow> s | _ \<Rightarrow> py_str (l_codec L) m)) #
          (if c = RxonRateLimitError then [(''code'', case dget ''code'' d of Some v \<Rightarrow> v | None \<Rightarrow> PNone)] else []))) 0 = Inr d \<and>
    json_dumps (l_codec L) d = Inr t \<and> wr_body r = JsonBody t \<and> dget PROTOCOL_VERSION_HEADER (wr_headers r) = Some PROTOCOL_VERSION"
proof -
  obtain r where r: "encode (l_codec L) (error_body (l_codec L) e) (error_status e) = Inr r"
    using assms(5) by (auto simp: reports_def)
  have "fst (dispatch L ep rq calls) = Inr r"
    using dispatch_reported [OF assms(1-4)] assms(6) r by simp
  with encode_Inr [OF r] show ?thesis
    unfolding error_status_table [symmetric] error_body_table [symmetric]
    by (cases "dispatch L ep rq calls") (auto simp: serve_eq)
qed

definition plain_listener :: "(hcall list \<Rightarrow> hcall \<Rightarrow> exn + pyval outcome) option \<Rightarrow> pyval listener" where
  "plain_listener h = \<lparr>l_codec = plain_codec, l_float = (\<lambda>s. None), l_resp_truthy = (\<lambda>r. True), l_handler = h\<rparr>"

definition rq0 :: inbound where
  "rq0 = \<lparr>in_headers = (\<lambda>h. if h = AUTH_HEADER_WORKER_ID then Some ''w1'' else None), in_json = Inr (PDict []),
     in_can_read_body = True, in_match_info = (\<lambda>k. Some ''w2''), in_query = [(''available_skills'', ''a,b'')],
     in_ssl = None, in_self = PObj 0 ''request'', in_ws = Inr (PObj 1 ''ws'')\<rparr>"

lemmas listener_eval = plain_listener_def rq0_def handle_post_def handle_register_def handle_poll_def handle_ws_def
  reports_def encode_def error_body_def error_status_def json_dumps_def to_dict_def plain_codec_def
  MAX_RECURSION_DEPTH_def is_exception_def guarded_def

theorem listener_error_status_witness:
  "\<exists>r. fst (serve (plain_listener (Some (\<lambda>l c. Inl (PyExn PermissionError ''unknown worker'')))) EpRegister rq0 []) = Inr r \<and>
    wr_status r = 403"
proof -
  let ?L = "plain_listener (Some (\<lambda>l c. Inl (PyExn PermissionError ''unknown worker'')))"
  have "reports (l_codec ?L) (PyExn PermissionError ''unknown worker'')"
    "snd (serve ?L EpRegister rq0 []) \<noteq> []"
    by (simp_all add: listener_eval)
  with listener_error_status [of EpRegister ?L "\<lambda>l c. Inl (PyExn PermissionError ''unknown worker'')" "[]"
      "PyExn PermissionError ''unknown worker''" rq0]
  show ?thesis by (auto simp: plain_listener_def error_status_def is_exception_def)
qed

text \<open>
  C36: When the listener can write the reports of the exceptions that occur, the only exception
  that leaves an HTTP endpoint is a cancellation: every other request is answered.
\<close>
theorem listener_always_answers:
  assumes "ep \<noteq> EpWs" and "\<And>e'. raised_in L rq calls e' \<Longrightarrow> is_exception e' \<Longrightarrow> reports (l_codec L) e'"
    and "serve L ep rq calls = (Inl e, calls')"
  shows "is_py Cancelled e"
proof -
  from assms(3) have "dispatch L ep rq calls = (Inl e, calls')"
    by (cases "dispatch L ep rq calls") (auto simp: serve_eq split: sum.splits)
  from dispatch_answers [OF assms(1) this] assms(2) show ?thesis by blast
qed

lemma plain_encode_Inl: "encode plain_codec v st = Inl e \<Longrightarrow> \<exists>k m. e = PyExn k m"
proof -
  have fin: "finalize_structure n w = Inl e' \<Longrightarrow> \<exists>k m. e' = PyExn k m" for n w e'
    by (auto simp: finalize_equiv recursion_error_def split: if_splits)
  have td: "to_dict plain_codec w n = Inl e' \<Longrightarrow> \<exists>k m. e' = PyExn k m" for n w e'
    unfolding to_dict_def using fin
    by (fastforce simp: plain_codec_def recursion_error_def rbind_Inl_iff split: if_splits sum.splits)
  show "encode plain_codec v st = Inl e \<Longrightarrow> ?thesis"
    by (auto simp: encode_def json_dumps_def rbind_Inl_iff dest: td)
      (auto simp: plain_codec_def split: if_splits)
qed

theorem listener_always_answers_witness:
  "\<exists>r. fst (serve (plain_listener (Some (\<lambda>l c. Inl (PyExn ValueError ''no such task'')))) EpResult rq0 []) = Inr r"
proof -
  let ?L = "plain_listener (Some (\<lambda>l c. Inl (PyExn ValueError ''no such task'')))"
  have rep: "reports (l_codec ?L) e" if "raised_in ?L rq0 [] e" for e
  proof -
    from that have "\<exists>k m. e = PyExn k m"
      by (auto simp: raised_in_def plain_listener_def rq0_def dest: plain_encode_Inl)
    then obtain k m where "e = PyExn k m" by blast
    then show ?thesis
      by (simp add: reports_def error_body_def encode_def json_dumps_def to_dict_def plain_listener_def plain_codec_def
          MAX_RECURSION_DEPTH_def)
  qed
  obtain r calls' where s: "serve ?L EpResult rq0 [] = (r, calls')" by (cases "serve ?L EpResult rq0 []")
  have "is_py Cancelled e" if "r = Inl e" for e
    by (rule listener_always_answers [of EpResult ?L rq0 "[]" e calls']) (use rep s that in auto)
  moreover have "fst (dispatch ?L EpResult rq0 []) =
      encode plain_codec (error_body plain_codec (PyExn ValueError ''no such task'')) 400"
    using dispatch_reported [of EpResult ?L "\<lambda>l c. Inl (PyExn ValueError ''no such task'')" "[]"
        "PyExn ValueError ''no such task''" rq0]
    by (simp add: plain_listener_def is_exception_def error_status_def handle_result_def handle_post_def rq0_def)
  then have "\<not> is_py Cancelled e" if "r = Inl e" for e
    using s that by (auto simp: serve_eq error_body_def encode_def json_dumps_def to_dict_def plain_codec_def
        MAX_RECURSION_DEPTH_def split: prod.splits sum.splits)
  ultimately show ?thesis using s by (cases r) auto
qed

text \<open>
  C22: Over any sequence of requests to an HTTP endpoint, the orchestrator is called at most once
  per request, under the action of the endpoint and with the context of one of these requests.
\<close>
theorem listener_calls_attributed:
  assumes "ep \<noteq> EpWs"
  shows "\<exists>cs. foldl (\<lambda>c rq. snd (serve L ep rq c)) calls rqs = calls @ cs \<and> length cs \<le> length rqs \<and>
    (\<forall>c\<in>set cs. hc_action c = action_of ep \<and> (\<exists>rq\<in>set rqs. hc_context c = context_for L ep rq))"
  using endpoint.run_attributed [OF dispatch_endpoint [OF assms], of L calls rqs] by simp

theorem listener_calls_attributed_witness:
  "\<exists>cs. foldl (\<lambda>c rq. snd (serve (plain_listener None) EpSts rq c)) [] [rq0, rq0] = [] @ cs \<and> length cs \<le> 2"
  using listener_calls_attributed [of EpSts "plain_listener None" "[]" "[rq0, rq0]"] by auto

lemma dget_add_skills: "dget k (add_skills name rq c) = (if k = name \<and> dget name (in_query rq) \<noteq> None
    then map_option skill_list (dget name (in_query rq)) else dget k c)"
  by (auto simp: add_skills_def split: option.split)

lemma dget_extract_context [simp]:
  "dget ''token'' (extract_context rq) = Some (opt_str (in_headers rq AUTH_HEADER_WORKER))"
  "dget ''worker_id_hint'' (extract_context rq) = Some (opt_str (in_headers rq AUTH_HEADER_WORKER_ID))"
  "dget ''protocol_version'' (extract_context rq) = Some (opt_str (in_headers rq PROTOCOL_VERSION_HEADER))"
  "dget ''cert_identity'' (extract_context rq) = Some (opt_str (extract_cert_identity (in_ssl rq)))"
  by (simp_all add: extract_context_def dget_def)

text \<open>
  For polls, heartbeats and WebSockets the worker identity the orchestrator sees is the one of the
  path, whatever the identity header says; token and certificate identity are those of the
  request.
\<close>
theorem path_identity_wins:
  assumes "ep \<in> {EpPoll, EpHeartbeat, EpWs}" and "in_match_info rq ''worker_id'' = Some w" and "w \<noteq> []"
    and "HCall action payload context \<in> set (snd (serve L ep rq []))"
  shows "dget ''worker_id_hint'' context = Some (PStr w) \<and>
    dget ''token'' context = Some (opt_str (in_headers rq AUTH_HEADER_WORKER)) \<and>
    dget ''cert_identity'' context = Some (opt_str (extract_cert_identity (in_ssl rq)))"
proof -
  have ws: "hc_context c = ws_context rq" if "c \<in> set (snd (handle_ws L rq []))" for c
    using that by (auto simp: handle_ws_def ask_def hbind_def lift_def split: option.splits sum.splits)
  have "context = context_for L ep rq"
    using assms(1,4) ws poll.at_most_one [of L rq "[]"] heartbeat.at_most_one [of L rq "[]"] by force
  with assms(1-3) show ?thesis
    by (auto simp: poll_context_def ws_context_def dget_add_skills opt_str_def)
qed

theorem path_identity_wins_witness:
  "dget ''worker_id_hint'' (poll_context (plain_listener (Some (\<lambda>l c. Inr (Value PNone)))) rq0 ''w2'') = Some (PStr ''w2'')"
proof -
  let ?L = "plain_listener (Some (\<lambda>l c. Inr (Value PNone)))"
  have "HCall ''poll'' (PStr ''w2'') (poll_context ?L rq0 ''w2'') \<in> set (snd (serve ?L EpPoll rq0 []))"
    by (simp add: handle_poll_def plain_listener_def) (simp add: rq0_def)
  from path_identity_wins [OF _ _ _ this, of "''w2''"] show ?thesis by (simp add: rq0_def)
qed

text \<open>
  C28: A WebSocket is handed to an initialised orchestrator only after its authentication call for
  the same context returned without an exception.
\<close>
theorem websocket_after_auth:
  assumes "l_handler L = Some h"
    and "HCall ''websocket'' ws context \<in> set (snd (serve L EpWs rq []))"
  shows "snd (serve L EpWs rq []) = [HCall ''websocket_auth'' PNone (ws_context rq), HCall ''websocket'' ws (ws_context rq)] \<and>
    (\<exists>res. h [] (HCall ''websocket_auth'' PNone (ws_context rq)) = Inr res) \<and> in_ws rq = Inr ws"
  using assms by (auto simp: handle_ws_def ask_def hbind_def lift_def split: sum.splits)

theorem websocket_after_auth_witness:
  "length (snd (serve (plain_listener (Some (\<lambda>l c. Inr (Value PNone)))) EpWs rq0 [])) = 2"
proof -
  let ?L = "plain_listener (Some (\<lambda>l c. Inr (Value PNone)))"
  have "HCall ''websocket'' (PObj 1 ''ws'') (ws_context rq0) \<in> set (snd (serve ?L EpWs rq0 []))"
    by (simp add: handle_ws_def ask_def plain_listener_def) (simp add: rq0_def)
  from websocket_after_auth [OF _ this, of "\<lambda>l c. Inr (Value PNone)"] show ?thesis
    by (simp add: plain_listener_def)
qed

text \<open>
  Before start, every HTTP endpoint answers with an error status and calls nothing; a WebSocket
  request is accepted all the same, without authentication.
\<close>
theorem uninitialised_listener:
  assumes "l_handler L = None" and "\<And>e. in_json rq = Inl e \<Longrightarrow> 400 \<le> error_status e"
    and enc: "\<And>v st e. encode (l_codec L) v st = Inl e \<Longrightarrow> 400 \<le> error_status e"
    and "serve L ep rq calls = (Inr r, calls')"
  shows "calls' = calls \<and> (ep \<noteq> EpWs \<longrightarrow> 400 \<le> wr_status r) \<and> (ep = EpWs \<longrightarrow> wr_status r = 101)"
proof -
  from assms(4) obtain r0 where r0: "dispatch L ep rq calls = (Inr r0, calls')" "wr_status r0 = wr_status r"
    by (cases "dispatch L ep rq calls") (auto simp: serve_eq split: sum.splits)
  have "ep \<noteq> EpWs \<longrightarrow> 400 \<le> wr_status r0"
    using assms(1,2) r0(1)
    by (cases ep; cases "in_json rq") (auto simp: handle_post_def handle_register_def handle_result_def handle_event_def handle_poll_def
        handle_heartbeat_def handle_sts_def handle_sts_refresh_def guarded_def
        text_response_def dest!: encode_Inr enc split: sum.splits option.splits if_splits prod.splits)
  moreover have "ep = EpWs \<longrightarrow> wr_status r0 = 101 \<and> calls' = calls"
    using assms(1) r0(1) by (auto simp: handle_ws_def ws_response_def)
  moreover have "ep \<noteq> EpWs \<longrightarrow> calls' = calls"
    using endpoint.uninitialised [OF dispatch_endpoint assms(1), of ep rq calls] r0(1) by auto
  ultimately show ?thesis using r0(2) by auto
qed

theorem uninitialised_listener_witness:
  "\<exists>r. serve (plain_listener None) EpWs rq0 [] = (Inr r, []) \<and> wr_status r = 101"
proof -
  have "serve (plain_listener None) EpWs rq0 [] =
      (Inr ((ws_response (PObj 1 ''ws''))\<lparr>wr_headers := [(PROTOCOL_VERSION_HEADER, PROTOCOL_VERSION)]\<rparr>), [])"
    by (simp add: serve_eq handle_ws_def plain_listener_def rq0_def ws_response_def)
  moreover have "400 \<le> error_status e" if "encode (l_codec (plain_listener None)) v st = Inl e" for v st e
    using plain_encode_Inl [of v st e] that by (auto simp: plain_listener_def error_status_def)
  moreover have "in_json rq0 \<noteq> Inl e" "l_handler (plain_listener None) = None" for e
    by (simp_all add: rq0_def plain_listener_def)
  ultimately show ?thesis
    using uninitialised_listener [of "plain_listener None" rq0 EpWs "[]"] by blast
qed

subsection \<open>The skills of a poll\<close>

lemma lstrip_id: "hd s \<notin> set cs \<Longrightarrow> lstrip cs s = s"
  by (cases s) (simp_all add: lstrip_def)

lemma strip_id: "hd s \<notin> set cs \<Longrightarrow> last s \<notin> set cs \<Longrightarrow> s \<noteq> [] \<Longrightarrow> strip cs s = s"
  by (simp add: strip_def rstrip_def lstrip_id hd_rev)

definition plain_skill :: "string \<Rightarrow> bool" where
  "plain_skill s \<longleftrightarrow> s \<noteq> [] \<and> CHR '','' \<notin> set s \<and> hd s \<notin> set whitespace \<and> last s \<notin> set whitespace"

lemma skill_list_join:
  assumes "list_all plain_skill skills"
  shows "skill_list (join '','' skills) = PList (map PStr skills)"
proof (cases "skills = []")
  case True
  then show ?thesis by (simp add: skill_list_def strip_def rstrip_def lstrip_def)
next
  case False
  then have "split_on CHR '','' (join '','' skills) = skills"
    using assms by (intro split_on_join) (auto simp: list_all_iff plain_skill_def)
  moreover have "map (strip whitespace) skills = skills"
    using assms by (intro map_idI strip_id) (auto simp: list_all_iff plain_skill_def)
  moreover have "filter (\<lambda>s. s \<noteq> []) skills = skills"
    using assms by (intro filter_True) (auto simp: list_all_iff plain_skill_def)
  ultimately show ?thesis by (simp add: skill_list_def)
qed

end
