(* ===== verification/Rxon_Link.thy ===== *)
theory Rxon_Link
  imports Rxon_Client_Ops Rxon_Listener_Props
begin

text \<open>
  The client and the listener over one connection.  aiohttp carries requests and responses
  between them; what the two sides rely on in it is stated as two relations, one per
  direction, and the properties relate what the client sends to what the orchestrator sees,
  and what the orchestrator raises to what the client raises.
\<close>

subsection \<open>What the connection carries\<close>

text \<open>
  A request arrives with its headers, its JSON body as the codec writes it, its query
  parameters as text, and the path segment of its template.
\<close>

definition received :: "'b codec \<Rightarrow> http_request \<Rightarrow> inbound \<Rightarrow> bool" where
  "received C rq inb \<longleftrightarrow>
     (\<forall>h. in_headers inb h = dget h (rq_headers rq)) \<and>
     (\<forall>v b. rq_json rq = Some v \<longrightarrow> json_dumps C v = Inr b \<longrightarrow> in_json inb = oj_loads C b) \<and>
     (\<forall>d k s. rq_params rq = Some d \<longrightarrow> dget k d = Some (PStr s) \<longrightarrow> dget k (in_query inb) = Some s)"

text \<open>
  A response arrives with its status and headers; a JSON body parses as the codec reads it,
  another body raises \<open>ContentTypeError\<close>.
\<close>

definition answered :: "'b codec \<Rightarrow> 'b web_response \<Rightarrow> http_response \<Rightarrow> bool" where
  "answered C wr hr \<longleftrightarrow> rs_status hr = wr_status wr \<and> (\<forall>h. rs_header hr h = dget h (wr_headers wr)) \<and>
     (\<exists>t. rs_text hr = Inr t) \<and>
     (case wr_body wr of
        JsonBody b \<Rightarrow> rs_json hr = oj_loads C b
      | _ \<Rightarrow> (\<exists>m. rs_json hr = Inl (PyExn ContentTypeError m)))"

text \<open>A response that arrives so.\<close>

definition reply_of :: "'b codec \<Rightarrow> 'b web_response \<Rightarrow> http_response" where
  "reply_of C wr = \<lparr>rs_status = wr_status wr, rs_header = (\<lambda>h. dget h (wr_headers wr)),
     rs_json = (case wr_body wr of JsonBody b \<Rightarrow> oj_loads C b | _ \<Rightarrow> Inl (PyExn ContentTypeError ''text/plain'')),
     rs_text = Inr ''body''\<rparr>"

lemma answered_reply_of [simp]: "answered C wr (reply_of C wr)"
  by (auto simp: answered_def reply_of_def split: body.split)

subsection \<open>Values that travel as JSON\<close>

lemma to_dict_normal:
  assumes "codec_ok C" and "is_json v" and "to_dict C v 0 = Inr d"
  shows "json_eq d (normal v)"
proof (cases "v = PNone")
  case False
  with assms(3) obtain b u where "oj_dumps C (Some (default_handler C)) [OPT_SORT_KEYS, OPT_NON_STR_KEYS] v = Inr b"
    "oj_loads C b = Inr u" "d = normal u"
    by (auto simp: to_dict_def finalize_Inr split: if_splits sum.splits)
  with codec_ok_loads_dumps [OF assms(1,2)] have "json_eq v u" by fastforce
  then show ?thesis using json_eq_normal json_eq_sym \<open>d = normal u\<close> by blast
qed (use assms(3) in \<open>auto simp: to_dict_def json_eq_def split: if_splits\<close>)

lemma encode_travels:
  assumes ok: "codec_ok C" and v: "is_json v" "normal v = v" and r: "encode C v st = Inr r"
  shows "\<exists>t p. wr_body r = JsonBody t \<and> oj_loads C t = Inr p \<and> json_eq p v \<and> is_json p"
proof -
  from r obtain d d' t where d: "to_dict C v 0 = Inr d" "to_dict C d 0 = Inr d'" "oj_dumps C None [] d' = Inr t"
    "wr_body r = JsonBody t"
    by (auto simp: encode_def json_dumps_def)
  have j: "is_json d" "is_json d'" using to_dict_Inr [OF ok] d(1,2) by blast+
  have "json_eq d v" using to_dict_normal [OF ok v(1) d(1)] v(2) by simp
  moreover have "json_eq d' (normal d)" using to_dict_normal [OF ok j(1) d(2)] .
  moreover have "json_eq (normal d) (normal v)" using calculation(1) json_eq_normal by blast
  ultimately have "json_eq d' v" using v(2) json_eq_trans by metis
  moreover obtain p where p: "oj_loads C t = Inr p" "json_eq d' p"
    using codec_ok_loads_dumps [OF ok j(2) d(3)] by blast
  moreover have "is_json p" using p codec_ok_loads [OF ok] by blast
  ultimately show ?thesis using d(4) json_eq_sym json_eq_trans by blast
qed

lemma json_eq_dict:
  assumes "json_eq p (PDict e)" and "is_json p" and "distinct (map fst e)"
  shows "\<exists>data. p = PDict data \<and> (\<forall>k s. dget k e = Some (PStr s) \<longrightarrow> dget k data = Some (PStr s))"
proof -
  from assms(1) obtain data where p: "p = PDict data"
    by (cases p) (auto simp: json_eq_def)
  let ?js = "map (apsnd json_sort)"
  have keys: "map fst (?js d) = map fst d" for d :: "(string \<times> pyval) list" by simp
  have "set (sort_key fst (?js data)) = set (sort_key fst (?js e))"
    using assms(1) by (simp add: p json_eq_def json_maps)
  then have "set (?js data) = set (?js e)" by simp
  moreover have "distinct (map fst (?js data))" "distinct (map fst (?js e))"
    using assms(2,3) keys by (simp_all add: p)
  ultimately have "map_of (?js data) = map_of (?js e)" using map_of_inject_set by blast
  moreover have "map_of (?js d) k = map_option json_sort (map_of d k)" for d k
    by (induction d) auto
  ultimately have same: "map_option json_sort (map_of data k) = map_option json_sort (map_of e k)" for k
    by metis
  have str: "json_sort x = PStr s \<Longrightarrow> x = PStr s" for x s by (cases x) auto
  have "dget k data = Some (PStr s)" if "dget k e = Some (PStr s)" for k s
    using same [of k] that str by (auto simp: dget_def)
  with p show ?thesis by blast
qed

subsection \<open>Properties\<close>

text \<open>
  The method and path of every request the client builds belong to a route of the listener, with
  the worker identity in the place of the template's variable.
\<close>
theorem client_routes_registered:
  "(c_method (register_call r), c_endpoint (register_call r), EpRegister) \<in> set routes \<and>
   (c_method (result_call r), c_endpoint (result_call r), EpResult) \<in> set routes \<and>
   (c_method (event_call r), c_endpoint (event_call r), EpEvent) \<in> set routes \<and>
   (c_method (poll_call s t a h), ''/_worker/workers/{worker_id}/tasks/next'', EpPoll) \<in> set routes \<and>
   c_endpoint (poll_call s t a h) = ''/_worker/workers/'' @ worker_id s @ ''/tasks/next'' \<and>
   (c_method (heartbeat_call s r), ''/_worker/workers/{worker_id}'', EpHeartbeat) \<in> set routes \<and>
   c_endpoint (heartbeat_call s r) = ''/_worker/workers/'' @ worker_id s \<and>
   (\<exists>path. rq_url (refresh_request s) = base_url s @ path \<and>
      (rq_method (refresh_request s), path, if str_given (refresh_token_value s) then EpStsRefresh else EpSts) \<in> set routes)"
  using format_task_next [of "worker_id s"] format_heartbeat [of "worker_id s"]
  by (simp add: routes_def register_call_def result_call_def event_call_def poll_call_def heartbeat_call_def
      refresh_request_def ENDPOINT_TASK_NEXT_def ENDPOINT_WORKER_HEARTBEAT_def
      WORKER_API_PREFIX_def)

text \<open>
  C13: End to end: a rate limit the orchestrator raises with a code arrives at the client as
  RxonRateLimitError with status 429 and the same code.
\<close>
theorem rate_limit_reaches_client:
  assumes ok: "codec_ok (l_codec L)" and L: "l_handler L = Some h" "ep \<noteq> EpWs"
    and raise: "\<And>c. h calls c = Inl (RxonExn RxonRateLimitError m details)" "dget ''code'' details = Some (PStr code)"
    and served: "serve L ep inb calls = (Inr wr, calls')" "calls' \<noteq> calls"
    and client: "session_closed s \<noteq> None" "w_peer w (w_log w) (call_request c s (headers s)) = Inr hr"
    and wire: "answered (l_codec L) wr hr"
  shows "\<exists>m' d. fst (http_request_call E c s w) = Inl (RxonExn RxonRateLimitError m' d) \<and>
    dget ''code'' d = Some (PStr code) \<and> dget ''status'' d = Some (PInt 429)"
proof -
  let ?C = "l_codec L" and ?e = "RxonExn RxonRateLimitError m details"
  let ?b = "[(''error'', PStr (exn_str (py_str ?C) ?e)), (''code'', PStr code)]"
  have body: "error_body ?C ?e = PDict ?b" "error_status ?e = 429" "is_exception ?e"
    using raise(2) by (simp_all add: error_body_def error_status_def is_exception_def)
  obtain r0 where r0: "dispatch L ep inb calls = (Inr r0, calls')" "wr_status r0 = wr_status wr" "wr_body r0 = wr_body wr"
    using served(1) by (cases "dispatch L ep inb calls") (auto simp: serve_eq split: sum.splits)
  have enc: "encode ?C (PDict ?b) 429 = Inr r0"
    using dispatch_reported [of ep L h calls ?e inb] L raise(1) served(2) r0(1) body by simp
  then obtain t p where p: "wr_body r0 = JsonBody t" "oj_loads ?C t = Inr p" "json_eq p (PDict ?b)" "is_json p"
    using encode_travels [OF ok, of "PDict ?b" 429 r0] by auto
  then obtain data where data: "p = PDict data" "dget ''code'' data = Some (PStr code)"
    using json_eq_dict [OF p(3,4)] by (auto simp: dget_def)
  have hr: "rs_status hr = 429" "rs_json hr = Inr (PDict data)"
    using wire encode_Inr [OF enc] r0 p data(1) by (auto simp: answered_def)
  have "dget ''status'' (rate_limit_details 429 r) = Some (PInt 429)" for r
    by (simp add: rate_limit_details_def dget_def Let_def split: option.split)
  then have "\<exists>m' d. rate_limited E hr = RxonExn RxonRateLimitError m' d \<and>
      dget ''code'' d = Some (PStr code) \<and> dget ''status'' d = Some (PInt 429)"
    using hr(2) data(2) by (simp add: rate_limited_def mk_rate_limit_simp Let_def)
  with client hr(1) show ?thesis
    by (auto simp: http_request_call_def request_loop.simps exchange_eq Let_def handle_status_def map_err_def wrap_surfaced)
qed

lemma plain_to_dict:
  assumes "is_json u" and "ints_in_range u" and "u \<noteq> PNone" and "levels (json_sort u) \<le> MAX_RECURSION_DEPTH"
  shows "to_dict plain_codec u 0 = Inr (normal (json_sort u))"
proof -
  have "oj_dumps plain_codec h os u = Inr (json_sort u)" for h os
    using assms(1,2) by (simp add: plain_codec_def)
  moreover have "oj_loads plain_codec (json_sort u) = Inr (json_sort u)"
    using assms(1) by (simp add: plain_codec_def is_json_json_sort)
  ultimately show ?thesis using assms(3,4) by (simp add: to_dict_def finalize_Inr)
qed

lemma plain_encode:
  assumes "is_json v" and "normal v = v" and "ints_in_range v" and "levels v \<le> MAX_RECURSION_DEPTH" and "v \<noteq> PNone"
  shows "\<exists>r. encode plain_codec v st = Inr r"
proof -
  let ?s = "json_sort v"
  have s: "is_json ?s" "ints_in_range ?s" "levels ?s \<le> MAX_RECURSION_DEPTH" "normal ?s = ?s" "?s \<noteq> PNone"
    using assms by (simp_all add: is_json_json_sort normal_json_sort)
  have "to_dict plain_codec v 0 = Inr (normal ?s)" by (rule plain_to_dict [OF assms(1,3,5) s(3)])
  then have "to_dict plain_codec v 0 = Inr ?s" by (simp only: s(4))
  moreover have "to_dict plain_codec ?s 0 = Inr (normal (json_sort ?s))"
    by (rule plain_to_dict [OF s(1,2,5)]) (simp only: json_sort_idem s(3))
  then have "to_dict plain_codec ?s 0 = Inr ?s" by (simp only: json_sort_idem s(4))
  moreover have "oj_dumps plain_codec None [] ?s = Inr ?s"
    using s by (simp add: plain_codec_def)
  ultimately show ?thesis by (simp add: encode_def json_dumps_def)
qed

theorem rate_limit_reaches_client_witness:
  "\<exists>wr m' d. fst (http_request_call plain_env ping s0 (w_of (\<lambda>l rq. Inr (reply_of plain_codec wr)))) =
     Inl (RxonExn RxonRateLimitError m' d) \<and> dget ''code'' d = Some (PStr ''BUSY'')"
proof -
  let ?e = "RxonExn RxonRateLimitError (PStr ''slow'') [(''code'', PStr ''BUSY'')]"
  let ?L = "plain_listener (Some (\<lambda>l c. Inl ?e))"
  have b: "error_body plain_codec ?e = PDict [(''error'', PStr ''slow''), (''code'', PStr ''BUSY'')]"
    by (simp add: error_body_def dget_def)
  obtain r where r: "encode plain_codec (error_body plain_codec ?e) 429 = Inr r"
    using plain_encode [of "error_body plain_codec ?e" 429] unfolding b
    by (auto simp: MAX_RECURSION_DEPTH_def)
  have "dispatch ?L EpSts rq0 [] = (Inr r, [HCall ''sts_token'' PNone (extract_context rq0)])"
    using r by (simp add: handle_sts_def guarded_def plain_listener_def is_exception_def error_status_def)
  then obtain wr where wr: "serve ?L EpSts rq0 [] = (Inr wr, [HCall ''sts_token'' PNone (extract_context rq0)])"
    by (simp add: serve_eq)
  have "\<exists>m' d. fst (http_request_call plain_env ping s0 (w_of (\<lambda>l rq. Inr (reply_of plain_codec wr)))) =
      Inl (RxonExn RxonRateLimitError m' d) \<and> dget ''code'' d = Some (PStr ''BUSY'') \<and> dget ''status'' d = Some (PInt 429)"
    by (rule rate_limit_reaches_client [OF _ _ _ _ _ wr])
      (auto simp: plain_listener_def plain_codec_ok dget_def w_of_def)
  then show ?thesis by blast
qed

text \<open>
  End to end: after any run of client operations, the context of the orchestrator call for a
  request of the client holds the worker's identity, its current token and the protocol version.
\<close>
theorem identity_reaches_orchestrator:
  assumes "fold (http_step E) ops (HttpTransport_init url wid tok session retries delay, w\<lparr>w_log := []\<rparr>) = (s, w')"
    and "received C (call_request c s (headers s)) inb"
    and "ep \<in> {EpPoll, EpHeartbeat, EpWs} \<Longrightarrow> in_match_info inb ''worker_id'' = Some wid \<and> wid \<noteq> []"
    and "HCall action payload context \<in> set (snd (serve L ep inb []))"
  shows "dget ''worker_id_hint'' context = Some (PStr wid) \<and> dget ''token'' context = Some (PStr (token s)) \<and>
    dget ''protocol_version'' context = Some (PStr PROTOCOL_VERSION)"
proof -
  have "http_inv (fold (http_step E) ops (HttpTransport_init url wid tok session retries delay, w\<lparr>w_log := []\<rparr>))"
    by (rule http.run_inv [OF init_inv])
  then have inv: "http_inv (s, w')" using assms(1) by simp
  have wid: "worker_id s = wid"
    using http.run_identity [of E ops "(HttpTransport_init url wid tok session retries delay, w\<lparr>w_log := []\<rparr>)"] assms(1)
    by (simp add: HttpTransport_init_def)
  have hd: "in_headers inb AUTH_HEADER_WORKER = Some (token s)" "in_headers inb AUTH_HEADER_WORKER_ID = Some wid"
    "in_headers inb PROTOCOL_VERSION_HEADER = Some PROTOCOL_VERSION"
    using assms(2) inv wid by (auto simp: received_def call_request_def http_inv_def coherent_def identified_def)
  have "context = context_for L ep inb"
  proof (cases "ep = EpWs")
    case True
    with assms(4) show ?thesis
      by (auto simp: handle_ws_def ask_def hbind_def lift_def split: option.splits sum.splits)
  next
    case False
    from endpoint.at_most_one [OF dispatch_endpoint [OF False], of L inb "[]"] assms(4) show ?thesis by auto
  qed
  with assms(3) hd show ?thesis
    by (cases ep) (auto simp: poll_context_def ws_context_def dget_add_skills opt_str_def)
qed

definition inbound_of :: "http_request \<Rightarrow> string \<Rightarrow> inbound" where
  "inbound_of rq wid = rq0\<lparr>in_headers := (\<lambda>h. dget h (rq_headers rq)),
     in_json := (case rq_json rq of None \<Rightarrow> Inr PNone | Some v \<Rightarrow> rbind (json_dumps plain_codec v) (oj_loads plain_codec)),
     in_match_info := (\<lambda>k. Some wid),
     in_query := (case rq_params rq of None \<Rightarrow> []
       | Some d \<Rightarrow> List.map_filter (\<lambda>(k, v). case v of PStr s \<Rightarrow> Some (k, s) | _ \<Rightarrow> None) d)\<rparr>"

theorem identity_reaches_orchestrator_witness:
  "\<exists>context. dget ''worker_id_hint'' context = Some (PStr ''w1'') \<and>
     HCall ''sts_token'' PNone context
       \<in> set (snd (serve (plain_listener (Some (\<lambda>l c. Inr (Value PNone)))) EpSts (inbound_of (call_request ping s0 (headers s0)) ''w1'') []))"
proof -
  let ?L = "plain_listener (Some (\<lambda>l c. Inr (Value PNone)))" and ?rq = "call_request ping s0 (headers s0)"
  obtain s w' where f: "fold (http_step plain_env) [Connect]
      (HttpTransport_init ''http://h/'' ''w1'' ''t0'' None 3 (1 / 10), (w_of (\<lambda>l rq. Inr (reply 204 PNone)))\<lparr>w_log := []\<rparr>) = (s, w')"
    by fastforce
  then have s: "s = s0" by (simp add: s0_def)
  have "received plain_codec ?rq (inbound_of ?rq ''w1'')"
    by (auto simp: received_def inbound_of_def call_request_def ping_def)
  then have rc: "received plain_codec (call_request ping s (headers s)) (inbound_of ?rq ''w1'')" by (simp add: s)
  have call: "HCall ''sts_token'' PNone (extract_context (inbound_of ?rq ''w1'')) \<in> set (snd (serve ?L EpSts (inbound_of ?rq ''w1'') []))"
    by (simp add: handle_sts_def plain_listener_def)
  have "EpSts \<in> {EpPoll, EpHeartbeat, EpWs} \<Longrightarrow>
      in_match_info (inbound_of ?rq ''w1'') ''worker_id'' = Some ''w1'' \<and> ''w1'' \<noteq> []" by simp
  from identity_reaches_orchestrator [OF f rc this call] call show ?thesis by blast
qed

lemma dget_skills_param [simp]:
  "dget k (skills_param name skills d) =
     (if k = name \<and> skills \<noteq> None then Some (PStr (join '','' (the skills))) else dget k d)"
  by (auto simp: skills_param_def split: option.split)

text \<open>
  C39: End to end: the skills a worker polls with, joined by commas, arrive at the orchestrator as
  the same list, when no skill is empty, contains a comma or begins or ends with whitespace.
\<close>
theorem polled_skills_reach_orchestrator:
  assumes "received C (call_request (poll_call s timeout (Some skills) hot) s (headers s)) inb"
    and "list_all plain_skill skills"
    and "HCall action payload context \<in> set (snd (serve L EpPoll inb []))"
  shows "dget ''available_skills'' context = Some (PList (map PStr skills))"
proof -
  have "dget ''available_skills'' (in_query inb) = Some (join '','' skills)"
    using assms(1) by (simp add: received_def call_request_def poll_call_def)
  moreover have "context = context_for L EpPoll inb"
    using endpoint.at_most_one [OF dispatch_endpoint, of EpPoll L inb "[]"] assms(3) by auto
  ultimately show ?thesis
    by (simp add: poll_context_def dget_add_skills skill_list_join [OF assms(2)])
qed

theorem polled_skills_reach_orchestrator_witness:
  "dget ''available_skills'' (poll_context (plain_listener (Some (\<lambda>l c. Inr (Value PNone))))
     (inbound_of (call_request (poll_call s0 30 (Some [''a'', ''b'']) None) s0 (headers s0)) ''w1'') ''w1'')
   = Some (PList [PStr ''a'', PStr ''b''])"
proof -
  let ?rq = "call_request (poll_call s0 30 (Some [''a'', ''b'']) None) s0 (headers s0)"
  let ?L = "plain_listener (Some (\<lambda>l c. Inr (Value PNone)))" and ?inb = "inbound_of ?rq ''w1''"
  have rc: "received plain_codec ?rq ?inb"
    by (auto simp: received_def inbound_of_def call_request_def poll_call_def skills_param_def dget_def map_filter_def
        split: if_splits)
  have sk: "list_all plain_skill [''a'', ''b'']"
    by (simp add: plain_skill_def whitespace_def)
  have call: "HCall ''poll'' (PStr ''w1'') (poll_context ?L ?inb ''w1'') \<in> set (snd (serve ?L EpPoll ?inb []))"
    by (simp add: handle_poll_def plain_listener_def) (simp add: inbound_of_def)
  show ?thesis using polled_skills_reach_orchestrator [OF rc sk call] by simp
qed

end
