(* ===== verification/Rxon_System.thy ===== *)
theory Rxon_System
  imports Rxon_Link
begin

text \<open>
  The whole system: an \<open>HttpTransport\<close>, a network that may lose requests and answers, and an
  \<open>HttpListener\<close> with the orchestrator behind it.  The network is an argument: for every
  request it decides, in view of the history, whether it arrives and whether its answer comes
  back; what it hands over satisfies the relations of \<open>Rxon_Link\<close>.  The calls the orchestrator
  has seen are a function of the client's log, so that properties of a run of the client speak
  of both ends.
\<close>

subsection \<open>The network\<close>

datatype delivery =
    Lost exn \<comment> \<open>the request does not arrive; the client sees the exception\<close>
  | Unanswered endpoint inbound exn \<comment> \<open>it is served, and the answer is lost\<close>
  | Delivered endpoint inbound

record 'b network =
  n_deliver :: "action list \<Rightarrow> http_request \<Rightarrow> delivery"
  n_reply :: "'b web_response \<Rightarrow> http_response"
  n_failed :: "exn \<Rightarrow> exn + http_response" \<comment> \<open>an exception leaves the handler\<close>

text \<open>The calls of the orchestrator after the actions of a log.\<close>

fun action_calls :: "'b listener \<Rightarrow> 'b network \<Rightarrow> action list \<Rightarrow> action \<Rightarrow> hcall list \<Rightarrow> hcall list" where
  "action_calls L N past (Sent rq) calls =
     (case n_deliver N past rq of
        Lost e \<Rightarrow> calls
      | Unanswered ep inb e \<Rightarrow> snd (serve L ep inb calls)
      | Delivered ep inb \<Rightarrow> snd (serve L ep inb calls))"
| "action_calls L N past _ calls = calls"

fun calls_from :: "'b listener \<Rightarrow> 'b network \<Rightarrow> action list \<Rightarrow> hcall list \<Rightarrow> action list \<Rightarrow> hcall list" where
  "calls_from L N past calls [] = calls"
| "calls_from L N past calls (a # as) = calls_from L N (past @ [a]) (action_calls L N past a calls) as"

definition orchestrator_calls :: "'b listener \<Rightarrow> 'b network \<Rightarrow> action list \<Rightarrow> hcall list" where
  "orchestrator_calls L N past = calls_from L N [] [] past"

definition system_peer :: "'b listener \<Rightarrow> 'b network \<Rightarrow> action list \<Rightarrow> http_request \<Rightarrow> exn + http_response" where
  "system_peer L N past rq =
     (case n_deliver N past rq of
        Lost e \<Rightarrow> Inl e
      | Unanswered ep inb e \<Rightarrow> Inl e
      | Delivered ep inb \<Rightarrow>
          (case fst (serve L ep inb (orchestrator_calls L N past)) of
             Inr wr \<Rightarrow> Inr (n_reply N wr) | Inl e \<Rightarrow> n_failed N e))"

text \<open>A request belongs to a route of the application; the path's variable is the worker.\<close>

definition routed :: "string \<Rightarrow> http_request \<Rightarrow> endpoint \<Rightarrow> inbound \<Rightarrow> bool" where
  "routed url rq ep inb \<longleftrightarrow> (\<exists>template w. (rq_method rq, template, ep) \<in> set routes \<and>
     rq_url rq = url @ format_worker_id template w \<and>
     (contains ''{worker_id}'' template \<longrightarrow> in_match_info inb ''worker_id'' = Some w))"

definition network_ok :: "'b codec \<Rightarrow> string \<Rightarrow> 'b network \<Rightarrow> bool" where
  "network_ok C url N \<longleftrightarrow>
     (\<forall>past rq ep inb. n_deliver N past rq = Delivered ep inb \<or> (\<exists>e. n_deliver N past rq = Unanswered ep inb e) \<longrightarrow>
        received C rq inb \<and> routed url rq ep inb) \<and>
     (\<forall>wr. answered C wr (n_reply N wr)) \<and>
     (\<forall>e r. n_failed N e = Inr r \<longrightarrow> rs_status r = 500)"

lemma calls_from_snoc:
  "calls_from L N past calls (as @ [a]) = action_calls L N (past @ as) a (calls_from L N past calls as)"
  by (induction as arbitrary: past calls) auto

lemma orchestrator_calls_snoc:
  "orchestrator_calls L N (past @ [a]) = action_calls L N past a (orchestrator_calls L N past)"
  by (simp add: orchestrator_calls_def calls_from_snoc)

lemma orchestrator_calls_Nil [simp]: "orchestrator_calls L N [] = []"
  by (simp add: orchestrator_calls_def)

lemma calls_of_request:
  "n_deliver N past rq = Delivered ep inb \<Longrightarrow>
    orchestrator_calls L N (past @ [Sent rq]) = snd (serve L ep inb (orchestrator_calls L N past))"
  by (simp add: orchestrator_calls_snoc)

subsection \<open>The routes the client uses\<close>

lemma format_fixed [simp]:
  "format_worker_id ENDPOINT_WORKER_REGISTER w = ENDPOINT_WORKER_REGISTER"
  "format_worker_id ENDPOINT_TASK_RESULT w = ENDPOINT_TASK_RESULT"
  "format_worker_id ENDPOINT_WORKER_EVENTS w = ENDPOINT_WORKER_EVENTS"
  "format_worker_id STS_TOKEN_ENDPOINT w = STS_TOKEN_ENDPOINT"
  "format_worker_id STS_REFRESH_ENDPOINT w = STS_REFRESH_ENDPOINT"
  by (simp_all add: format_worker_id_def endpoint_defs startswith_def)

lemma format_ws: "format_worker_id (WS_ENDPOINT @ ''/{worker_id}'') w = ''/_worker/ws/'' @ w"
  by (simp add: format_worker_id_def endpoint_defs startswith_def)

lemma contains_template [simp]: "contains ''{worker_id}'' ENDPOINT_TASK_NEXT" "contains ''{worker_id}'' ENDPOINT_WORKER_HEARTBEAT"
  by (simp_all add: endpoint_defs startswith_def)

lemma routed_result:
  "routed url rq ep inb \<Longrightarrow> rq_method rq = ''POST'' \<Longrightarrow> rq_url rq = url @ ENDPOINT_TASK_RESULT \<Longrightarrow> ep = EpResult"
  by (auto simp: routed_def routes_def) (simp_all add: endpoint_defs)

lemma routed_poll:
  "routed url rq ep inb \<Longrightarrow> rq_method rq = ''GET'' \<Longrightarrow> rq_url rq = url @ format_worker_id ENDPOINT_TASK_NEXT w \<Longrightarrow>
    ep = EpPoll \<and> in_match_info inb ''worker_id'' = Some w"
  by (auto simp: routed_def routes_def format_task_next format_ws)

subsection \<open>A request that returns\<close>

text \<open>
  When a request of the client returns a value, the last thing it did is the call, and the value
  is what the answer to it holds.
\<close>

definition returned :: "'b http_env \<Rightarrow> call \<Rightarrow> http_transport \<Rightarrow> world \<Rightarrow> pyval \<Rightarrow> world \<Rightarrow> bool" where
  "returned E c s w v w' \<longleftrightarrow> (\<exists>acts hdrs resp.
     w' = world_after w (acts @ [Sent (call_request c s hdrs)]) \<and>
     w_peer w (w_log w @ acts) (call_request c s hdrs) = Inr resp \<and>
     rs_status resp \<noteq> 401 \<and> handle_status E resp = Inr v)"

lemma call_request_frame: "same_frame s s' \<Longrightarrow> call_request c s' hdrs = call_request c s hdrs"
  by (simp add: call_request_def same_frame_def)

lemma attempt_returned:
  assumes "request_loop E c (k # as) hdrs s w = (Inr v, s', w')"
    and "k \<noteq> 0 \<or> (\<forall>resp. w_peer w (w_log w) (call_request c s hdrs) = Inr resp \<longrightarrow> rs_status resp \<noteq> 401)"
  shows "returned E c s w v w'"
proof -
  have "\<exists>resp. w' = world_after w ([] @ [Sent (call_request c s hdrs)]) \<and>
      w_peer w (w_log w @ []) (call_request c s hdrs) = Inr resp \<and> rs_status resp \<noteq> 401 \<and> handle_status E resp = Inr v"
    using assms by (cases "w_peer w (w_log w) (call_request c s hdrs)")
      (auto simp: request_loop.simps exchange_eq Let_def split: if_splits)
  then show ?thesis unfolding returned_def by blast
qed

lemma request_returned:
  assumes "http_request_call E c s w = (Inr v, s', w')"
  shows "returned E c s w v w'"
proof -
  let ?rq = "call_request c s (headers s)"
  from assms have run: "request_loop E c [0, 1] (headers s) s w = (Inr v, s', w')"
    by (auto simp: http_request_call_def split: if_splits)
  show ?thesis
  proof (cases "\<exists>resp. w_peer w (w_log w) ?rq = Inr resp \<and> rs_status resp = 401")
    case False
    with attempt_returned [OF run] show ?thesis by blast
  next
    case True
    then obtain resp where resp: "w_peer w (w_log w) ?rq = Inr resp" "rs_status resp = 401" by blast
    obtain r s2 w2 where ref: "http_refresh_token E (note_version resp s) (world_after w [Sent ?rq]) = (r, s2, w2)"
      by (cases "http_refresh_token E (note_version resp s) (world_after w [Sent ?rq])")
    from run resp ref have loop: "request_loop E c [1] (headers s2) s2 w2 = (Inr v, s', w')"
      unfolding request_loop.simps(2) [of E c 0 "[1]"]
      by (auto simp: exchange_eq Let_def split: sum.splits option.splits)
    from refresh_effect [OF ref] obtain acts where w2: "w2 = world_after w (Sent ?rq # acts)"
      and f: "same_frame (note_version resp s) s2" by (auto split: if_splits)
    then have "same_frame s s2" using same_frame_trans same_frame_note_version by blast
    with attempt_returned [OF loop] w2 obtain acts' hdrs resp2
      where "w' = world_after w ((Sent ?rq # acts @ acts') @ [Sent (call_request c s hdrs)])"
        "w_peer w (w_log w @ Sent ?rq # acts @ acts') (call_request c s hdrs) = Inr resp2"
        "rs_status resp2 \<noteq> 401" "handle_status E resp2 = Inr v"
      by (auto simp: returned_def call_request_frame)
    then show ?thesis unfolding returned_def by blast
  qed
qed

text \<open>On the system, the answer comes from the listener, and its handler has been called.\<close>

lemma system_returned:
  assumes "returned E c s w v w'" and peer: "w_peer w = system_peer L N" and net: "network_ok C url N"
  shows "\<exists>past hdrs ep inb wr. w_log w' = past @ [Sent (call_request c s hdrs)] \<and>
    received C (call_request c s hdrs) inb \<and> routed url (call_request c s hdrs) ep inb \<and>
    fst (serve L ep inb (orchestrator_calls L N past)) = Inr wr \<and>
    orchestrator_calls L N (w_log w') = snd (serve L ep inb (orchestrator_calls L N past)) \<and>
    answered C wr (n_reply N wr) \<and> rs_status (n_reply N wr) \<noteq> 401 \<and> handle_status E (n_reply N wr) = Inr v"
proof -
  from assms(1) obtain acts hdrs resp where w': "w' = world_after w (acts @ [Sent (call_request c s hdrs)])"
    and resp: "system_peer L N (w_log w @ acts) (call_request c s hdrs) = Inr resp"
    and st: "rs_status resp \<noteq> 401" "handle_status E resp = Inr v"
    unfolding returned_def peer by blast
  let ?past = "w_log w @ acts" and ?rq = "call_request c s hdrs"
  from resp obtain ep inb where d: "n_deliver N ?past ?rq = Delivered ep inb"
    by (auto simp: system_peer_def split: delivery.splits)
  have "\<exists>wr. fst (serve L ep inb (orchestrator_calls L N ?past)) = Inr wr \<and> resp = n_reply N wr"
  proof (cases "fst (serve L ep inb (orchestrator_calls L N ?past))")
    case (Inl e)
    with resp d have "n_failed N e = Inr resp" by (simp add: system_peer_def)
    with net have "rs_status resp = 500" by (auto simp: network_ok_def)
    with st(2) show ?thesis by (auto simp: handle_status_def)
  next
    case (Inr wr)
    with resp d show ?thesis by (simp add: system_peer_def)
  qed
  moreover have "w_log w' = ?past @ [Sent ?rq]" using w' by simp
  moreover from this have "orchestrator_calls L N (w_log w') = snd (serve L ep inb (orchestrator_calls L N ?past))"
    using calls_of_request [OF d] by simp
  moreover have "received C ?rq inb \<and> routed url ?rq ep inb \<and> (\<forall>wr. answered C wr (n_reply N wr))"
    using net d unfolding network_ok_def by blast
  ultimately show ?thesis using st by blast
qed

subsection \<open>A result that was sent has been handled\<close>

lemma send_result_returned:
  "send_result_loop E result wait n i le s w = (Inr b, s', w') \<Longrightarrow> n \<noteq> 0 \<or> le \<noteq> None \<Longrightarrow>
    \<exists>s1 w1 resp. http_request_call E (result_call result) s1 w1 = (Inr resp, s', w') \<and>
      w_peer w1 = w_peer w \<and> same_frame s s1"
proof (induction n arbitrary: i le s w)
  case 0
  then show ?case by (auto split: option.splits)
next
  case (Suc n)
  obtain r s1 w1 where rq: "http_request_call E (result_call result) s w = (r, s1, w1)"
    by (cases "http_request_call E (result_call result) s w")
  show ?case
  proof (cases r)
    case (Inr resp)
    with Suc.prems(1) rq show ?thesis by (auto intro!: exI [of _ s] exI [of _ w])
  next
    case (Inl e)
    let ?w2 = "if 0 < n then sleep (wait * 2 ^ i) w1 else w1"
    from Inl Suc.prems(1) rq
    have "send_result_loop E result wait n (Suc i) (Some e) s1 ?w2 = (Inr b, s', w')" by (auto split: if_splits)
    from Suc.IH [OF this] obtain s3 w3 resp where
      "http_request_call E (result_call result) s3 w3 = (Inr resp, s', w')" "w_peer w3 = w_peer ?w2" "same_frame s1 s3"
      by auto
    moreover have "w_peer ?w2 = w_peer w" "same_frame s s1"
      using request_effect [OF rq] by (auto simp: sleep_eq)
    ultimately show ?thesis using same_frame_trans by metis
  qed
qed

lemma result_called:
  "in_json inb = Inr p \<Longrightarrow> l_handler L = Some h \<Longrightarrow>
    snd (serve L EpResult inb calls) = calls @ [HCall ''result'' p (extract_context inb)]"
  by (simp add: handle_result_def handle_post_def split: sum.split)

lemma dumps_travels:
  assumes ok: "codec_ok C" and dumps: "json_dumps C v = Inr text"
  shows "\<exists>d p. to_dict C v 0 = Inr d \<and> oj_loads C text = Inr p \<and> json_eq d p"
proof -
  from dumps obtain d where d: "to_dict C v 0 = Inr d" "oj_dumps C None [] d = Inr text"
    by (auto simp: json_dumps_def)
  with codec_ok_loads_dumps [OF ok _ d(2)] to_dict_Inr [OF ok d(1)] show ?thesis by blast
qed

subsection \<open>A task that was polled has been handed out\<close>

text \<open>
  Errors of the orchestrator and of the encoder are reported as errors; an orchestrator that
  raises, say, \<open>web.HTTPOk\<close> answers with its text in a JSON body of status 200.
\<close>

definition errors_are_errors :: "'b listener \<Rightarrow> bool" where
  "errors_are_errors L \<longleftrightarrow>
     (\<forall>h calls c e. l_handler L = Some h \<longrightarrow> h calls c = Inl e \<longrightarrow> 400 \<le> error_status e) \<and>
     (\<forall>v st e. encode (l_codec L) v st = Inl e \<longrightarrow> 400 \<le> error_status e)"

definition returns_values :: "(hcall list \<Rightarrow> hcall \<Rightarrow> exn + 'b outcome) \<Rightarrow> bool" where
  "returns_values h \<longleftrightarrow> (\<forall>calls c x. h calls c = Inr x \<longrightarrow> (\<exists>v. x = Value v))"

text \<open>Whatever a response was made from, what arrives is what that serialises to.\<close>

lemma encode_arrives:
  assumes ok: "codec_ok C" and enc: "encode C v st = Inr r"
  shows "\<exists>t p d. wr_body r = JsonBody t \<and> oj_loads C t = Inr p \<and> to_dict C v 0 = Inr d \<and> json_eq p d"
proof -
  from enc obtain d t where d: "to_dict C v 0 = Inr d" "json_dumps C d = Inr t" "wr_body r = JsonBody t"
    by (auto simp: encode_def)
  from dumps_travels [OF ok d(2)] obtain d' p where p: "to_dict C d 0 = Inr d'" "oj_loads C t = Inr p" "json_eq d' p"
    by blast
  from to_dict_Inr [OF ok d(1)] have "is_json d" "normal d = d" by (simp_all add: normal_canonical)
  with to_dict_normal [OF ok _ p(1)] have "json_eq d' d" by simp
  with p(3) have "json_eq p d" using json_eq_sym json_eq_trans by blast
  with d(1,3) p(2) show ?thesis by blast
qed

text \<open>What an answer to a poll with a body says about the orchestrator.\<close>

lemma poll_answer:
  assumes handler: "l_handler L = Some h" "returns_values h" and err: "errors_are_errors L"
    and path: "in_match_info inb ''worker_id'' = Some wid" "wid \<noteq> []"
    and wr: "fst (dispatch L EpPoll inb calls) = Inr wr" "wr_status wr < 400" "wr_status wr \<noteq> 204"
  shows "\<exists>t. h calls (HCall ''poll'' (PStr wid) (poll_context L inb wid)) = Inr (Value t) \<and>
    encode (l_codec L) t 200 = Inr wr"
proof -
  let ?call = "HCall ''poll'' (PStr wid) (poll_context L inb wid)"
  have report: "\<not> (is_exception e \<and> encode (l_codec L) (error_body (l_codec L) e) (error_status e) = Inr wr)"
    if "400 \<le> error_status e" for e
    using that wr(2) encode_Inr [of "l_codec L" "error_body (l_codec L) e" "error_status e" wr] by auto
  show ?thesis
  proof (cases "h calls ?call")
    case (Inl e)
    with handler err path wr(1) have "is_exception e \<and> encode (l_codec L) (error_body (l_codec L) e) (error_status e) = Inr wr"
      by (auto simp: handle_poll_def guarded_def split: if_splits)
    with report [of e] err Inl handler(1) show ?thesis by (auto simp: errors_are_errors_def)
  next
    case (Inr x)
    with handler(2) obtain t where x: "x = Value t" unfolding returns_values_def by blast
    show ?thesis
    proof (cases "truthy t \<and> (\<exists>r. encode (l_codec L) t 200 = Inr r)")
      case True
      with Inr x handler(1) path wr(1) show ?thesis
        by (auto simp: handle_poll_def guarded_def)
    next
      case False
      show ?thesis
      proof (cases "truthy t")
        case True
        with False obtain e where e: "encode (l_codec L) t 200 = Inl e" by (cases "encode (l_codec L) t 200") auto
        with True Inr x handler(1) path wr(1)
        have "is_exception e \<and> encode (l_codec L) (error_body (l_codec L) e) (error_status e) = Inr wr"
          by (auto simp: handle_poll_def guarded_def split: if_splits)
        with report [of e] err e show ?thesis by (auto simp: errors_are_errors_def)
      next
        case False
        with Inr x handler(1) path wr show ?thesis
          by (auto simp: handle_poll_def guarded_def empty_response_def)
      qed
    qed
  qed
qed

text \<open>
  C9: End to end: when poll_task of a worker with a non-empty id returns a task, the last call the
  orchestrator got is a poll for this worker's identity, and the task is the conversion to a
  TaskPayload of what that call returned as it arrives: up to the order of keys, what the returned
  value serialises to, hence, when it is JSON, that value itself without its nulls and with whole
  floats as integers. The orchestrator returns values and not ready responses, and what it and the
  encoder raise has an error status (an HTTP exception with a status below 400 would be read as a
  task).
\<close>
theorem polled_task_was_handed_out:
  assumes ok: "codec_ok (l_codec L)" and handler: "l_handler L = Some h" "returns_values h"
    and err: "errors_are_errors L"
    and net: "network_ok (l_codec L) (base_url s) N" and peer: "w_peer w = system_peer L N"
    and polled: "http_poll_task E timeout skills hot s w = (Inr task, s', w')" "task \<noteq> PNone"
    and wid: "worker_id s \<noteq> []"
  shows "\<exists>calls context t p. orchestrator_calls L N (w_log w') = calls @ [HCall ''poll'' (PStr (worker_id s)) context] \<and>
    h calls (HCall ''poll'' (PStr (worker_id s)) context) = Inr (Value t) \<and>
    from_dict (py_str (e_codec E)) (e_task_cls E) p = Inr task \<and>
    (\<exists>d. to_dict (l_codec L) t 0 = Inr d \<and> json_eq p d) \<and> (is_json t \<longrightarrow> json_eq p (normal t))"
proof -
  let ?c = "poll_call s timeout skills hot" and ?C = "l_codec L"
  from polled obtain p where run: "http_request_call E ?c s w = (Inr p, s', w')" and p: "truthy p"
    and task: "from_dict (py_str (e_codec E)) (e_task_cls E) p = Inr task"
    by (auto simp: http_poll_task_def split: prod.splits sum.splits if_splits)
  from system_returned [OF request_returned [OF run] peer net] obtain past hdrs ep inb wr where
    rt: "routed (base_url s) (call_request ?c s hdrs) ep inb"
    and wr: "fst (serve L ep inb (orchestrator_calls L N past)) = Inr wr"
    and calls: "orchestrator_calls L N (w_log w') = snd (serve L ep inb (orchestrator_calls L N past))"
    and ans: "answered ?C wr (n_reply N wr)" "handle_status E (n_reply N wr) = Inr p"
    by blast
  let ?calls = "orchestrator_calls L N past"
  from rt have ep: "ep = EpPoll" "in_match_info inb ''worker_id'' = Some (worker_id s)"
    using routed_poll [of "base_url s" "call_request ?c s hdrs" ep inb "worker_id s"]
    by (simp_all add: call_request_def poll_call_def)
  obtain wr0 where wr0: "fst (dispatch L EpPoll inb ?calls) = Inr wr0" "wr_status wr0 = wr_status wr" "wr_body wr0 = wr_body wr"
    using wr ep by (cases "dispatch L EpPoll inb ?calls") (auto simp: serve_eq split: sum.splits)
  have st: "wr_status wr < 400 \<and> wr_status wr \<noteq> 204 \<and> rs_json (n_reply N wr) = Inr p"
    using ans p by (auto simp: handle_status_def answered_def split: if_splits)
  from poll_answer [OF handler err ep(2) wid wr0(1)] st wr0(2) obtain t where
    t: "h ?calls (HCall ''poll'' (PStr (worker_id s)) (poll_context L inb (worker_id s))) = Inr (Value t)"
    and enc: "encode ?C t 200 = Inr wr0" by auto
  from encode_arrives [OF ok enc] obtain body d where d: "wr_body wr0 = JsonBody body" "oj_loads ?C body = Inr p"
    "to_dict ?C t 0 = Inr d" "json_eq p d"
    using ans(1) st wr0(3) by (auto simp: answered_def)
  have "json_eq p (normal t)" if "is_json t"
    using to_dict_normal [OF ok that d(3)] d(4) json_eq_trans by blast
  moreover have "orchestrator_calls L N (w_log w') = ?calls @ [HCall ''poll'' (PStr (worker_id s)) (poll_context L inb (worker_id s))]"
    using calls handler(1) ep wid by (simp add: handle_poll_def split: sum.split)
  ultimately show ?thesis using t task d(3,4) by blast
qed

subsection \<open>Every call of a run belongs to the worker\<close>

text \<open>A request on a route of the client, with the worker's identity in the path and the headers.\<close>

definition own_request :: "string \<Rightarrow> string \<Rightarrow> http_request \<Rightarrow> bool" where
  "own_request url wid rq \<longleftrightarrow> (\<exists>template ep. (rq_method rq, template, ep) \<in> set routes \<and> ep \<noteq> EpWs \<and>
     rq_url rq = url @ format_worker_id template wid)"

definition own_call :: "string \<Rightarrow> call \<Rightarrow> bool" where
  "own_call wid c \<longleftrightarrow> (\<exists>template ep. (c_method c, template, ep) \<in> set routes \<and> ep \<noteq> EpWs \<and>
     c_endpoint c = format_worker_id template wid)"

definition sends_own :: "http_transport \<Rightarrow> world \<Rightarrow> http_transport \<times> world \<Rightarrow> bool" where
  "sends_own s w sw \<longleftrightarrow> base_url (fst sw) = base_url s \<and> worker_id (fst sw) = worker_id s \<and>
     (\<exists>acts. snd sw = world_after w acts \<and> (\<forall>rq. Sent rq \<in> set acts \<longrightarrow> own_request (base_url s) (worker_id s) rq))"

lemma sends_ownI:
  "base_url s' = base_url s \<Longrightarrow> worker_id s' = worker_id s \<Longrightarrow> w' = world_after w acts \<Longrightarrow>
    (\<And>rq. Sent rq \<in> set acts \<Longrightarrow> own_request (base_url s) (worker_id s) rq) \<Longrightarrow> sends_own s w (s', w')"
  unfolding sends_own_def by auto

lemma sends_ownE:
  assumes "sends_own s w (s', w')"
  obtains acts where "w' = world_after w acts" and "base_url s' = base_url s" and "worker_id s' = worker_id s"
    and "\<And>rq. Sent rq \<in> set acts \<Longrightarrow> own_request (base_url s) (worker_id s) rq"
  using assms unfolding sends_own_def by auto

lemma sends_own_refl [simp]: "sends_own s w (s, w)"
  by (rule sends_ownI [where acts = "[]"]) simp_all

lemma sends_own_trans:
  assumes "sends_own s w (s1, w1)" and "sends_own s1 w1 sw"
  shows "sends_own s w sw"
proof -
  obtain s2 w2 where sw: "sw = (s2, w2)" by (cases sw)
  from assms(1) obtain acts where 1: "w1 = world_after w acts" "base_url s1 = base_url s" "worker_id s1 = worker_id s"
    "\<And>rq. Sent rq \<in> set acts \<Longrightarrow> own_request (base_url s) (worker_id s) rq" by (rule sends_ownE) blast
  from assms(2) obtain acts' where 2: "w2 = world_after w1 acts'" "base_url s2 = base_url s1" "worker_id s2 = worker_id s1"
    "\<And>rq. Sent rq \<in> set acts' \<Longrightarrow> own_request (base_url s1) (worker_id s1) rq"
    unfolding sw by (rule sends_ownE) blast
  show ?thesis
    unfolding sw by (rule sends_ownI [where acts = "acts @ acts'"]) (use 1 2 in auto)
qed

lemma sends_own_one:
  "own_request (base_url s) (worker_id s) rq \<Longrightarrow> sends_own s w (s, world_after w [Sent rq])"
  by (rule sends_ownI [where acts = "[Sent rq]"]) auto

lemma sends_own_other: "(\<forall>rq. a \<noteq> Sent rq) \<Longrightarrow> sends_own s w (s, world_after w [a])"
  by (rule sends_ownI [where acts = "[a]"]) auto

lemma sends_own_frame:
  "base_url s2 = base_url s1 \<Longrightarrow> worker_id s2 = worker_id s1 \<Longrightarrow> sends_own s w (s1, w1) \<Longrightarrow> sends_own s w (s2, w1)"
  by (auto simp: sends_own_def)

lemma client_routes:
  "(''POST'', ENDPOINT_WORKER_REGISTER, EpRegister) \<in> set routes" "(''GET'', ENDPOINT_TASK_NEXT, EpPoll) \<in> set routes"
  "(''POST'', ENDPOINT_TASK_RESULT, EpResult) \<in> set routes" "(''PATCH'', ENDPOINT_WORKER_HEARTBEAT, EpHeartbeat) \<in> set routes"
  "(''POST'', ENDPOINT_WORKER_EVENTS, EpEvent) \<in> set routes" "(''POST'', STS_TOKEN_ENDPOINT, EpSts) \<in> set routes"
  "(''POST'', STS_REFRESH_ENDPOINT, EpStsRefresh) \<in> set routes"
  by (simp_all add: routes_def)

lemma own_callI:
  "(m, template, ep) \<in> set routes \<Longrightarrow> ep \<noteq> EpWs \<Longrightarrow> c_method c = m \<Longrightarrow>
    c_endpoint c = format_worker_id template wid \<Longrightarrow> own_call wid c"
  unfolding own_call_def by blast

lemma own_calls [simp]:
  "own_call wid (register_call r)" "own_call wid (result_call r)" "own_call wid (event_call r)"
  "own_call (worker_id s) (poll_call s t a h)" "own_call (worker_id s) (heartbeat_call s r)"
  by (rule own_callI, rule client_routes,
      simp_all add: register_call_def result_call_def event_call_def poll_call_def heartbeat_call_def)+

lemma own_call_request: "own_call (worker_id s) c \<Longrightarrow> own_request (base_url s) (worker_id s) (call_request c s hdrs)"
  by (auto simp: own_call_def own_request_def call_request_def)

lemma own_refresh_request: "own_request (base_url s) (worker_id s) (refresh_request s)"
proof (cases "str_given (refresh_token_value s)")
  case True
  with client_routes(7) show ?thesis
    unfolding own_request_def by (intro exI [of _ STS_REFRESH_ENDPOINT] exI [of _ EpStsRefresh]) (simp add: refresh_request_def)
next
  case False
  with client_routes(6) show ?thesis
    unfolding own_request_def by (intro exI [of _ STS_TOKEN_ENDPOINT] exI [of _ EpSts]) (simp add: refresh_request_def)
qed

lemma refresh_sends_own:
  assumes "http_refresh_token E s w = (r, s', w')"
  shows "sends_own s w (s', w')"
proof -
  from refresh_effect [OF assms] have f: "same_frame s s'"
    and w': "w' = world_after w (if session_closed s = None then [] else [Sent (refresh_request s)])" by blast+
  show ?thesis
    by (rule sends_ownI [OF _ _ w']) (use f in \<open>auto simp: same_frame_def own_refresh_request split: if_splits\<close>)
qed

lemma request_loop_sends_own:
  "request_loop E c as hdrs s w = (r, s', w') \<Longrightarrow> own_call (worker_id s) c \<Longrightarrow> sends_own s w (s', w')"
proof (induction as arbitrary: hdrs s w)
  case Nil
  then show ?case by (simp add: request_loop.simps)
next
  case (Cons attempt as)
  note step = Cons.prems(1) [unfolded request_loop.simps exchange_eq]
  let ?rq = "call_request c s hdrs"
  have one: "sends_own s w (s, world_after w [Sent ?rq])"
    using own_call_request [OF Cons.prems(2)] by (rule sends_own_one)
  show ?case
  proof (cases "w_peer w (w_log w) ?rq")
    case (Inl e)
    with step one show ?thesis by auto
  next
    case (Inr resp)
    let ?s1 = "note_version resp s" and ?w1 = "world_after w [Sent ?rq]"
    have s1: "sends_own s w (?s1, ?w1)"
      by (rule sends_own_frame [OF _ _ one]) (simp_all add: note_version_def split: option.split)
    obtain rr s2 w2 where ref: "http_refresh_token E ?s1 ?w1 = (rr, s2, w2)" by (cases "http_refresh_token E ?s1 ?w1")
    have s2: "sends_own s w (s2, w2)" using sends_own_trans [OF s1 refresh_sends_own [OF ref]] .
    then have wid: "worker_id s2 = worker_id s" by (simp add: sends_own_def)
    consider "request_loop E c as (headers s2) s2 w2 = (r, s', w')"
      | "s' = s2" "w' = w2" | "s' = ?s1" "w' = ?w1"
      using step Inr ref by (auto simp: Let_def split: if_splits sum.splits option.splits)
    then show ?thesis
      using Cons.IH Cons.prems(2) s1 s2 wid sends_own_trans by cases metis+
  qed
qed

lemma request_sends_own:
  "http_request_call E c s w = (r, s', w') \<Longrightarrow> own_call (worker_id s) c \<Longrightarrow> sends_own s w (s', w')"
  by (auto simp: http_request_call_def split: if_splits intro: request_loop_sends_own)

lemma own_client_call: "client_call s c \<Longrightarrow> own_call (worker_id s) c"
  by (auto simp: client_call_def)

interpretation own: kept E "sends_own s w" for E :: "'b http_env" and s :: http_transport and w :: world
proof unfold_locales
  show "sends_own s w (s1, w1) \<Longrightarrow> sends_own s w (http_connect s1, w1)"
    "sends_own s w (s1, w1) \<Longrightarrow> sends_own s w (http_close s1, w1)"
    "sends_own s w (s1, w1) \<Longrightarrow> sends_own s w (set_token res s1, w1)" for s1 w1 res
    by (rule sends_own_frame; simp add: http_connect_def http_close_def set_token_def Let_def)+
qed (blast intro: sends_own_other sends_own_trans refresh_sends_own request_sends_own own_client_call)+

text \<open>The network hands an own request to an endpoint other than the WebSocket's, with the worker in the path.\<close>

lemma routed_own:
  assumes "routed url rq ep inb" and "own_request url wid rq"
  shows "ep \<noteq> EpWs \<and> (ep \<in> {EpPoll, EpHeartbeat} \<longrightarrow> in_match_info inb ''worker_id'' = Some wid)"
proof -
  from assms(1) obtain t w where 1: "(rq_method rq, t, ep) \<in> set routes"
    "contains ''{worker_id}'' t \<longrightarrow> in_match_info inb ''worker_id'' = Some w"
    and u: "rq_url rq = url @ format_worker_id t w"
    unfolding routed_def by blast
  from assms(2) obtain t' ep' where 2: "(rq_method rq, t', ep') \<in> set routes" "ep' \<noteq> EpWs"
    and u': "rq_url rq = url @ format_worker_id t' wid"
    unfolding own_request_def by blast
  from u u' have 3: "format_worker_id t w = format_worker_id t' wid" by simp
  from 2 consider "rq_method rq = ''POST''" | "rq_method rq = ''GET''" "t' = ENDPOINT_TASK_NEXT"
    | "rq_method rq = ''PATCH''" "t' = ENDPOINT_WORKER_HEARTBEAT"
    by (auto simp: routes_def)
  then show ?thesis
  proof cases
    case 1
    with \<open>(rq_method rq, t, ep) \<in> set routes\<close> show ?thesis by (auto simp: routes_def)
  next
    case 2
    with 1 3 show ?thesis by (auto simp: routes_def format_task_next format_ws)
  next
    case 3
    with 1 \<open>format_worker_id t w = format_worker_id t' wid\<close> show ?thesis by (auto simp: routes_def format_heartbeat)
  qed
qed

lemma endpoint_context:
  assumes "ep \<noteq> EpWs" and "\<And>h. in_headers inb h = dget h hdrs" and "identified wid hdrs"
    and "ep \<in> {EpPoll, EpHeartbeat} \<longrightarrow> in_match_info inb ''worker_id'' = Some wid" and "wid \<noteq> []"
    and "snd (serve L ep inb calls) \<noteq> calls"
  shows "\<exists>action payload context. snd (serve L ep inb calls) = calls @ [HCall action payload context] \<and>
    dget ''worker_id_hint'' context = Some (PStr wid) \<and> dget ''protocol_version'' context = Some (PStr PROTOCOL_VERSION)"
proof -
  from endpoint.at_most_one [OF dispatch_endpoint [OF assms(1)], of L inb calls] assms(6)
  obtain action payload where "snd (serve L ep inb calls) = calls @ [HCall action payload (context_for L ep inb)]"
    by auto
  moreover have "dget ''worker_id_hint'' (context_for L ep inb) = Some (PStr wid) \<and>
      dget ''protocol_version'' (context_for L ep inb) = Some (PStr PROTOCOL_VERSION)"
    using assms(1-5) by (cases ep) (auto simp: poll_context_def dget_add_skills opt_str_def identified_def)
  ultimately show ?thesis by blast
qed

lemma endpoint_calls: "ep \<noteq> EpWs \<Longrightarrow> length (snd (serve L ep inb calls)) \<le> Suc (length calls)"
  using endpoint.at_most_one [OF dispatch_endpoint, of ep L inb calls] by auto

lemma calls_bounded:
  assumes net: "network_ok C url N"
  shows "(\<And>rq. Sent rq \<in> set as \<Longrightarrow> own_request url wid rq) \<Longrightarrow>
    length (orchestrator_calls L N (past @ as)) \<le> length (orchestrator_calls L N past) + sent_count as"
proof (induction as rule: rev_induct)
  case (snoc a as)
  then have IH: "length (orchestrator_calls L N (past @ as)) \<le> length (orchestrator_calls L N past) + sent_count as"
    by simp
  let ?calls = "orchestrator_calls L N (past @ as)"
  have step: "orchestrator_calls L N (past @ as @ [a]) = action_calls L N (past @ as) a ?calls"
    using orchestrator_calls_snoc [of L N "past @ as" a] by simp
  show ?case
  proof (cases a)
    case (Sent rq)
    with snoc.prems have own: "own_request url wid rq" by simp
    have "ep \<noteq> EpWs" if "n_deliver N (past @ as) rq = Delivered ep inb \<or> (\<exists>e. n_deliver N (past @ as) rq = Unanswered ep inb e)"
      for ep inb
    proof -
      from net that have "routed url rq ep inb" unfolding network_ok_def by blast
      with routed_own own show ?thesis by blast
    qed
    then have "length (action_calls L N (past @ as) a ?calls) \<le> Suc (length ?calls)"
      using Sent endpoint_calls [of _ L _ ?calls] by (auto split: delivery.split simp del: snd_serve)
    with IH step Sent show ?thesis by (simp add: sent_count_def)
  qed (use IH step in \<open>simp_all add: sent_count_def\<close>)
qed simp

lemma world_after_log: "w_log (world_after w acts) = w_log w @ acts"
  by (simp add: world_after_def)

lemma send_result_calls:
  assumes "send_result_loop E result wait n 0 None s w = (r, s', w')" and "network_ok C (base_url s) N"
  shows "length (orchestrator_calls L N (w_log w')) \<le> length (orchestrator_calls L N (w_log w)) + 3 * n"
proof -
  from send_result_loop_bound [OF assms(1)] obtain acts where acts: "w' = world_after w acts" "sent_count acts \<le> 3 * n"
    by blast
  from own.result_loop [OF sends_own_refl, of s w E result wait n 0 None] assms(1) have "sends_own s w (s', w')" by simp
  then obtain acts' where "w' = world_after w acts'"
    "\<And>rq. Sent rq \<in> set acts' \<Longrightarrow> own_request (base_url s) (worker_id s) rq" by (rule sends_ownE) blast
  then have "\<And>rq. Sent rq \<in> set acts \<Longrightarrow> own_request (base_url s) (worker_id s) rq"
    using acts(1) by (metis append_same_eq same_append_eq world_after_log)
  from calls_bounded [OF assms(2) this, of acts L "w_log w"] acts show ?thesis by simp
qed

lemma calls_identified:
  assumes net: "network_ok C url N" and wid: "wid \<noteq> []"
  shows "(\<And>rq. Sent rq \<in> set as \<Longrightarrow> own_request url wid rq \<and> identified wid (rq_headers rq)) \<Longrightarrow>
    HCall action payload context \<in> set (orchestrator_calls L N as) \<Longrightarrow>
    dget ''worker_id_hint'' context = Some (PStr wid) \<and> dget ''protocol_version'' context = Some (PStr PROTOCOL_VERSION)"
proof (induction as rule: rev_induct)
  case (snoc a as)
  let ?calls = "orchestrator_calls L N as"
  show ?case
  proof (cases "HCall action payload context \<in> set ?calls")
    case True
    with snoc show ?thesis by simp
  next
    case False
    with snoc.prems(2) obtain rq ep inb where a: "a = Sent rq"
      and d: "n_deliver N as rq = Delivered ep inb \<or> (\<exists>e. n_deliver N as rq = Unanswered ep inb e)"
      and mem: "HCall action payload context \<in> set (snd (serve L ep inb ?calls))"
      by (cases a) (auto simp: orchestrator_calls_snoc split: delivery.splits simp del: snd_serve)
    from snoc.prems(1) a have own: "own_request url wid rq" "identified wid (rq_headers rq)" by simp_all
    from net d have rc: "received C rq inb" and rt: "routed url rq ep inb" unfolding network_ok_def by blast+
    from mem False have "snd (serve L ep inb ?calls) \<noteq> ?calls" by auto
    moreover have "\<And>h. in_headers inb h = dget h (rq_headers rq)" using rc by (simp add: received_def)
    ultimately show ?thesis
      using endpoint_context [of ep inb "rq_headers rq" wid L ?calls] routed_own [OF rt own(1)] own(2) wid mem False
      by (auto simp del: snd_serve)
  qed
qed simp

text \<open>
  C1: End to end over a network that may lose requests and answers: when send_result returns
  without an exception, the last call of the orchestrator is for this result, with the value that
  the result serialises to; retries make at most three calls per attempt, so delivery is at least
  once.
\<close>
theorem result_reaches_orchestrator:
  assumes ok: "codec_ok (l_codec L)" and handler: "l_handler L = Some h"
    and net: "network_ok (l_codec L) (base_url s) N" and peer: "w_peer w = system_peer L N"
    and dumps: "json_dumps (l_codec L) result = Inr text"
    and sent: "http_send_result E result (Some retries) delay s w = (Inr accepted, s', w')" "0 < retries"
  shows "\<exists>calls d p inb. orchestrator_calls L N (w_log w') = calls @ [HCall ''result'' p (extract_context inb)] \<and>
    to_dict (l_codec L) result 0 = Inr d \<and> json_eq d p \<and>
    length (orchestrator_calls L N (w_log w')) \<le> length (orchestrator_calls L N (w_log w)) + 3 * nat retries"
proof -
  from sent(1) obtain wait where loop: "send_result_loop E result wait (nat retries) 0 None s w = (Inr accepted, s', w')"
    by (simp add: http_send_result_def)
  from send_result_returned [OF this] sent(2) peer obtain s1 w1 resp where
    run: "http_request_call E (result_call result) s1 w1 = (Inr resp, s', w')"
    and w1: "w_peer w1 = system_peer L N" and frame: "same_frame s s1"
    by auto
  from frame net have "network_ok (l_codec L) (base_url s1) N" by (simp add: same_frame_def)
  from system_returned [OF request_returned [OF run] w1 this] obtain past hdrs ep inb where
    rc: "received (l_codec L) (call_request (result_call result) s1 hdrs) inb"
    and rt: "routed (base_url s1) (call_request (result_call result) s1 hdrs) ep inb"
    and calls: "orchestrator_calls L N (w_log w') = snd (serve L ep inb (orchestrator_calls L N past))"
    by blast
  from rt have "ep = EpResult" by (rule routed_result) (simp_all add: call_request_def result_call_def)
  moreover obtain d p where dp: "to_dict (l_codec L) result 0 = Inr d" "oj_loads (l_codec L) text = Inr p" "json_eq d p"
    using dumps_travels [OF ok dumps] by blast
  moreover have "in_json inb = Inr p"
    using rc dumps dp(2) by (simp add: received_def call_request_def result_call_def)
  ultimately show ?thesis
    using calls handler send_result_calls [OF loop net, of L] by (auto simp: result_called simp del: snd_serve)
qed

text \<open>
  C4: End to end, after any run of client operations over such a network: every call the
  orchestrator has received, retries and token refreshes included, names the worker's identity and
  the protocol version in its context.
\<close>
theorem every_call_identified:
  assumes run: "fold (http_step E) ops (HttpTransport_init url wid tok session retries delay, w\<lparr>w_log := []\<rparr>) = (s', w')"
    and net: "network_ok C (rstrip ''/'' url) N" and wid: "wid \<noteq> []"
    and call: "HCall action payload context \<in> set (orchestrator_calls L N (w_log w'))"
  shows "dget ''worker_id_hint'' context = Some (PStr wid) \<and>
    dget ''protocol_version'' context = Some (PStr PROTOCOL_VERSION)"
proof -
  let ?s = "HttpTransport_init url wid tok session retries delay"
  have s: "base_url ?s = rstrip ''/'' url" "worker_id ?s = wid" by (simp_all add: HttpTransport_init_def)
  have "sends_own ?s (w\<lparr>w_log := []\<rparr>) (s', w')" using own.run [OF sends_own_refl, of ?s "w\<lparr>w_log := []\<rparr>" E ops] run by simp
  then have own: "own_request (rstrip ''/'' url) wid rq" if "Sent rq \<in> set (w_log w')" for rq
    using that s by (auto elim: sends_ownE)
  have "http_inv (s', w')" and "worker_id s' = wid"
    using http.run_inv [OF init_inv, of E ops url wid tok session retries delay w]
      http.run_identity [of E ops "(?s, w\<lparr>w_log := []\<rparr>)"] run s(2) by simp_all
  then have "identified wid (rq_headers rq)" if "Sent rq \<in> set (w_log w')" for rq
    using that by (auto simp: http_inv_def)
  with own calls_identified [OF net wid _ call] show ?thesis by blast
qed

subsection \<open>A concrete system\<close>

text \<open>A network that loses nothing, and an orchestrator with one task for everybody.\<close>

definition plain_network :: "string \<Rightarrow> string \<Rightarrow> pyval network" where
  "plain_network url wid = \<lparr>
     n_deliver = (\<lambda>past rq.
       case filter (\<lambda>(m, template, ep). rq_method rq = m \<and> rq_url rq = url @ format_worker_id template wid) routes of
         [] \<Rightarrow> Lost (PyExn ClientError ''no such host'')
       | (_, _, ep) # _ \<Rightarrow> Delivered ep (inbound_of rq wid)),
     n_reply = reply_of plain_codec, n_failed = Inl\<rparr>"

lemma received_inbound_of: "received plain_codec rq (inbound_of rq wid)"
proof -
  have "dget k d = Some (PStr s) \<Longrightarrow>
      dget k (List.map_filter (\<lambda>(k, v). case v of PStr s \<Rightarrow> Some (k, s) | _ \<Rightarrow> None) d) = Some s" for k d s
    by (induction d) (auto simp: dget_def List.map_filter_simps split: if_splits pyval.split)
  then show ?thesis by (auto simp: received_def inbound_of_def)
qed

lemma plain_network_ok: "network_ok plain_codec url (plain_network url wid)"
proof -
  have "received plain_codec rq inb \<and> routed url rq ep inb"
    if d: "n_deliver (plain_network url wid) past rq = Delivered ep inb" for past rq ep inb
  proof -
    from d obtain m t rest where r: "filter (\<lambda>(m, template, ep). rq_method rq = m \<and> rq_url rq = url @ format_worker_id template wid) routes = (m, t, ep) # rest"
      and inb: "inb = inbound_of rq wid"
      by (auto simp: plain_network_def split: list.splits)
    from r have "(m, t, ep) \<in> set (filter (\<lambda>(m, template, ep). rq_method rq = m \<and>
        rq_url rq = url @ format_worker_id template wid) routes)" by simp
    then have "(m, t, ep) \<in> set routes \<and> rq_method rq = m \<and> rq_url rq = url @ format_worker_id t wid" by auto
    then have "routed url rq ep inb" unfolding routed_def inb by (auto simp: inbound_of_def)
    then show ?thesis using received_inbound_of inb by simp
  qed
  moreover have "n_deliver (plain_network url wid) past rq \<noteq> Unanswered ep inb e" for past rq ep inb e
    by (auto simp: plain_network_def split: list.split)
  ultimately show ?thesis by (auto simp: network_ok_def plain_network_def)
qed

definition orchestrator :: "hcall list \<Rightarrow> hcall \<Rightarrow> exn + pyval outcome" where
  "orchestrator calls c =
     Inr (Value (if hc_action c = ''poll'' then PDict [(''access_token'', PStr ''t1'')] else PNone))"

abbreviation "plain_system \<equiv> system_peer (plain_listener (Some orchestrator)) (plain_network ''http://h'' ''w1'')"

lemma s0_url: "base_url s0 = ''http://h''" "worker_id s0 = ''w1''"
  by (simp_all add: s0_def http_connect_def HttpTransport_init_def rstrip_def lstrip_def)

lemma deliver_result: "n_deliver (plain_network ''http://h'' ''w1'') past (call_request (result_call r) s0 h) =
    Delivered EpResult (inbound_of (call_request (result_call r) s0 h) ''w1'')"
  by (simp add: plain_network_def routes_def call_request_def result_call_def s0_url)
    (simp add: endpoint_defs)

lemma deliver_poll: "n_deliver (plain_network ''http://h'' ''w1'') past (call_request (poll_call s0 t a hs) s0 h) =
    Delivered EpPoll (inbound_of (call_request (poll_call s0 t a hs) s0 h) ''w1'')"
  by (simp add: plain_network_def routes_def call_request_def poll_call_def s0_url format_task_next format_heartbeat format_ws)

lemma encode_errors: "encode plain_codec v st = Inl e \<Longrightarrow> 400 \<le> error_status e"
proof -
  have d: "\<exists>c m. e = PyExn c m" if "to_dict plain_codec v n = Inl e" for v n
    using that
    by (auto simp: to_dict_def plain_codec_def recursion_error_def rbind_Inl_iff finalize_equiv(1) split: if_splits)
  assume "encode plain_codec v st = Inl e"
  then have "\<exists>c m. e = PyExn c m"
    by (auto simp: encode_def json_dumps_def rbind_Inl_iff dest: d) (auto simp: plain_codec_def split: if_splits)
  then show ?thesis by (auto simp: error_status_def)
qed

lemma plain_errors: "errors_are_errors (plain_listener (Some orchestrator))"
  by (auto simp: errors_are_errors_def plain_listener_def orchestrator_def encode_errors)

lemma orchestrator_values: "returns_values orchestrator"
  by (simp add: returns_values_def orchestrator_def)

abbreviation "plain_done \<equiv> call_request (result_call (PStr ''done'')) s0 (headers s0)"

lemma done_json: "in_json (inbound_of plain_done wid) = Inr (PStr ''done'')"
  by (simp add: inbound_of_def call_request_def result_call_def listener_eval)

lemma done_answer:
  "plain_system [] plain_done = Inr (reply_of plain_codec \<lparr>wr_status = 200,
      wr_body = JsonBody (PDict [(''status'', PStr ''ok'')]), wr_headers = [(PROTOCOL_VERSION_HEADER, PROTOCOL_VERSION)]\<rparr>)"
proof -
  have enc: "encode plain_codec (PDict [(''status'', PStr ''ok'')]) 200 =
      Inr \<lparr>wr_status = 200, wr_body = JsonBody (PDict [(''status'', PStr ''ok'')]), wr_headers = []\<rparr>"
    by (simp add: listener_eval)
  have "fst (serve (plain_listener (Some orchestrator)) EpResult (inbound_of plain_done ''w1'') []) = Inr \<lparr>wr_status = 200,
      wr_body = JsonBody (PDict [(''status'', PStr ''ok'')]), wr_headers = [(PROTOCOL_VERSION_HEADER, PROTOCOL_VERSION)]\<rparr>"
    using enc done_json [of "''w1''"]
    by (simp add: serve_eq handle_result_def handle_post_def guarded_def plain_listener_def orchestrator_def or_else_def)
  then show ?thesis
    by (simp add: system_peer_def deliver_result) (simp add: plain_network_def)
qed

lemma done_sent:
  "0 < n \<Longrightarrow> \<exists>s'. send_result_loop plain_env (PStr ''done'') wait n 0 None s0 (w_of plain_system) =
    (Inr True, s', world_after (w_of plain_system) [Sent plain_done])"
  using done_answer
  by (cases n) (simp_all add: http_request_call_def request_loop.simps exchange_eq w_of_def reply_of_def handle_status_def
      plain_codec_def Let_def map_err_def dget_def)

lemma done_calls:
  "orchestrator_calls (plain_listener (Some orchestrator)) (plain_network ''http://h'' ''w1'')
      (w_log (world_after (w_of plain_system) [Sent plain_done])) =
    [HCall ''result'' (PStr ''done'') (extract_context (inbound_of plain_done ''w1''))]"
  using result_called [OF done_json, of "plain_listener (Some orchestrator)" orchestrator "''w1''" "[]"]
  by (simp add: w_of_def orchestrator_calls_def deliver_result plain_listener_def)

theorem result_reaches_orchestrator_witness:
  "\<exists>s' w' calls context. http_send_result plain_env (PStr ''done'') (Some 2) None s0 (w_of plain_system) = (Inr True, s', w') \<and>
    orchestrator_calls (plain_listener (Some orchestrator)) (plain_network ''http://h'' ''w1'') (w_log w') =
      calls @ [HCall ''result'' (PStr ''done'') context]"
proof -
  let ?L = "plain_listener (Some orchestrator)" and ?N = "plain_network ''http://h'' ''w1''"
  obtain s' w' where run: "http_send_result plain_env (PStr ''done'') (Some 2) None s0 (w_of plain_system) = (Inr True, s', w')"
    using done_sent [of 2 "result_retry_delay s0"] by (auto simp: http_send_result_def)
  have dumps: "json_dumps plain_codec (PStr ''done'') = Inr (PStr ''done'')" by (simp add: listener_eval)
  from result_reaches_orchestrator [of ?L orchestrator s0 ?N "w_of plain_system", OF _ _ _ _ _ run] dumps
  obtain calls d q inb where "orchestrator_calls ?L ?N (w_log w') = calls @ [HCall ''result'' q (extract_context inb)]"
    "to_dict plain_codec (PStr ''done'') 0 = Inr d" "json_eq d q"
    by (auto simp: plain_listener_def plain_codec_ok plain_network_ok s0_url w_of_def)
  moreover have "q = PStr ''done''"
    using calculation(2,3) by (cases q) (auto simp: listener_eval json_eq_def)
  ultimately show ?thesis using run by blast
qed

theorem polled_task_was_handed_out_witness:
  "\<exists>task s' w' calls context. http_poll_task plain_env 30 None None s0 (w_of plain_system) = (Inr task, s', w') \<and> task \<noteq> PNone \<and>
    orchestrator_calls (plain_listener (Some orchestrator)) (plain_network ''http://h'' ''w1'') (w_log w') =
      calls @ [HCall ''poll'' (PStr ''w1'') context]"
proof -
  let ?L = "plain_listener (Some orchestrator)" and ?N = "plain_network ''http://h'' ''w1''"
  let ?rq = "call_request (poll_call s0 30 None None) s0 (headers s0)" and ?t = "PDict [(''access_token'', PStr ''t1'')]"
  have enc: "encode plain_codec ?t 200 = Inr \<lparr>wr_status = 200, wr_body = JsonBody ?t, wr_headers = []\<rparr>"
    by (simp add: listener_eval)
  have "in_match_info (inbound_of ?rq ''w1'') ''worker_id'' = Some ''w1''" by (simp add: inbound_of_def)
  then have "fst (serve ?L EpPoll (inbound_of ?rq ''w1'') []) = Inr \<lparr>wr_status = 200,
      wr_body = JsonBody ?t, wr_headers = [(PROTOCOL_VERSION_HEADER, PROTOCOL_VERSION)]\<rparr>"
    using enc by (simp add: serve_eq handle_poll_def guarded_def plain_listener_def orchestrator_def)
  then have p: "plain_system [] ?rq = Inr (reply_of plain_codec \<lparr>wr_status = 200,
      wr_body = JsonBody ?t, wr_headers = [(PROTOCOL_VERSION_HEADER, PROTOCOL_VERSION)]\<rparr>)"
    by (simp add: system_peer_def deliver_poll) (simp add: plain_network_def)
  have "\<exists>task s' w'. http_poll_task plain_env 30 None None s0 (w_of plain_system) = (Inr task, s', w') \<and> task \<noteq> PNone"
    using p by (simp add: http_poll_task_def http_request_call_def request_loop.simps exchange_eq w_of_def
        reply_of_def handle_status_def plain_codec_def Let_def map_err_def from_dict_def plain_env_def plain_cls_def dget_def)
  then obtain task s' w' where
    run: "http_poll_task plain_env 30 None None s0 (w_of plain_system) = (Inr task, s', w')" "task \<noteq> PNone" by blast
  have ok: "codec_ok (l_codec ?L)" "l_handler ?L = Some orchestrator" "network_ok (l_codec ?L) (base_url s0) ?N"
    "w_peer (w_of plain_system) = plain_system" "worker_id s0 \<noteq> []"
    by (simp_all add: plain_listener_def plain_codec_ok plain_network_ok s0_url w_of_def)
  from polled_task_was_handed_out [OF ok(1,2) orchestrator_values plain_errors ok(3,4) run ok(5)] run show ?thesis
    by (auto simp: s0_url)
qed

theorem every_call_identified_witness:
  "\<exists>s' w' calls payload context. fold (http_step plain_env) [Connect, SendResult (PStr ''done'')]
      (HttpTransport_init ''http://h/'' ''w1'' ''t0'' None 3 (1 / 10), (w_of plain_system)\<lparr>w_log := []\<rparr>) = (s', w') \<and>
    orchestrator_calls (plain_listener (Some orchestrator)) (plain_network ''http://h'' ''w1'') (w_log w') =
      calls @ [HCall ''result'' payload context] \<and>
    dget ''worker_id_hint'' context = Some (PStr ''w1'')"
proof -
  let ?init = "HttpTransport_init ''http://h/'' ''w1'' ''t0'' None 3 (1 / 10)" and ?w = "w_of plain_system"
  let ?L = "plain_listener (Some orchestrator)" and ?N = "plain_network ''http://h'' ''w1''"
  let ?c = "extract_context (inbound_of plain_done ''w1'')"
  have "?w\<lparr>w_log := []\<rparr> = ?w" "http_connect ?init = s0" "result_retries s0 = 3"
    by (simp_all add: w_of_def s0_def http_connect_def HttpTransport_init_def)
  then obtain s' where run: "fold (http_step plain_env) [Connect, SendResult (PStr ''done'')] (?init, ?w\<lparr>w_log := []\<rparr>) =
      (s', world_after ?w [Sent plain_done])"
    using done_sent [of 3 "result_retry_delay s0"] by (auto simp: http_send_result_def)
  have url: "rstrip ''/'' ''http://h/'' = ''http://h''" by (simp add: rstrip_def lstrip_def)
  have "HCall ''result'' (PStr ''done'') ?c \<in> set (orchestrator_calls ?L ?N (w_log (world_after ?w [Sent plain_done])))"
    by (simp only: done_calls list.set_intros)
  from every_call_identified [OF run _ _ this, of plain_codec] plain_network_ok url
  have "dget ''worker_id_hint'' ?c = Some (PStr ''w1'')" by simp
  with run done_calls show ?thesis
    by (intro exI [of _ s'] exI [of _ "world_after ?w [Sent plain_done]"] exI [of _ "[]"] exI [of _ "PStr ''done''"] exI [of _ ?c])
      (simp only: append_Nil simp_thms)
qed

end
