(* ===== verification/Rxon_Commands.thy ===== *)
theory Rxon_Commands
  imports Rxon_Client_Ops
begin

text \<open>
  \<^verbatim>\<open>src/rxon/transports/http.py\<close>: \<open>listen_for_commands\<close>, the generator that keeps a
  WebSocket to the orchestrator and yields its commands.  It runs beside the other operations
  of the transport, so it is a state machine: a step takes what the outside does next (the
  connection opens or fails, a message arrives, the consumer closes the generator or throws an
  exception into it, the task is cancelled, another task calls \<open>close\<close>) and gives what the
  generator does visibly.  A listening run is any sequence of such steps.
\<close>

subsection \<open>The state machine\<close>

datatype phase =
    Checking \<comment> \<open>at the condition of the \<open>while\<close>\<close>
  | Connecting \<comment> \<open>inside \<open>ws_connect\<close>\<close>
  | Reading \<comment> \<open>waiting for a message\<close>
  | Yielding \<comment> \<open>suspended at \<open>yield\<close>, until the consumer asks for the next command\<close>
  | Leaving \<comment> \<open>after the \<open>try\<close>\<close>
  | Sleeping
  | Stopped
  | Failed exn

record listening =
  l_phase :: phase
  l_delay :: rat \<comment> \<open>\<open>retry_delay\<close>\<close>
  l_transport :: http_transport

datatype ws_msg =
    TextMsg "exn + pyval" \<comment> \<open>TEXT, with the outcome of \<open>msg.json(loads=loads)\<close>\<close>
  | ClosingMsg \<comment> \<open>CLOSED, CLOSE or ERROR\<close>
  | OtherMsg
  | EndOfStream
  | Broken exn \<comment> \<open>the iteration itself raises\<close>

datatype event =
    Proceed | ConnectOk | ConnectFails exn | Message ws_msg
  | Thrown exn \<comment> \<open>into the generator at its \<open>yield\<close> (\<open>GeneratorExit\<close> from \<open>aclose\<close>), or out of \<open>sleep\<close>\<close>
  | CloseCalled

datatype visible = Opening string "string dict" | Yielded pyval | Waiting rat

definition max_delay :: rat where "max_delay = 60"

definition ws_url :: "http_transport \<Rightarrow> string" where
  "ws_url s = replace_first ''http'' ''ws'' (base_url s) @ WS_ENDPOINT @ ''/'' @ worker_id s"

definition listen_start :: "http_transport \<Rightarrow> listening" where
  "listen_start s = \<lparr>l_phase = (if session_closed s = None then Stopped else Checking), l_delay = 1, l_transport = s\<rparr>"

text \<open>Leaving the \<open>async with\<close> closes the WebSocket.\<close>

definition leave_ws :: "listening \<Rightarrow> listening" where
  "leave_ws c = c\<lparr>l_phase := Leaving, l_transport := (l_transport c)\<lparr>ws_closed := Some True\<rparr>\<rparr>"

definition finished :: "http_transport \<Rightarrow> bool" where
  "finished s = (closing s \<or> session_closed s = Some True)"

definition after_message :: "listening \<Rightarrow> listening" where
  "after_message c = (if closing (l_transport c) then leave_ws c else c\<lparr>l_phase := Reading\<rparr>)"

definition read_message :: "'b http_env \<Rightarrow> pycls \<Rightarrow> ws_msg \<Rightarrow> listening \<Rightarrow> visible list \<times> listening" where
  "read_message E cls msg c =
     (case msg of
        TextMsg r \<Rightarrow>
          (case rbind r (from_dict (py_str (e_codec E)) cls) of
             Inr v \<Rightarrow> ([Yielded v], c\<lparr>l_phase := Yielding\<rparr>)
           | Inl e \<Rightarrow> if is_exception e then ([], after_message c) else ([], (leave_ws c)\<lparr>l_phase := Failed e\<rparr>))
      | ClosingMsg \<Rightarrow> ([], leave_ws c)
      | OtherMsg \<Rightarrow> ([], after_message c)
      | EndOfStream \<Rightarrow> ([], leave_ws c)
      | Broken e \<Rightarrow> ([], if is_exception e then leave_ws c else (leave_ws c)\<lparr>l_phase := Failed e\<rparr>))"

text \<open>A step, or None when the event cannot happen in this phase.\<close>

fun listen_step :: "'b http_env \<Rightarrow> pycls \<Rightarrow> bool \<Rightarrow> event \<Rightarrow> listening \<Rightarrow> (visible list \<times> listening) option" where
  "listen_step E cls reconnect Proceed c =
     (case l_phase c of
        Checking \<Rightarrow>
          if \<not> finished (l_transport c)
          then Some ([Opening (ws_url (l_transport c)) (headers (l_transport c))], c\<lparr>l_phase := Connecting\<rparr>)
          else Some ([], c\<lparr>l_phase := Stopped\<rparr>)
      | Yielding \<Rightarrow> Some ([], after_message c)
      | Leaving \<Rightarrow>
          if finished (l_transport c) \<or> \<not> reconnect then Some ([], c\<lparr>l_phase := Stopped\<rparr>)
          else Some ([Waiting (l_delay c)], c\<lparr>l_phase := Sleeping\<rparr>)
      | Sleeping \<Rightarrow>
          Some ([], c\<lparr>l_phase := Checking, l_delay := min (l_delay c * 2) max_delay,
            l_transport := (l_transport c)\<lparr>ws_closed := None\<rparr>\<rparr>)
      | _ \<Rightarrow> None)"
| "listen_step E cls reconnect ConnectOk c =
     (if l_phase c = Connecting
      then Some ([], c\<lparr>l_phase := Reading, l_delay := 1, l_transport := (l_transport c)\<lparr>ws_closed := Some False\<rparr>\<rparr>)
      else None)"
| "listen_step E cls reconnect (ConnectFails e) c =
     (if l_phase c = Connecting
      then Some ([], c\<lparr>l_phase := (if is_exception e then Leaving else Failed e)\<rparr>)
      else None)"
| "listen_step E cls reconnect (Message msg) c =
     (if l_phase c = Reading then Some (read_message E cls msg c) else None)"
| "listen_step E cls reconnect (Thrown e) c =
     (case l_phase c of
        Yielding \<Rightarrow> Some ([], if is_exception e then after_message c else (leave_ws c)\<lparr>l_phase := Failed e\<rparr>)
      | Sleeping \<Rightarrow> Some ([], c\<lparr>l_phase := Failed e\<rparr>)
      | _ \<Rightarrow> None)"
| "listen_step E cls reconnect CloseCalled c = Some ([], c\<lparr>l_transport := http_close (l_transport c)\<rparr>)"

text \<open>The runs from a state, with what became visible.\<close>

inductive listens :: "'b http_env \<Rightarrow> pycls \<Rightarrow> bool \<Rightarrow> listening \<Rightarrow> visible list \<Rightarrow> listening \<Rightarrow> bool"
  for E cls reconnect where
  listens_refl: "listens E cls reconnect c [] c"
| listens_step: "listens E cls reconnect c tr c1 \<Longrightarrow> listen_step E cls reconnect ev c1 = Some (vis, c2) \<Longrightarrow>
    listens E cls reconnect c (tr @ vis) c2"

inductive_cases listensE: "listens E cls reconnect c tr c'"

text \<open>A given sequence of events, executed.\<close>

fun listen_run :: "'b http_env \<Rightarrow> pycls \<Rightarrow> bool \<Rightarrow> event list \<Rightarrow> listening \<Rightarrow> (visible list \<times> listening) option" where
  "listen_run E cls reconnect [] c = Some ([], c)"
| "listen_run E cls reconnect (ev # evs) c =
     (case listen_step E cls reconnect ev c of
        None \<Rightarrow> None
      | Some (vis, c1) \<Rightarrow> map_option (apfst (\<lambda>tr. vis @ tr)) (listen_run E cls reconnect evs c1))"

subsection \<open>Facts\<close>

lemma finished_close [simp]: "finished (http_close s)"
  by (simp add: finished_def http_close_def Let_def)

lemma close_frame [simp]: "closing (http_close s)" "base_url (http_close s) = base_url s"
    "worker_id (http_close s) = worker_id s" "headers (http_close s) = headers s"
  by (simp_all add: http_close_def Let_def)

lemma finished_ws [simp]: "finished (s\<lparr>ws_closed := x\<rparr>) = finished s"
  by (simp add: finished_def)

lemma leave_ws_simps [simp]: "l_phase (leave_ws c) = Leaving" "l_delay (leave_ws c) = l_delay c"
    "closing (l_transport (leave_ws c)) = closing (l_transport c)"
    "finished (l_transport (leave_ws c)) = finished (l_transport c)"
    "ws_url (l_transport (leave_ws c)) = ws_url (l_transport c)"
    "headers (l_transport (leave_ws c)) = headers (l_transport c)"
  by (simp_all add: leave_ws_def ws_url_def)

lemma listens_trans:
  "listens E cls rc c1 tr2 c2 \<Longrightarrow> listens E cls rc c tr1 c1 \<Longrightarrow> listens E cls rc c (tr1 @ tr2) c2"
proof (induction rule: listens.induct)
  case (listens_step c1 tr c2 ev vis c3)
  then show ?case using listens.listens_step [of E cls rc c "tr1 @ tr" c2 ev vis c3] by simp
qed simp

lemma listen_run_listens:
  "listen_run E cls rc evs c = Some (tr, c') \<Longrightarrow> listens E cls rc c tr c'"
proof (induction evs arbitrary: c tr)
  case Nil
  then show ?case by (simp add: listens_refl)
next
  case (Cons ev evs)
  then obtain vis c1 tr1 where s: "listen_step E cls rc ev c = Some (vis, c1)" "listen_run E cls rc evs c1 = Some (tr1, c')"
    "tr = vis @ tr1"
    by (auto split: option.splits)
  have "listens E cls rc c vis c1"
    using listens_step [OF listens_refl s(1)] by simp
  from listens_trans [OF Cons.IH [OF s(2)] this] s(3) show ?case by simp
qed

lemma read_message_delay [simp]: "read_message E cls m c = (vis, c') \<Longrightarrow> l_delay c' = l_delay c"
  by (auto simp: read_message_def after_message_def split: ws_msg.splits sum.splits if_splits)

definition delay_ok :: "rat \<Rightarrow> bool" where
  "delay_ok d \<longleftrightarrow> (\<exists>k. d = min (2 ^ k) max_delay)"

lemma delay_ok_1 [simp]: "delay_ok 1"
  unfolding delay_ok_def max_delay_def by (rule exI [of _ 0]) simp

lemma delay_ok_double [simp]: "delay_ok d \<Longrightarrow> delay_ok (min (d * 2) max_delay)"
proof -
  assume "delay_ok d"
  then obtain k where "d = min (2 ^ k) max_delay" by (auto simp: delay_ok_def)
  then have "min (d * 2) max_delay = min (2 ^ Suc k) max_delay"
    by (auto simp: min_def max_delay_def)
  then show ?thesis unfolding delay_ok_def by blast
qed

lemma after_message_delay [simp]: "l_delay (after_message c) = l_delay c"
  by (simp add: after_message_def)

lemma delay_ok_bounds: "delay_ok d \<Longrightarrow> 1 \<le> d \<and> d \<le> 60"
  by (auto simp: delay_ok_def max_delay_def)

lemma listens_delay:
  "listens E cls rc c tr c' \<Longrightarrow> delay_ok (l_delay c) \<Longrightarrow>
    delay_ok (l_delay c') \<and> (\<forall>d. Waiting d \<in> set tr \<longrightarrow> delay_ok d)"
proof (induction rule: listens.induct)
  case (listens_step c tr c1 ev vis c2)
  have "Waiting d \<notin> set vis" if "read_message E cls m c1 = (vis, c2)" for m d
    using that by (auto simp: read_message_def split: ws_msg.splits sum.splits if_splits)
  with listens_step show ?case
    by (cases ev) (auto split: phase.splits if_splits)
qed simp

text \<open>A step that is not a call of \<open>close\<close> brings a closing listener nearer to its end.\<close>

fun rank :: "phase \<Rightarrow> nat" where
  "rank Connecting = 4"
| "rank Reading = 3"
| "rank Yielding = 2"
| "rank Sleeping = 2"
| "rank Leaving = 1"
| "rank Checking = 1"
| "rank Stopped = 0"
| "rank (Failed e) = 0"

definition yields_left :: "phase \<Rightarrow> nat" where
  "yields_left ph = (if ph = Connecting \<or> ph = Reading then 1 else 0)"

lemma closing_finished [simp]: "closing s \<Longrightarrow> finished s"
  by (simp add: finished_def)

lemma closing_after [simp]:
  "closing (l_transport c) \<Longrightarrow> after_message c = leave_ws c"
  by (simp add: after_message_def)

definition winds_down :: "event \<Rightarrow> listening \<Rightarrow> visible list \<times> listening \<Rightarrow> bool" where
  "winds_down ev c = (\<lambda>(vis, c'). closing (l_transport c') \<and>
     (if ev = CloseCalled then l_phase c' = l_phase c else rank (l_phase c') < rank (l_phase c)) \<and>
     length vis + yields_left (l_phase c') \<le> yields_left (l_phase c) \<and> (\<forall>x\<in>set vis. \<exists>v. x = Yielded v))"

lemma closing_read:
  "closing (l_transport c) \<Longrightarrow> l_phase c = Reading \<Longrightarrow> winds_down (Message m) c (read_message E cls m c)"
  by (cases m) (simp_all add: winds_down_def read_message_def yields_left_def split: sum.split)

lemma closing_step:
  assumes "closing (l_transport c)" and "listen_step E cls rc ev c = Some (vis, c')"
  shows "winds_down ev c (vis, c')"
proof (cases ev)
  case Proceed
  with assms show ?thesis
    by (cases "l_phase c") (simp_all add: winds_down_def yields_left_def, auto)
next
  case (Message m)
  with assms(2) have "l_phase c = Reading" "read_message E cls m c = (vis, c')" by (auto split: if_splits)
  with closing_read [OF assms(1), of m E cls] Message show ?thesis by simp
next
  case (Thrown e)
  with assms show ?thesis
    by (cases "l_phase c") (auto simp: winds_down_def yields_left_def split: if_splits)
qed (use assms in \<open>auto simp: winds_down_def yields_left_def split: if_splits\<close>)

text \<open>The WebSocket of the transport is open only while the generator is inside its \<open>async with\<close>.\<close>

definition ws_inv :: "listening \<Rightarrow> bool" where
  "ws_inv c \<longleftrightarrow> (ws_closed (l_transport c) = Some False \<longrightarrow> l_phase c = Reading \<or> l_phase c = Yielding)"

lemma ws_inv_leave [simp]: "ws_inv (leave_ws c)" "ws_inv ((leave_ws c)\<lparr>l_phase := ph\<rparr>)"
  by (simp_all add: ws_inv_def leave_ws_def)

lemma ws_inv_after [simp]: "ws_inv (after_message c)"
  by (simp add: after_message_def) (simp add: ws_inv_def)

lemma ws_inv_read: "read_message E cls m c = (vis, c') \<Longrightarrow> ws_inv c'"
  by (auto simp: read_message_def split: ws_msg.splits sum.splits if_splits) (simp add: ws_inv_def)

lemma listens_ws_inv: "listens E cls rc c tr c' \<Longrightarrow> ws_inv c \<Longrightarrow> ws_inv c'"
proof (induction rule: listens.induct)
  case (listens_step c tr c1 ev vis c2)
  then have inv: "ws_inv c1" by simp
  show ?case
  proof (cases ev)
    case Proceed
    with listens_step inv show ?thesis
      by (auto split: phase.splits if_splits) (auto simp: ws_inv_def)
  next
    case (ConnectFails e)
    with listens_step inv show ?thesis by (auto simp: ws_inv_def split: if_splits)
  next
    case CloseCalled
    with listens_step show ?thesis by (auto simp: ws_inv_def http_close_def Let_def split: if_splits)
  next
    case (Thrown e)
    with listens_step inv show ?thesis
      by (auto split: phase.splits if_splits) (auto simp: ws_inv_def)
  qed (use listens_step in \<open>auto simp: ws_inv_def split: if_splits dest: ws_inv_read\<close>)
qed simp

subsection \<open>Properties\<close>

text \<open>
  C34: Once close was called, the command listener ends: at most four more steps of its own, at
  most one more command and no connection or delay happen, and until it has stopped some step is
  possible.
\<close>
theorem listener_stops_after_close:
  assumes "closing (l_transport c)" and "listen_run E cls reconnect evs c = Some (tr, c')"
  shows "length (filter (\<lambda>ev. ev \<noteq> CloseCalled) evs) \<le> 4 \<and> length tr \<le> 1 \<and> (\<forall>x\<in>set tr. \<exists>v. x = Yielded v) \<and>
    (l_phase c' = Stopped \<or> (\<exists>e. l_phase c' = Failed e) \<or>
     (\<exists>ev vis c2. ev \<noteq> CloseCalled \<and> listen_step E cls reconnect ev c' = Some (vis, c2)))"
proof -
  have main: "length (filter (\<lambda>ev. ev \<noteq> CloseCalled) evs) \<le> rank (l_phase c) \<and>
      length tr \<le> yields_left (l_phase c) \<and> (\<forall>x\<in>set tr. \<exists>v. x = Yielded v)"
    using assms
  proof (induction evs arbitrary: c tr)
    case (Cons ev evs)
    then obtain vis c1 tr1 where s: "listen_step E cls reconnect ev c = Some (vis, c1)"
      "listen_run E cls reconnect evs c1 = Some (tr1, c')" "tr = vis @ tr1"
      by (auto split: option.splits)
    note st = closing_step [OF Cons.prems(1) s(1)]
    from st have "closing (l_transport c1)" by (simp add: winds_down_def)
    from Cons.IH [OF this s(2)] st s(3) show ?case
      by (cases "ev = CloseCalled") (auto simp: winds_down_def)
  qed simp
  moreover have "rank (l_phase c) \<le> 4" by (cases "l_phase c") auto
  moreover have "yields_left (l_phase c) \<le> 1" by (simp add: yields_left_def)
  moreover have "l_phase c' = Stopped \<or> (\<exists>e. l_phase c' = Failed e) \<or>
      (\<exists>ev vis c2. ev \<noteq> CloseCalled \<and> listen_step E cls reconnect ev c' = Some (vis, c2))"
  proof (cases "l_phase c'")
    case Connecting
    then show ?thesis by (intro disjI2 exI [of _ ConnectOk]) simp
  next
    case Reading
    then show ?thesis by (intro disjI2 exI [of _ "Message EndOfStream"]) (simp add: read_message_def)
  qed (auto intro!: exI [of _ Proceed])
  ultimately show ?thesis by auto
qed

definition command_cls :: pycls where
  "command_cls = plain_cls ''WorkerCommand''"

definition listening0 :: listening where
  "listening0 = (listen_start s0)\<lparr>l_phase := Reading\<rparr>"

theorem listener_stops_after_close_witness:
  "\<exists>tr c'. listen_run plain_env command_cls True [Message OtherMsg, Proceed]
      (listening0\<lparr>l_transport := http_close s0\<rparr>) = Some (tr, c') \<and> length tr \<le> 1"
proof -
  let ?c = "listening0\<lparr>l_transport := http_close s0\<rparr>"
  obtain tr c' where r: "listen_run plain_env command_cls True [Message OtherMsg, Proceed] ?c = Some (tr, c')"
    by (simp add: listening0_def read_message_def after_message_def leave_ws_def)
  from listener_stops_after_close [OF _ r] r show ?thesis by auto
qed

text \<open>
  Every delay between two connection attempts is between 1 and 60 seconds: a power of two or the
  maximum.
\<close>
theorem listener_backoff:
  assumes "listens E cls reconnect (listen_start s) tr c"
  shows "\<forall>d. Waiting d \<in> set tr \<longrightarrow> 1 \<le> d \<and> d \<le> 60 \<and> (d = 60 \<or> (\<exists>k. d = 2 ^ k))"
proof -
  have "delay_ok (l_delay (listen_start s))" by (simp add: listen_start_def)
  with listens_delay [OF assms] have "delay_ok d" if "Waiting d \<in> set tr" for d using that by blast
  moreover have "d = 60 \<or> (\<exists>k. d = 2 ^ k)" if "delay_ok d" for d
    using that by (auto simp: delay_ok_def max_delay_def min_def split: if_splits)
  ultimately show ?thesis using delay_ok_bounds by blast
qed

theorem listener_backoff_witness:
  "\<forall>d. Waiting d \<in> set [Opening (ws_url s0) (headers s0), Waiting 1] \<longrightarrow> 1 \<le> d \<and> d \<le> 60"
proof -
  have "listen_run plain_env command_cls True [Proceed, ConnectFails (PyExn ClientError ''refused''), Proceed] (listen_start s0) =
      Some ([Opening (ws_url s0) (headers s0), Waiting 1],
        (listen_start s0)\<lparr>l_phase := Sleeping\<rparr>)"
    by (simp add: listen_start_def is_exception_def finished_def) (simp add: s0_def http_connect_def HttpTransport_init_def)
  from listener_backoff [OF listen_run_listens [OF this]] show ?thesis by blast
qed

text \<open>
  Against an unreachable orchestrator the command listener alternates attempts to the same address
  and delays of 1, 2, 4, ... seconds, cut off at 60.
\<close>
theorem unreachable_listener_doubles:
  assumes "\<not> finished s" and "session_closed s \<noteq> None" and "is_exception e"
  shows "\<exists>c. listen_run E cls True (concat (replicate n [Proceed, ConnectFails e, Proceed, Proceed])) (listen_start s) =
    Some (concat (map (\<lambda>k. [Opening (ws_url s) (headers s), Waiting (min (2 ^ k) 60)]) [0..<n]), c)"
proof -
  have "\<exists>c. listen_run E cls True (concat (replicate n [Proceed, ConnectFails e, Proceed, Proceed]))
      \<lparr>l_phase = Checking, l_delay = min (2 ^ i) max_delay, l_transport = s'\<rparr> =
    Some (concat (map (\<lambda>k. [Opening (ws_url s) (headers s), Waiting (min (2 ^ k) 60)]) [i..<i + n]), c)"
    if "\<not> finished s'" "ws_url s' = ws_url s" "headers s' = headers s" for i s'
    using that
  proof (induction n arbitrary: i s')
    case (Suc n)
    let ?s1 = "s'\<lparr>ws_closed := None\<rparr>"
    have d: "min (min (2 ^ i) max_delay * 2) max_delay = min (2 ^ Suc i) max_delay"
      by (auto simp: min_def max_delay_def)
    have "\<not> finished ?s1" "ws_url ?s1 = ws_url s" "headers ?s1 = headers s"
      using Suc.prems by (simp_all add: ws_url_def)
    from Suc.IH [OF this, of "Suc i"] obtain c where
      "listen_run E cls True (concat (replicate n [Proceed, ConnectFails e, Proceed, Proceed]))
        \<lparr>l_phase = Checking, l_delay = min (2 ^ Suc i) max_delay, l_transport = ?s1\<rparr> =
      Some (concat (map (\<lambda>k. [Opening (ws_url s) (headers s), Waiting (min (2 ^ k) 60)]) [Suc i..<Suc i + n]), c)" by blast
    moreover have "[i..<i + Suc n] = i # [Suc i..<Suc i + n]" by (simp add: upt_conv_Cons)
    moreover have "min (2 ^ i) max_delay = min (2 ^ i) 60" by (simp add: max_delay_def)
    ultimately show ?case
      using Suc.prems assms(3) d by (simp del: power_Suc upt_Suc)
  qed simp
  from this [OF assms(1) refl refl, of 0] show ?thesis
    using assms(2) by (auto simp: listen_start_def max_delay_def)
qed

theorem unreachable_listener_doubles_witness:
  "\<exists>c. listen_run plain_env command_cls True
      (concat (replicate 2 [Proceed, ConnectFails (PyExn ClientError ''refused''), Proceed, Proceed])) (listen_start s0) =
    Some ([Opening (ws_url s0) (headers s0), Waiting 1, Opening (ws_url s0) (headers s0), Waiting 2], c)"
proof -
  have "\<not> finished s0" by (simp add: finished_def) (simp add: s0_def http_connect_def)
  from unreachable_listener_doubles [OF this, of "PyExn ClientError ''refused''" plain_env command_cls 2]
  show ?thesis by (simp add: is_exception_def upt_conv_Cons)
qed

text \<open>
  Without reconnect, any run of the command listener makes at most one connection attempt and
  never sleeps; with or without it, what it yields was parsed as a command.
\<close>
theorem no_reconnect_single_attempt:
  assumes "listens E cls False (listen_start s) tr c"
  shows "length (filter (\<lambda>x. \<exists>u h. x = Opening u h) tr) \<le> 1 \<and> (\<forall>d. Waiting d \<notin> set tr) \<and>
    (\<forall>v. Yielded v \<in> set tr \<longrightarrow> (\<exists>data. from_dict (py_str (e_codec E)) cls data = Inr v))"
proof -
  have vis: "(\<forall>x\<in>set vis. \<exists>v. x = Yielded v \<and> (\<exists>data. from_dict (py_str (e_codec E)) cls data = Inr v)) \<and>
      l_phase c2 \<noteq> Checking \<and> l_phase c2 \<noteq> Sleeping \<and> filter (\<lambda>x. \<exists>u h. x = Opening u h) vis = []"
    if "read_message E cls m c1 = (vis, c2)" "l_phase c1 = Reading" for m c1 c2 vis
    using that by (auto simp: read_message_def after_message_def leave_ws_def split: ws_msg.splits sum.splits if_splits)
  have "(\<forall>d. Waiting d \<notin> set tr) \<and> l_phase c \<noteq> Sleeping \<and>
      (\<forall>v. Yielded v \<in> set tr \<longrightarrow> (\<exists>data. from_dict (py_str (e_codec E)) cls data = Inr v)) \<and>
      length (filter (\<lambda>x. \<exists>u h. x = Opening u h) tr) \<le> (if l_phase c = Checking then 0 else 1)"
    using assms
  proof (induction "listen_start s" tr c rule: listens.induct)
    case listens_refl
    then show ?case by (simp add: listen_start_def)
  next
    case (listens_step tr c1 ev v c2)
    then show ?case
      by (cases ev) (auto simp: after_message_def leave_ws_def dest!: vis split: phase.splits if_splits)
  qed
  then show ?thesis by (auto split: if_splits)
qed

theorem no_reconnect_single_attempt_witness:
  "length (filter (\<lambda>x. \<exists>u h. x = Opening u h) [Opening (ws_url s0) (headers s0), Yielded PNone]) \<le> 1"
proof -
  have "\<exists>c. listen_run plain_env command_cls False [Proceed, ConnectOk, Message (TextMsg (Inr PNone))] (listen_start s0) =
      Some ([Opening (ws_url s0) (headers s0), Yielded PNone], c)"
    by (simp add: listen_start_def finished_def read_message_def from_dict_def)
      (simp add: s0_def http_connect_def HttpTransport_init_def)
  then obtain c where "listen_run plain_env command_cls False [Proceed, ConnectOk, Message (TextMsg (Inr PNone))] (listen_start s0) =
      Some ([Opening (ws_url s0) (headers s0), Yielded PNone], c)" by blast
  from no_reconnect_single_attempt [OF listen_run_listens [OF this]] show ?thesis by blast
qed

text \<open>
  C35: However a listening run goes, the transport's WebSocket is open only while the generator is
  inside its connection block; a consumer that closes the generator at its yield leaves the
  WebSocket closed, but any other exception thrown in there is taken for a command that does not
  parse, and the generator goes on.
\<close>
theorem listener_leaves_no_socket:
  assumes "listens E cls reconnect (listen_start s) tr c" and "ws_closed s \<noteq> Some False"
  shows "(l_phase c \<notin> {Reading, Yielding} \<longrightarrow> ws_closed (l_transport c) \<noteq> Some False) \<and>
    (l_phase c = Yielding \<longrightarrow>
       (\<forall>e. is_exception e \<longrightarrow> listen_step E cls reconnect (Thrown e) c = listen_step E cls reconnect Proceed c) \<and>
       (\<exists>c'. listen_step E cls reconnect (Thrown (PyExn Cancelled m)) c = Some ([], c') \<and>
          l_phase c' = Failed (PyExn Cancelled m) \<and> ws_closed (l_transport c') = Some True))"
proof -
  have "ws_inv (listen_start s)" using assms(2) by (simp add: ws_inv_def listen_start_def)
  with listens_ws_inv [OF assms(1)] have "ws_inv c" by blast
  moreover have "\<not> is_exception (PyExn Cancelled m)" by (simp add: is_exception_def)
  ultimately show ?thesis by (auto simp: ws_inv_def leave_ws_def)
qed

theorem listener_leaves_no_socket_witness:
  "\<exists>c c'. listen_run plain_env command_cls True [Proceed, ConnectOk, Message (TextMsg (Inr PNone))] (listen_start s0) =
      Some ([Opening (ws_url s0) (headers s0), Yielded PNone], c) \<and>
    listen_step plain_env command_cls True (Thrown (PyExn Cancelled ''aclose'')) c = Some ([], c') \<and>
    ws_closed (l_transport c') = Some True"
proof -
  have "\<exists>c. listen_run plain_env command_cls True [Proceed, ConnectOk, Message (TextMsg (Inr PNone))] (listen_start s0) =
      Some ([Opening (ws_url s0) (headers s0), Yielded PNone], c) \<and> l_phase c = Yielding"
    by (simp add: listen_start_def finished_def read_message_def from_dict_def)
      (simp add: s0_def http_connect_def HttpTransport_init_def)
  then obtain c where c: "listen_run plain_env command_cls True [Proceed, ConnectOk, Message (TextMsg (Inr PNone))] (listen_start s0) =
      Some ([Opening (ws_url s0) (headers s0), Yielded PNone], c)" "l_phase c = Yielding" by blast
  have "ws_closed s0 \<noteq> Some False" by (simp add: s0_def http_connect_def HttpTransport_init_def)
  from listener_leaves_no_socket [OF listen_run_listens [OF c(1)] this, of "''aclose''"] c show ?thesis by blast
qed

end
