(* ===== verification/Rxon_Mock.thy ===== *)
theory Rxon_Mock
  imports Rxon_Commands
begin

text \<open>
  \<^verbatim>\<open>src/rxon/testing.py\<close>: \<open>MockTransport\<close>, the in-memory transport, and
  \<^verbatim>\<open>src/rxon/transports/factory.py\<close>: the choice of a transport by the scheme of a
  URL.  The queues of the mock are lists, oldest entry first.  A poll with a positive timeout
  takes the oldest task, or the one that arrives while it waits, if any.
\<close>

subsection \<open>The mock\<close>

record mock_transport =
  mk_worker_id :: string
  mk_token :: string
  mk_connected :: bool
  mk_registered :: "pyval list"
  mk_heartbeats :: "pyval list"
  mk_results :: "pyval list"
  mk_events :: "pyval list"
  mk_task_queue :: "pyval list"
  mk_command_queue :: "pyval list"

definition MockTransport_init :: "string \<Rightarrow> string \<Rightarrow> mock_transport" where
  "MockTransport_init wid tok =
     \<lparr>mk_worker_id = wid, mk_token = tok, mk_connected = False, mk_registered = [], mk_heartbeats = [],
      mk_results = [], mk_events = [], mk_task_queue = [], mk_command_queue = []\<rparr>"

definition mock_connect :: "mock_transport \<Rightarrow> mock_transport" where
  "mock_connect s = s\<lparr>mk_connected := True\<rparr>"

definition mock_close :: "mock_transport \<Rightarrow> mock_transport" where
  "mock_close s = s\<lparr>mk_connected := False\<rparr>"

definition mock_register :: "pyval \<Rightarrow> mock_transport \<Rightarrow> pyval \<times> mock_transport" where
  "mock_register registration s =
     (PDict [(''status'', PStr ''registered''), (''worker_id'', PStr (mk_worker_id s))],
      s\<lparr>mk_registered := mk_registered s @ [registration]\<rparr>)"

text \<open>A dictionary becomes a model; every exception, the timeout included, becomes None.\<close>

definition as_model :: "(pyval \<Rightarrow> string) \<Rightarrow> pycls \<Rightarrow> pyval \<Rightarrow> exn + pyval" where
  "as_model ps cls item = (if is_dict item then from_dict ps cls item else Inr item)"

definition mock_poll_task ::
  "(pyval \<Rightarrow> string) \<Rightarrow> pycls \<Rightarrow> pyval option \<Rightarrow> mock_transport \<Rightarrow> (exn + pyval) \<times> mock_transport" where
  "mock_poll_task ps cls arriving s =
     (let got = (case mk_task_queue s of item # _ \<Rightarrow> Some item | [] \<Rightarrow> arriving);
          r = (case got of None \<Rightarrow> Inl (PyExn TimeoutError []) | Some item \<Rightarrow> as_model ps cls item)
      in (case r of Inr v \<Rightarrow> Inr v | Inl e \<Rightarrow> if is_exception e then Inr PNone else Inl e,
          s\<lparr>mk_task_queue := tl (mk_task_queue s)\<rparr>))"

definition mock_send_result :: "pyval \<Rightarrow> mock_transport \<Rightarrow> bool \<times> mock_transport" where
  "mock_send_result result s = (True, s\<lparr>mk_results := mk_results s @ [result]\<rparr>)"

definition mock_send_heartbeat :: "pyval \<Rightarrow> mock_transport \<Rightarrow> pyval \<times> mock_transport" where
  "mock_send_heartbeat heartbeat s =
     (PDict [(''status'', PStr ''ok'')], s\<lparr>mk_heartbeats := mk_heartbeats s @ [heartbeat]\<rparr>)"

definition mock_emit_event :: "pyval \<Rightarrow> mock_transport \<Rightarrow> bool \<times> mock_transport" where
  "mock_emit_event ev s = (True, s\<lparr>mk_events := mk_events s @ [ev]\<rparr>)"

text \<open>
  One turn of \<open>listen_for_commands\<close>: None when the generator ends or still waits, else what it
  yields or raises.
\<close>

definition mock_next_command ::
  "(pyval \<Rightarrow> string) \<Rightarrow> pycls \<Rightarrow> mock_transport \<Rightarrow> (exn + pyval) option \<times> mock_transport" where
  "mock_next_command ps cls s =
     (if \<not> mk_connected s then (None, s)
      else case mk_command_queue s of
          [] \<Rightarrow> (None, s)
        | item # rest \<Rightarrow> (Some (as_model ps cls item), s\<lparr>mk_command_queue := rest\<rparr>))"

definition mock_refresh_token :: "mock_transport \<Rightarrow> token_response \<times> mock_transport" where
  "mock_refresh_token s =
     (let s1 = s\<lparr>mk_token := ''refreshed-mock-token''\<rparr>
      in (\<lparr>access_token = mk_token s1, expires_in = 3600, tr_worker_id = mk_worker_id s1, refresh_token = None\<rparr>, s1))"

definition mock_push_task :: "pyval \<Rightarrow> mock_transport \<Rightarrow> mock_transport" where
  "mock_push_task task s = s\<lparr>mk_task_queue := mk_task_queue s @ [task]\<rparr>"

definition mock_push_command :: "pyval \<Rightarrow> mock_transport \<Rightarrow> mock_transport" where
  "mock_push_command cmd s = s\<lparr>mk_command_queue := mk_command_queue s @ [cmd]\<rparr>"

fun mock_step :: "(pyval \<Rightarrow> string) \<Rightarrow> pycls \<Rightarrow> transport_op \<Rightarrow> mock_transport \<Rightarrow> mock_transport" where
  "mock_step ps cls Connect s = mock_connect s"
| "mock_step ps cls Close s = mock_close s"
| "mock_step ps cls (Register r) s = snd (mock_register r s)"
| "mock_step ps cls (PollTask t a h) s = snd (mock_poll_task ps cls None s)"
| "mock_step ps cls (SendResult r) s = snd (mock_send_result r s)"
| "mock_step ps cls (SendHeartbeat h) s = snd (mock_send_heartbeat h s)"
| "mock_step ps cls (EmitEvent e) s = snd (mock_emit_event e s)"
| "mock_step ps cls RefreshToken s = snd (mock_refresh_token s)"

lemmas mock_defs = mock_connect_def mock_close_def mock_register_def mock_poll_task_def mock_send_result_def
  mock_send_heartbeat_def mock_emit_event_def mock_refresh_token_def

text \<open>Tasks leave the queue from its front only, whatever the worker does.\<close>

interpretation mock: transport "mock_step ps cls" mk_worker_id mk_token
    "\<lambda>s. Some (access_token (fst (mock_refresh_token s)))" "\<lambda>s. \<exists>n. mk_task_queue s = drop n q0"
  for ps :: "pyval \<Rightarrow> string" and cls :: pycls and q0 :: "pyval list"
proof
  fix op s
  show "mk_worker_id (mock_step ps cls op s) = mk_worker_id s"
    by (cases op) (simp_all add: mock_defs Let_def)
  show "\<exists>n. mk_task_queue s = drop n q0 \<Longrightarrow> \<exists>n. mk_task_queue (mock_step ps cls op s) = drop n q0"
    by (cases op) (auto simp: mock_defs Let_def tl_drop simp flip: drop_Suc)
  show "mk_token (mock_step ps cls RefreshToken s) =
      (case Some (access_token (fst (mock_refresh_token s))) of None \<Rightarrow> mk_token s | Some t \<Rightarrow> t)"
    by (simp add: mock_defs Let_def)
qed

lemma mock_polls_fifo:
  assumes "\<forall>t\<in>set tasks. \<not> is_dict t" and "mk_task_queue s = tasks @ left"
  shows "\<exists>s'. foldl (\<lambda>(out, s) arr. case mock_poll_task ps cls arr s of (r, s1) \<Rightarrow> (out @ [r], s1)) (out, s)
      (replicate (length tasks) arriving) = (out @ map Inr tasks, s') \<and> mk_task_queue s' = left"
  using assms
proof (induction tasks arbitrary: s out)
  case (Cons t tasks)
  let ?s1 = "s\<lparr>mk_task_queue := tasks @ left\<rparr>"
  have "mock_poll_task ps cls arriving s = (Inr t, ?s1)"
    using Cons.prems by (simp add: mock_poll_task_def as_model_def)
  with Cons.IH [of ?s1 "out @ [Inr t]"] Cons.prems show ?case by simp
qed simp

lemma push_tasks_queue: "mk_task_queue (fold mock_push_task tasks s) = mk_task_queue s @ tasks"
  by (induction tasks arbitrary: s) (auto simp: mock_push_task_def)

text \<open>
  The mock transport delivers the pushed tasks in the order of the pushes, whatever other
  operations come between.
\<close>
theorem mock_delivers_in_order:
  assumes "\<forall>t\<in>set tasks. \<not> is_dict t" and "\<forall>op\<in>set ops. \<forall>t a h. op \<noteq> PollTask t a h"
  shows "fst (foldl (\<lambda>(out, s) arr. case mock_poll_task ps cls arr s of (r, s1) \<Rightarrow> (out @ [r], s1))
      ([], fold (mock_step ps cls) ops (fold mock_push_task tasks (MockTransport_init wid tok)))
      (replicate (length tasks) None)) = map Inr tasks"
proof -
  have "mk_task_queue (fold (mock_step ps cls) ops s) = mk_task_queue s" for s
    using assms(2)
  proof (induction ops arbitrary: s)
    case (Cons op ops)
    then have "mk_task_queue (mock_step ps cls op s) = mk_task_queue s"
      by (cases op) (auto simp: mock_defs Let_def)
    with Cons show ?case by simp
  qed simp
  then have "mk_task_queue (fold (mock_step ps cls) ops (fold mock_push_task tasks (MockTransport_init wid tok))) = tasks @ []"
    by (simp add: push_tasks_queue MockTransport_init_def)
  from mock_polls_fifo [OF assms(1) this, of ps cls "[]" None] show ?thesis by auto
qed

theorem mock_delivers_in_order_witness:
  "fst (foldl (\<lambda>(out, s) arr. case mock_poll_task (\<lambda>v. []) command_cls arr s of (r, s1) \<Rightarrow> (out @ [r], s1))
      ([], fold (mock_step (\<lambda>v. []) command_cls) [Connect]
        (fold mock_push_task [PStr ''a'', PStr ''b''] (MockTransport_init ''w'' ''t'')))
      (replicate (length [PStr ''a'', PStr ''b'']) None)) = map Inr [PStr ''a'', PStr ''b'']"
  by (rule mock_delivers_in_order) simp_all

text \<open>
  No operation of the mock changes the worker identity or takes a task from anywhere but the front
  of the queue; a refresh installs the documented token.
\<close>
theorem mock_keeps_identity_and_order:
  "mk_worker_id (fold (mock_step ps cls) ops (s\<lparr>mk_task_queue := q\<rparr>)) = mk_worker_id s \<and>
   (\<exists>n. mk_task_queue (fold (mock_step ps cls) ops (s\<lparr>mk_task_queue := q\<rparr>)) = drop n q) \<and>
   mk_token (fold (mock_step ps cls) (ops @ [RefreshToken]) s) = ''refreshed-mock-token''"
proof -
  have "\<exists>n. mk_task_queue (s\<lparr>mk_task_queue := q\<rparr>) = drop n q" by (intro exI [of _ 0]) simp
  from mock.run_inv [OF this] show ?thesis
    using mock.run_identity [of ps cls ops "s\<lparr>mk_task_queue := q\<rparr>"] mock.run_then_refresh [of ps cls ops s]
    by (simp add: mock_refresh_token_def Let_def)
qed

subsection \<open>The factory\<close>

datatype any_transport = Http http_transport | Mock mock_transport

record http_kwargs =
  kw_session :: "bool option"
  kw_result_retries :: int
  kw_result_retry_delay :: rat

definition default_kwargs :: http_kwargs where
  "default_kwargs = \<lparr>kw_session = None, kw_result_retries = 3, kw_result_retry_delay = 1 / 10\<rparr>"

definition create_transport :: "string \<Rightarrow> string \<Rightarrow> string \<Rightarrow> http_kwargs \<Rightarrow> exn + any_transport" where
  "create_transport url wid tok kw =
     (if list_ex (startswith url) [''http://'', ''https://'', ''ws://'', ''wss://'']
      then (let base = (if startswith url ''ws'' then replace_first ''ws'' ''http'' url else url)
            in Inr (Http (HttpTransport_init base wid tok (kw_session kw) (kw_result_retries kw) (kw_result_retry_delay kw))))
      else if startswith url ''mock://'' then Inr (Mock (MockTransport_init wid tok))
      else Inl (PyExn ValueError (''Unsupported transport scheme in URL: '' @ url)))"

text \<open>The scheme of an address, and the schemes of the two URLs a transport makes of it.\<close>

fun http_scheme :: "string \<Rightarrow> string option" where
  "http_scheme s = map_of [(''http'', ''http''), (''https'', ''https''), (''ws'', ''http''), (''wss'', ''https'')] s"

fun ws_scheme :: "string \<Rightarrow> string option" where
  "ws_scheme s = map_of [(''http'', ''ws''), (''https'', ''wss''), (''ws'', ''ws''), (''wss'', ''wss'')] s"

lemma rstrip_append: "rstrip cs t \<noteq> [] \<Longrightarrow> rstrip cs (s @ t) = s @ rstrip cs t"
  by (auto simp: rstrip_def lstrip_def dropWhile_append dropWhile_eq_Nil_conv split: if_splits)

text \<open>
  For the four network schemes the factory builds a transport whose HTTP base address and
  WebSocket address have the matching scheme, the host and path without trailing slashes, and the
  worker identity at the end of the WebSocket address.
\<close>
theorem create_transport_urls:
  assumes "http_scheme scheme = Some hs" and "ws_scheme scheme = Some ss" and "rstrip ''/'' rest \<noteq> []"
  shows "\<exists>t. create_transport (scheme @ ''://'' @ rest) wid tok kw = Inr (Http t) \<and>
    base_url t = hs @ ''://'' @ rstrip ''/'' rest \<and>
    ws_url t = ss @ ''://'' @ rstrip ''/'' rest @ ''/_worker/ws/'' @ wid"
proof -
  note st = rstrip_append [OF assms(3), of "hs @ ''://''"]
  consider "scheme = ''http''" | "scheme = ''https''" | "scheme = ''ws''" | "scheme = ''wss''"
    using assms(1) by (auto split: if_splits)
  then show ?thesis
    using assms(1,2) st
    by cases (auto simp: create_transport_def startswith_def HttpTransport_init_def ws_url_def WS_ENDPOINT_def
        WORKER_API_PREFIX_def)
qed

theorem create_transport_urls_witness:
  "\<exists>t. create_transport ''wss://orch.example/'' ''w1'' ''t'' default_kwargs = Inr (Http t) \<and>
    base_url t = ''https://orch.example'' \<and> ws_url t = ''wss://orch.example/_worker/ws/w1''"
  using create_transport_urls [of "''wss''" "''https''" "''wss''" "''orch.example/''" "''w1''" "''t''" default_kwargs]
  by (simp add: rstrip_def lstrip_def)

text \<open>
  The factory raises ValueError exactly for the addresses with none of the five schemes.
\<close>
theorem create_transport_rejects:
  "create_transport url wid tok kw = Inl e \<longleftrightarrow>
     \<not> (\<exists>scheme rest. scheme \<in> {''http'', ''https'', ''ws'', ''wss'', ''mock''} \<and> url = scheme @ ''://'' @ rest) \<and>
     e = PyExn ValueError (''Unsupported transport scheme in URL: '' @ url)"
  by (auto simp: create_transport_def Let_def startswith_iff)

end
