(* ===== verification/Rxon_Translate.thy ===== *)
theory Rxon_Translate
  imports Py_Values
begin

text \<open>
  \<^verbatim>\<open>src/rxon/schema.py\<close>: \<open>translate_error\<close>, which turns the messages of the JSON
  schema validator into messages for the user, and \<open>_get_val_by_path\<close>.  The regular
  expressions all have the form: a literal prefix, a greedy group, a literal, a greedy group.
  A dot matches no newline and \<open>re.match\<close> needs no match up to the end, so such a match is a
  split of the first line at the last occurrence of the literal for which the rest matches.
\<close>

subsection \<open>Regular expressions\<close>

definition first_line :: "string \<Rightarrow> string" where
  "first_line s = takeWhile (\<lambda>c. c \<noteq> CHR 0x0A) s"

text \<open>The last occurrence of \<open>mid\<close> whose remainder satisfies \<open>ok\<close>.\<close>

fun split_last :: "(string \<Rightarrow> bool) \<Rightarrow> string \<Rightarrow> string \<Rightarrow> (string \<times> string) option" where
  "split_last ok mid [] = (if mid = [] \<and> ok [] then Some ([], []) else None)"
| "split_last ok mid (c # s) =
     (case split_last ok mid s of
        Some (a, b) \<Rightarrow> Some (c # a, b)
      | None \<Rightarrow> if startswith (c # s) mid \<and> ok (drop (length mid) (c # s))
          then Some ([], drop (length mid) (c # s)) else None)"

definition after_prefix :: "string \<Rightarrow> string \<Rightarrow> string option" where
  "after_prefix p s = (if startswith s p then Some (drop (length p) s) else None)"

text \<open>\<open>pre(.*)mid(.*)\<close> and \<open>pre(.*)mid(.*)end\<close>.\<close>

definition match2 :: "string \<Rightarrow> string \<Rightarrow> string \<Rightarrow> (string \<times> string) option" where
  "match2 pre mid s =
     (case after_prefix pre s of None \<Rightarrow> None | Some r \<Rightarrow> split_last (\<lambda>_. True) mid (first_line r))"

definition match3 :: "string \<Rightarrow> string \<Rightarrow> string \<Rightarrow> string \<Rightarrow> (string \<times> string) option" where
  "match3 pre mid end_lit s =
     (case after_prefix pre s of
        None \<Rightarrow> None
      | Some r \<Rightarrow>
          (case split_last (contains end_lit) mid (first_line r) of
             None \<Rightarrow> None
           | Some (a, b) \<Rightarrow> map_option (\<lambda>(x, _). (a, x)) (split_last (\<lambda>_. True) end_lit b)))"

text \<open>\<open>re.sub("\[(\d+)\]", ".\1", msg)\<close>.\<close>

fun sub_index :: "nat \<Rightarrow> string \<Rightarrow> string" where
  "sub_index 0 s = s"
| "sub_index (Suc n) [] = []"
| "sub_index (Suc n) (c # s) =
     (if c = CHR ''['' \<and> takeWhile is_digit_char s \<noteq> [] \<and>
         startswith (dropWhile is_digit_char s) '']''
      then CHR ''.'' # takeWhile is_digit_char s @ sub_index n (tl (dropWhile is_digit_char s))
      else c # sub_index n s)"

definition bracket_indices :: "string \<Rightarrow> string" where
  "bracket_indices s = sub_index (length s) s"

subsection \<open>\<open>_get_val_by_path\<close>\<close>

fun get_step :: "pyval \<Rightarrow> string \<Rightarrow> pyval option" where
  "get_step (PDict d) p = dget p d"
| "get_step (PList xs) p = (if isdigit p \<and> nat_of_digits p < length xs then Some (xs ! nat_of_digits p) else None)"
| "get_step v p = None"

fun get_parts :: "pyval \<Rightarrow> string list \<Rightarrow> pyval" where
  "get_parts val [] = val"
| "get_parts val (p # ps) = (case get_step val p of None \<Rightarrow> PNone | Some v \<Rightarrow> get_parts v ps)"

definition get_val_by_path :: "pyval \<Rightarrow> string \<Rightarrow> pyval" where
  "get_val_by_path data path = (if path = [] then data else get_parts data (split_on CHR ''.'' path))"

subsection \<open>\<open>translate_error\<close>\<close>

definition q :: "string \<Rightarrow> string" where
  "q s = CHR 0x27 # s @ [CHR 0x27]"

definition field_prefix :: "string list \<Rightarrow> string" where
  "field_prefix parts = concat (map (\<lambda>p. ''Field '' @ q p @ '': '') parts)"

definition path_prefix :: "string \<Rightarrow> string" where
  "path_prefix path = (if path = [] then [] else field_prefix (split_on CHR ''.'' path))"

definition nonempty_prefix :: "string \<Rightarrow> string" where
  "nonempty_prefix path = field_prefix (filter (\<lambda>p. p \<noteq> []) (map (strip ''.'') (split_on CHR ''.'' path)))"

definition strip_quotes :: "string \<Rightarrow> string" where
  "strip_quotes = strip [CHR 0x27, CHR 0x22]"

definition translate_enum :: "(pyval \<Rightarrow> string) \<Rightarrow> pyval \<Rightarrow> string \<times> string \<Rightarrow> string" where
  "translate_enum ps data = (\<lambda>(path, enum_list).
     path_prefix path @ ''Value '' @ q (ps (get_val_by_path data path)) @
       '' is not allowed. Must be one of: '' @ enum_list)"

definition match_enum :: "string \<Rightarrow> (string \<times> string) option" where
  "match_enum msg =
     (case match2 ''data.'' '' must be one of '' msg of
        Some r \<Rightarrow> Some r
      | None \<Rightarrow> map_option (\<lambda>r. ([], first_line r)) (after_prefix ''data must be one of '' msg))"

definition translate_type :: "pyval \<Rightarrow> string \<times> string \<Rightarrow> string" where
  "translate_type data = (\<lambda>(path, expected).
     (let parts = split_on CHR ''.'' path; last_field = last parts; prefix = field_prefix (butlast parts)
      in if isdigit last_field then
           (if length parts \<ge> 2
            then field_prefix (butlast (butlast parts)) @ ''Field '' @ q (last (butlast parts)) @
              '': Item at index '' @ last_field @ '': Expected '' @ expected
            else ''Item at index '' @ last_field @ '': Expected '' @ expected)
         else if get_val_by_path data path = PNone
         then prefix @ ''Field '' @ q last_field @ '': Expected '' @ expected @ '', got null''
         else prefix @ ''Field '' @ q last_field @ '': Expected '' @ expected))"

definition translate_error :: "(pyval \<Rightarrow> string) \<Rightarrow> string \<Rightarrow> pyval \<Rightarrow> string" where
  "translate_error ps msg0 data =
     (let msg = bracket_indices msg0 in
      if contains ''cannot be validated by any definition'' msg \<or> contains ''anyOf'' msg
      then ''Value does not match any schemas''
      else case match_enum msg of
        Some r \<Rightarrow> translate_enum ps data r
      | None \<Rightarrow> (case match3 ''data'' '' must contain ['' '']'' msg of
        Some (path, field) \<Rightarrow> nonempty_prefix path @ ''Missing required field: '' @ q (strip_quotes field)
      | None \<Rightarrow> (case match3 ''data'' '' must not contain {'' ''} properties'' msg of
        Some (path, field) \<Rightarrow> nonempty_prefix path @ ''Unexpected field: '' @ q (strip_quotes field)
      | None \<Rightarrow> (case match2 ''data.'' '' must be '' msg of
        Some r \<Rightarrow> translate_type data r
      | None \<Rightarrow> (case after_prefix ''data must be '' msg of
        Some r \<Rightarrow> ''Expected '' @ first_line r @ (if data = PNone then '', got null'' else [])
      | None \<Rightarrow> msg)))))"

subsection \<open>Facts\<close>

lemma after_prefix_append [simp]: "after_prefix p (p @ s) = Some s"
  by (simp add: after_prefix_def)

lemma first_line_id [simp]: "CHR 0x0A \<notin> set s \<Longrightarrow> first_line s = s"
  by (auto simp: first_line_def takeWhile_eq_all_conv)

lemma split_last_None: "split_last ok mid s = None \<longleftrightarrow> (\<nexists>a b. s = a @ mid @ b \<and> ok b)"
proof (induction s)
  case (Cons c s)
  show ?case
  proof (cases "split_last ok mid s")
    case None
    then have "(\<exists>a b. c # s = a @ mid @ b \<and> ok b) \<longleftrightarrow> (\<exists>b. c # s = mid @ b \<and> ok b)"
      using Cons by (auto simp: Cons_eq_append_conv)
    also have "\<dots> \<longleftrightarrow> startswith (c # s) mid \<and> ok (drop (length mid) (c # s))"
      by (auto simp: startswith_iff)
    finally show ?thesis using None by auto
  next
    case (Some r)
    then obtain a b where "s = a @ mid @ b \<and> ok b" using Cons by fastforce
    then have "\<exists>a b. c # s = a @ mid @ b \<and> ok b" by (metis append_Cons)
    with Some show ?thesis by (cases r) simp
  qed
qed auto

lemma split_last_Some: "split_last ok mid s = Some (a, b) \<Longrightarrow> s = a @ mid @ b \<and> ok b"
proof (induction s arbitrary: a)
  case (Cons c s)
  show ?case
  proof (cases "split_last ok mid s")
    case None
    with Cons.prems show ?thesis by (auto simp: startswith_def split: if_splits) (metis append_take_drop_id)
  next
    case (Some r)
    with Cons show ?thesis by (cases r) auto
  qed
qed (auto split: if_splits)

text \<open>The match at a given place, when the literal does not occur again.\<close>

lemma split_last_at:
  assumes "ok b" and "\<not> contains mid (tl mid @ b)" and "mid \<noteq> []"
  shows "split_last ok mid (a @ mid @ b) = Some (a, b)"
proof (induction a)
  case Nil
  obtain m ms where m: "mid = m # ms" using assms(3) by (cases mid) auto
  have "split_last ok mid (ms @ b) = None"
    unfolding split_last_None using assms(2) m by (auto simp: contains_iff)
  with m assms(1) show ?case by (simp add: startswith_def)
qed simp

lemma sub_index_id: "CHR ''['' \<notin> set s \<Longrightarrow> sub_index n s = s"
  by (induction n s rule: sub_index.induct) auto

lemma bracket_indices_id: "CHR ''['' \<notin> set s \<Longrightarrow> bracket_indices s = s"
  by (simp add: bracket_indices_def sub_index_id)

lemma sub_index_keep:
  "CHR ''['' \<notin> set a \<Longrightarrow> CHR ''['' \<notin> set b \<Longrightarrow> \<not> is_digit_char c \<Longrightarrow> c \<noteq> CHR ''['' \<Longrightarrow>
    sub_index n (a @ CHR ''['' # c # b) = a @ CHR ''['' # c # b"
proof (induction a arbitrary: n)
  case Nil
  then show ?case by (cases n; cases "n - 1") (auto simp: sub_index_id)
next
  case (Cons x a)
  then show ?case by (cases n) auto
qed

lemma sub_index_replace:
  assumes "isdigit i" and "CHR ''['' \<notin> set a" and "CHR ''['' \<notin> set b" and "length a + 1 \<le> n"
  shows "sub_index n (a @ CHR ''['' # i @ CHR '']'' # b) = a @ CHR ''.'' # i @ b"
  using assms(2,4)
proof (induction a arbitrary: n)
  case Nil
  have d: "\<not> is_digit_char (CHR '']'')" by (simp add: is_digit_char_def)
  have i: "i \<noteq> []" "\<forall>c\<in>set i. is_digit_char c" using assms(1) by (auto simp: isdigit_def list_all_iff)
  then have "takeWhile is_digit_char (i @ CHR '']'' # b) = i" "dropWhile is_digit_char (i @ CHR '']'' # b) = CHR '']'' # b"
    using d by (simp_all add: takeWhile_append2 dropWhile_append2)
  with Nil i assms(3) show ?case by (cases n) (auto simp: startswith_def sub_index_id)
next
  case (Cons x a)
  then show ?case by (cases n) auto
qed

lemma bracket_indices_replace:
  "isdigit i \<Longrightarrow> CHR ''['' \<notin> set a \<Longrightarrow> CHR ''['' \<notin> set b \<Longrightarrow>
    bracket_indices (a @ CHR ''['' # i @ CHR '']'' # b) = a @ CHR ''.'' # i @ b"
  by (simp add: bracket_indices_def sub_index_replace)

lemma field_prefix_simps [simp]: "field_prefix [] = []"
  "field_prefix (p # ps) = ''Field '' @ q p @ '': '' @ field_prefix ps"
  "field_prefix (ps @ qs) = field_prefix ps @ field_prefix qs"
  by (simp_all add: field_prefix_def)

text \<open>A name that can stand in a path, and a message that shows only one of the markers.\<close>

definition plain_part :: "string \<Rightarrow> bool" where
  "plain_part p \<longleftrightarrow> p \<noteq> [] \<and> CHR ''.'' \<notin> set p \<and> CHR 0x0A \<notin> set p \<and> CHR ''['' \<notin> set p"

definition unmarked :: "string list \<Rightarrow> string \<Rightarrow> bool" where
  "unmarked markers msg \<longleftrightarrow> list_all (\<lambda>m. \<not> contains m msg) markers"

definition union_markers :: "string list" where
  "union_markers = [''cannot be validated by any definition'', ''anyOf'']"

lemma join_chars: "set (join [c] ps) \<subseteq> insert c (\<Union> (set ` set ps))"
  by (induction ps rule: induct_list012) auto

lemma plain_path:
  assumes "ps \<noteq> []" and "list_all plain_part ps"
  shows "split_on CHR ''.'' (join ''.'' ps) = ps" and "CHR 0x0A \<notin> set (join ''.'' ps)"
    and "CHR ''['' \<notin> set (join ''.'' ps)" and "join ''.'' ps \<noteq> []"
proof -
  show "split_on CHR ''.'' (join ''.'' ps) = ps"
    using assms by (intro split_on_join) (auto simp: list_all_iff plain_part_def)
  show "CHR 0x0A \<notin> set (join ''.'' ps)" "CHR ''['' \<notin> set (join ''.'' ps)"
    using assms(2) join_chars [of "CHR ''.''" ps] by (auto simp: list_all_iff plain_part_def)
  show "join ''.'' ps \<noteq> []"
    using assms by (cases ps; cases "tl ps") (auto simp: join_Cons list_all_iff plain_part_def)
qed

lemma match2_prefix: "match2 pre mid (pre @ s) = split_last (\<lambda>_. True) mid (first_line s)"
  by (simp add: match2_def)

lemma match2_None: "\<not> contains mid (first_line s) \<Longrightarrow> match2 pre mid (pre @ s) = None"
  by (auto simp: match2_def split_last_None contains_iff)

lemma match3_None: "\<not> contains mid (first_line s) \<Longrightarrow> match3 pre mid el (pre @ s) = None"
proof -
  assume "\<not> contains mid (first_line s)"
  then have "split_last (contains el) mid (first_line s) = None"
    by (auto simp: split_last_None contains_iff)
  then show ?thesis by (simp add: match3_def)
qed

lemma type_message:
  assumes "unmarked (union_markers @ ['' must be one of '', '' must not contain {'']) (''data.'' @ path @ '' must be '' @ t)"
    and "\<not> contains '' must be '' (''must be '' @ t)" and "CHR ''['' \<notin> set (path @ t)" and "CHR 0x0A \<notin> set (path @ t)"
    and "bracket_indices msg = ''data.'' @ path @ '' must be '' @ t"
  shows "translate_error str msg data = translate_type data (path, t)"
proof -
  let ?m = "''data.'' @ path @ '' must be '' @ t" and ?r = "path @ '' must be '' @ t"
  have nl: "first_line ?r = ?r" "first_line (CHR ''.'' # ?r) = CHR ''.'' # ?r"
    using assms(4) by (intro first_line_id; simp)+
  have sub: "contains m ?m" if "contains m ?r \<or> contains m (CHR ''.'' # ?r)" for m
  proof -
    from that obtain u v where "?r = u @ m @ v \<or> CHR ''.'' # ?r = u @ m @ v" unfolding contains_iff by blast
    then have "?m = (''data.'' @ u) @ m @ v \<or> ?m = (''data'' @ u) @ m @ v" by auto
    then show ?thesis unfolding contains_iff by blast
  qed
  have no: "\<not> contains '' must be one of '' ?r" "\<not> contains '' must not contain {'' (CHR ''.'' # ?r)"
    using assms(1) sub by (auto simp: unmarked_def)
  have "CHR ''['' \<notin> set (CHR ''.'' # ?r)" using assms(3) by simp
  then have no2: "\<not> contains '' must contain ['' (CHR ''.'' # ?r)"
    unfolding contains_iff by (metis UnI1 UnI2 list.set_intros(1) list.set_intros(2) set_append)
  have "match_enum ?m = None"
    using match2_None [of "'' must be one of ''" ?r "''data.''"] no(1) nl(1)
    by (simp add: match_enum_def after_prefix_def startswith_def)
  moreover have "match3 ''data'' '' must contain ['' '']'' ?m = None"
    using match3_None [of "'' must contain [''" "CHR ''.'' # ?r" "''data''" "'']''"] no2 nl(2) by simp
  moreover have "match3 ''data'' '' must not contain {'' ''} properties'' ?m = None"
    using match3_None [of "'' must not contain {''" "CHR ''.'' # ?r" "''data''" "''} properties''"] no(2) nl(2) by simp
  moreover have "match2 ''data.'' '' must be '' ?m = Some (path, t)"
    using match2_prefix [of "''data.''" "'' must be ''" ?r] split_last_at [of "\<lambda>_. True" t "'' must be ''" path]
      assms(2) nl(1) by simp
  ultimately show ?thesis
    using assms(1) unfolding translate_error_def assms(5) Let_def
    by (simp add: unmarked_def union_markers_def)
qed

subsection \<open>Properties\<close>

text \<open>
  A type error at a path of names becomes a message that names every field on the path and the
  expected type, and says when the value is null or absent.
\<close>
theorem translate_field_error:
  assumes "list_all plain_part (ps @ [f])" and "\<not> isdigit f" and "CHR ''['' \<notin> set t" and "CHR 0x0A \<notin> set t"
    and "unmarked (union_markers @ ['' must be one of '', '' must not contain {''])
      (''data.'' @ join ''.'' (ps @ [f]) @ '' must be '' @ t)"
    and "\<not> contains '' must be '' (''must be '' @ t)"
  shows "translate_error str (''data.'' @ join ''.'' (ps @ [f]) @ '' must be '' @ t) data =
    field_prefix (ps @ [f]) @ ''Expected '' @ t @ (if get_parts data (ps @ [f]) = PNone then '', got null'' else [])"
proof -
  note pp = plain_path [OF _ assms(1), simplified]
  have "translate_error str (''data.'' @ join ''.'' (ps @ [f]) @ '' must be '' @ t) data =
      translate_type data (join ''.'' (ps @ [f]), t)"
    using assms(3-6) pp by (intro type_message) (auto intro!: bracket_indices_id)
  then show ?thesis
    using pp assms(2) by (simp add: translate_type_def get_val_by_path_def Let_def butlast_append)
qed

lemmas message_eval = unmarked_def union_markers_def startswith_def plain_part_def isdigit_def is_digit_char_def

theorem translate_field_error_witness:
  "translate_error (\<lambda>v. []) (''data.'' @ join ''.'' ([''user''] @ [''age'']) @ '' must be '' @ ''integer'')
     (PDict [(''user'', PDict [(''age'', PNone)])]) =
   ''Field '' @ q ''user'' @ '': Field '' @ q ''age'' @ '': Expected integer, got null''"
  by (subst translate_field_error) (simp_all add: message_eval dget_def)

text \<open>
  A type error at an index of an array names the fields of the path and the index, read from the
  brackets of the message.
\<close>
theorem translate_item_error:
  assumes "list_all plain_part (ps @ [f])" and "isdigit i" and "CHR ''['' \<notin> set t" and "CHR 0x0A \<notin> set t"
    and "unmarked (union_markers @ ['' must be one of '', '' must not contain {''])
      (''data.'' @ join ''.'' (ps @ [f]) @ ''.'' @ i @ '' must be '' @ t)"
    and "\<not> contains '' must be '' (''must be '' @ t)"
  shows "translate_error str (''data.'' @ join ''.'' (ps @ [f]) @ ''['' @ i @ ''] must be '' @ t) data =
    field_prefix (ps @ [f]) @ ''Item at index '' @ i @ '': Expected '' @ t"
proof -
  note pp = plain_path [OF _ assms(1), simplified]
  let ?path = "join ''.'' (ps @ [f]) @ ''.'' @ i"
  have i: "\<forall>c\<in>set i. is_digit_char c" "i \<noteq> []" using assms(2) by (auto simp: isdigit_def list_all_iff)
  then have ic: "CHR ''['' \<notin> set i" "CHR 0x0A \<notin> set i" "CHR ''.'' \<notin> set i"
    by (auto simp: is_digit_char_def)
  have "bracket_indices (''data.'' @ join ''.'' (ps @ [f]) @ ''['' @ i @ ''] must be '' @ t) =
      ''data.'' @ ?path @ '' must be '' @ t"
    using bracket_indices_replace [OF assms(2), of "''data.'' @ join ''.'' (ps @ [f])" "'' must be '' @ t"] pp assms(3)
    by simp
  then have "translate_error str (''data.'' @ join ''.'' (ps @ [f]) @ ''['' @ i @ ''] must be '' @ t) data =
      translate_type data (?path, t)"
    using assms(3-6) pp ic by (intro type_message) auto
  moreover have "split_on CHR ''.'' ?path = ps @ [f, i]"
  proof -
    have "join ''.'' (ps @ [f, i]) = ?path"
      by (induction ps) (simp_all add: join_Cons)
    moreover have "split_on CHR ''.'' (join ''.'' (ps @ [f, i])) = ps @ [f, i]"
      using assms(1) ic by (intro split_on_join) (auto simp: list_all_iff plain_part_def)
    ultimately show ?thesis by simp
  qed
  ultimately show ?thesis
    using assms(2) by (simp add: translate_type_def Let_def butlast_append)
qed

theorem translate_item_error_witness:
  "translate_error (\<lambda>v. []) (''data.'' @ join ''.'' ([] @ [''tags'']) @ ''['' @ ''12'' @ ''] must be '' @ ''string'')
     (PDict []) = ''Field '' @ q ''tags'' @ '': Item at index 12: Expected string''"
  by (subst translate_item_error) (simp_all add: message_eval)

lemma match_enum_None: "\<not> contains '' must be one of '' msg \<Longrightarrow> match_enum msg = None"
proof -
  assume no: "\<not> contains '' must be one of '' msg"
  have "after_prefix ''data must be one of '' msg = None"
    using no by (auto simp: after_prefix_def startswith_iff)
  moreover have "match2 ''data.'' '' must be one of '' msg = None"
  proof (cases "startswith msg ''data.''")
    case True
    then obtain s where s: "msg = ''data.'' @ s" by (auto simp: startswith_iff)
    have "\<not> contains '' must be one of '' (first_line s)"
    proof
      assume "contains '' must be one of '' (first_line s)"
      then obtain u v where "first_line s = u @ '' must be one of '' @ v" unfolding contains_iff by blast
      then have "msg = (''data.'' @ u) @ '' must be one of '' @ (v @ dropWhile (\<lambda>c. c \<noteq> CHR 0x0A) s)"
        unfolding s first_line_def by (metis append.assoc takeWhile_dropWhile_id)
      with no show False unfolding contains_iff by blast
    qed
    from match2_None [OF this, of "''data.''"] s show ?thesis by simp
  qed (simp add: match2_def after_prefix_def)
  ultimately show ?thesis by (simp add: match_enum_def)
qed

definition dotted :: "string list \<Rightarrow> string" where
  "dotted ps = concat (map (\<lambda>p. CHR ''.'' # p) ps)"

lemma strip_free: "set p \<inter> set cs = {} \<Longrightarrow> strip cs p = p"
proof -
  have l: "set s \<inter> set cs = {} \<Longrightarrow> lstrip cs s = s" for s
    by (cases s) (simp_all add: lstrip_def)
  then show "set p \<inter> set cs = {} \<Longrightarrow> ?thesis" by (simp add: strip_def rstrip_def)
qed

lemma strip_quoted:
  assumes "f \<noteq> []" and "set f \<inter> set cs = {}" and "c \<in> set cs"
  shows "strip cs (c # f @ [c]) = f"
proof -
  obtain x xs where f: "f = x # xs" using assms(1) by (cases f) auto
  obtain y ys where g: "rev f = y # ys" using assms(1) by (cases "rev f") auto
  then have "y \<in> set f" by (metis list.set_intros(1) set_rev)
  then have "y \<notin> set cs" using assms(2) by blast
  moreover have "lstrip cs (c # f @ [c]) = f @ [c]" using assms(2,3) f by (simp add: lstrip_def)
  ultimately have "strip cs (c # f @ [c]) = rev (y # ys)"
    using assms(3) g by (simp add: strip_def rstrip_def lstrip_def)
  then show ?thesis by (metis g rev_rev_ident)
qed

lemma dotted_parts:
  assumes "list_all plain_part ps"
  shows "nonempty_prefix (dotted ps) = field_prefix ps" and "CHR ''['' \<notin> set (dotted ps)" and "CHR 0x0A \<notin> set (dotted ps)"
proof -
  have "split_on CHR ''.'' (dotted ps) = [] # ps"
    using assms
  proof (induction ps)
    case (Cons p ps)
    then have "split_on CHR ''.'' (p @ dotted ps) = p # ps"
      by (cases ps) (auto simp: dotted_def plain_part_def split_on_no_sep split_on_append)
    then show ?case by (simp add: dotted_def)
  qed (simp add: dotted_def)
  moreover have "map (strip ''.'') ps = ps"
    using assms by (intro map_idI) (auto simp: list_all_iff plain_part_def intro!: strip_free)
  moreover have "filter (\<lambda>p. p \<noteq> []) ps = ps"
    using assms by (intro filter_True) (auto simp: list_all_iff plain_part_def)
  ultimately show "nonempty_prefix (dotted ps) = field_prefix ps"
    by (simp add: nonempty_prefix_def strip_def rstrip_def lstrip_def)
  show "CHR ''['' \<notin> set (dotted ps)" "CHR 0x0A \<notin> set (dotted ps)"
    using assms by (auto simp: dotted_def list_all_iff plain_part_def)
qed

text \<open>
  A missing required property, at the top level or at any path of names, becomes a message that
  names the path and the property without its quotes.
\<close>
theorem translate_missing_field:
  assumes "list_all plain_part ps" and "plain_part f" and "set f \<inter> {CHR 0x27, CHR 0x22, CHR '']''} = {}"
    and "unmarked (union_markers @ ['' must be one of ''])
      (''data'' @ dotted ps @ '' must contain ['' @ q f @ ''] properties'')"
  shows "translate_error str (''data'' @ dotted ps @ '' must contain ['' @ q f @ ''] properties'') data =
    field_prefix ps @ ''Missing required field: '' @ q f"
proof -
  let ?b = "q f @ ''] properties''" and ?mid = "'' must contain [''"
  let ?r = "dotted ps @ ?mid @ ?b"
  note d = dotted_parts [OF assms(1)]
  have "bracket_indices (''data'' @ ?r) = ''data'' @ ?r"
    using sub_index_keep [of "''data'' @ dotted ps @ '' must contain ''" "f @ CHR 0x27 # ''] properties''" "CHR 0x27"]
      d assms(2) by (simp add: bracket_indices_def q_def plain_part_def is_digit_char_def)
  moreover have "match_enum (''data'' @ ?r) = None"
    using assms(4) by (intro match_enum_None) (simp add: unmarked_def)
  moreover have "match3 ''data'' ?mid '']'' (''data'' @ ?r) = Some (dotted ps, q f)"
  proof -
    have "CHR ''['' \<notin> set ?b" using assms(2) by (simp add: q_def plain_part_def)
    then have "\<not> contains ?mid (tl ?mid @ ?b)"
      by (auto simp: contains_iff append_eq_append_conv2 Cons_eq_append_conv append_eq_Cons_conv)
    moreover have "contains '']'' ?b" unfolding contains_iff
      by (rule exI [of _ "q f"], rule exI [of _ "'' properties''"]) simp
    ultimately have "split_last (contains '']'') ?mid ?r = Some (dotted ps, ?b)"
      by (intro split_last_at) simp_all
    moreover have "split_last (\<lambda>_. True) '']'' (q f @ '']'' @ '' properties'') = Some (q f, '' properties'')"
      by (intro split_last_at) (simp_all add: startswith_def)
    moreover have "first_line ?r = ?r"
      using d(3) assms(2) by (intro first_line_id) (simp add: q_def plain_part_def)
    moreover have "match3 ''data'' ?mid '']'' (''data'' @ ?r) =
        (case split_last (contains '']'') ?mid (first_line ?r) of None \<Rightarrow> None
         | Some (a, b) \<Rightarrow> map_option (\<lambda>(x, _). (a, x)) (split_last (\<lambda>_. True) '']'' b))"
      unfolding match3_def after_prefix_append by simp
    ultimately show ?thesis by simp
  qed
  moreover have "strip_quotes (q f) = f"
    using assms(2,3) unfolding strip_quotes_def q_def by (intro strip_quoted) (auto simp: plain_part_def)
  ultimately show ?thesis
    using assms(4) d(1) by (simp add: translate_error_def Let_def unmarked_def union_markers_def)
qed

theorem translate_missing_field_witness:
  "translate_error (\<lambda>v. []) (''data'' @ dotted [''user''] @ '' must contain ['' @ q ''name'' @ ''] properties'') PNone =
     field_prefix [''user''] @ ''Missing required field: '' @ q ''name''"
  by (rule translate_missing_field) (simp_all add: message_eval dotted_def q_def)

text \<open>
  The rewriting of indices also hits the list of allowed values: an enumeration of the single
  integer 1 is reported as .1.
\<close>
theorem translate_corrupts_enum:
  "translate_error (\<lambda>v. ''2'') ''data.level must be one of [1]'' (PDict [(''level'', PInt 2)]) =
     ''Field '' @ q ''level'' @ '': Value '' @ q ''2'' @ '' is not allowed. Must be one of: .1''"
  by (simp add: translate_error_def bracket_indices_def is_digit_char_def startswith_def match_enum_def match2_def
      after_prefix_def first_line_def translate_enum_def path_prefix_def get_val_by_path_def q_def Let_def)

end
