(* ===== verification/Rxon_Validation.thy ===== *)
theory Rxon_Validation
  imports Rxon_Translate Rxon_Matching Rxon_Serial
begin

text \<open>
  \<^verbatim>\<open>src/rxon/schema.py\<close>: the bounded cache of compiled validators and
  \<open>validate_data\<close>; \<^verbatim>\<open>src/rxon/models.py\<close>: \<open>SkillInfo.input_validator\<close> and
  \<open>TaskPayload.validate_params\<close>.  fastjsonschema is an argument: \<open>compile\<close> gives a validator
  or raises, a validator accepts or raises.  A cache is an association list, oldest entry
  first.  What a bounded first-in-first-out cache promises its clients is a locale.
\<close>

subsection \<open>Bounded caches\<close>

text \<open>The critical section: look up, else make and store, dropping the oldest entry of a full cache.\<close>

definition cache_fill :: "nat \<Rightarrow> 'k \<Rightarrow> 'v option \<Rightarrow> ('k \<times> 'v) list \<Rightarrow> 'v option \<times> ('k \<times> 'v) list" where
  "cache_fill cap k made c =
     (case map_of c k of
        Some v \<Rightarrow> (Some v, c)
      | None \<Rightarrow> (case made of
          None \<Rightarrow> (None, c)
        | Some v \<Rightarrow> (Some v, (if cap \<le> length c then tl c else c) @ [(k, v)])))"

locale bounded_cache =
  fixes cap :: nat
    and key :: "'q \<Rightarrow> 'k"
    and made :: "'q \<Rightarrow> 'v option"
    and request :: "'q \<Rightarrow> ('k \<times> 'v) list \<Rightarrow> 'v option \<times> ('k \<times> 'v) list"
  assumes cap: "0 < cap"
    and request_eq: "request r c = cache_fill cap (key r) (made r) c"
begin

definition cache_ok :: "('k \<times> 'v) list \<Rightarrow> bool" where
  "cache_ok c \<longleftrightarrow> length c \<le> cap \<and> distinct (map fst c) \<and> (\<forall>(k, v)\<in>set c. \<exists>r. key r = k \<and> made r = Some v)"

lemma cache_ok_Nil: "cache_ok []"
  by (simp add: cache_ok_def)

lemma set_tl_subset: "set (tl xs) \<subseteq> set xs"
  by (cases xs) auto

lemma request_cases:
  obtains (hit) v where "map_of c (key r) = Some v" "request r c = (Some v, c)"
  | (failed) "map_of c (key r) = None" "made r = None" "request r c = (None, c)"
  | (stored) v where "key r \<notin> set (map fst c)" "made r = Some v"
      "request r c = (Some v, (if cap \<le> length c then tl c else c) @ [(key r, v)])"
  by (cases "map_of c (key r)"; cases "made r")
    (auto simp: request_eq cache_fill_def map_of_eq_None_iff)

lemma cache_ok_request: "cache_ok c \<Longrightarrow> cache_ok (snd (request r c))"
proof -
  assume ok: "cache_ok c"
  show ?thesis
  proof (cases rule: request_cases [of c r])
    case (stored v)
    let ?c = "if cap \<le> length c then tl c else c"
    have "set ?c \<subseteq> set c" by (simp add: set_tl_subset)
    moreover have "distinct (map fst ?c)" using ok by (cases c) (auto simp: cache_ok_def)
    moreover have "length ?c < cap" using ok cap by (cases c) (auto simp: cache_ok_def)
    moreover have "key r \<notin> set (map fst ?c)" using stored(1) calculation(1) by auto
    ultimately show ?thesis using stored ok unfolding cache_ok_def by auto
  qed (use ok in simp_all)
qed

lemma cache_ok_run: "cache_ok c \<Longrightarrow> cache_ok (foldl (\<lambda>c r. snd (request r c)) c rs)"
  by (induction rs arbitrary: c) (auto simp: cache_ok_request)

text \<open>The answer is what some request with the same key makes.\<close>

lemma transparent: "cache_ok c \<Longrightarrow> \<exists>r'. key r' = key r \<and> fst (request r c) = made r'"
proof (cases rule: request_cases [of c r])
  case (hit v)
  then have "(key r, v) \<in> set c" by (simp add: map_of_SomeD)
  then show "cache_ok c \<Longrightarrow> ?thesis" using hit(2) unfolding cache_ok_def by fastforce
qed auto

lemma hit_unchanged: "map_of c (key r) = Some v \<Longrightarrow> request r c = (Some v, c)"
  by (simp add: request_eq cache_fill_def)

lemma full_evicts_oldest:
  "length c = cap \<Longrightarrow> map_of c (key r) = None \<Longrightarrow> made r = Some v \<Longrightarrow>
    snd (request r c) = tl c @ [(key r, v)]"
  by (simp add: request_eq cache_fill_def)

end

subsection \<open>Compiled validators\<close>

text \<open>\<open>JsonSchemaValueException\<close> with its message, or any other exception.\<close>

datatype verdict = Accepts | Violates string | Raises exn

type_synonym validator = "pyval \<Rightarrow> verdict"

record 'b schema_env =
  s_codec :: "'b codec"
  s_sorted_str :: "pyval \<Rightarrow> 'b" \<comment> \<open>\<open>str(sorted(schema.items())).encode()\<close>\<close>
  s_compile :: "pyval \<Rightarrow> exn + validator" \<comment> \<open>\<open>fastjsonschema.compile\<close>\<close>

definition MAX_VALIDATOR_CACHE_SIZE :: nat where
  "MAX_VALIDATOR_CACHE_SIZE = 1024"

type_synonym 'b vcache = "('b \<times> validator) list"

definition schema_key :: "'b schema_env \<Rightarrow> pyval \<Rightarrow> 'b" where
  "schema_key E schema =
     (case oj_dumps (s_codec E) None [OPT_SORT_KEYS] schema of Inr b \<Rightarrow> b | Inl _ \<Rightarrow> s_sorted_str E schema)"

definition compiled :: "'b schema_env \<Rightarrow> pyval \<Rightarrow> validator option" where
  "compiled E schema = (case s_compile E schema of Inr v \<Rightarrow> Some v | Inl _ \<Rightarrow> None)"

text \<open>
  The lookup before the lock and the lookup under the lock see the same cache when no other
  thread comes between; \<open>validator_section\<close> is the locked part, which any interleaving of
  threads executes one after the other.
\<close>

definition validator_section :: "'b schema_env \<Rightarrow> pyval \<Rightarrow> 'b vcache \<Rightarrow> validator option \<times> 'b vcache" where
  "validator_section E schema c =
     cache_fill MAX_VALIDATOR_CACHE_SIZE (schema_key E schema) (compiled E schema) c"

definition get_compiled_validator :: "'b schema_env \<Rightarrow> pyval \<Rightarrow> 'b vcache \<Rightarrow> validator option \<times> 'b vcache" where
  "get_compiled_validator E schema c =
     (if \<not> truthy schema then (None, c)
      else case map_of c (schema_key E schema) of
          Some v \<Rightarrow> (Some v, c)
        | None \<Rightarrow> validator_section E schema c)"

definition validate_data ::
  "'b schema_env \<Rightarrow> pyval \<Rightarrow> pyval \<Rightarrow> 'b vcache \<Rightarrow> (bool \<times> string option) \<times> 'b vcache" where
  "validate_data E data schema c =
     (if schema = PNone \<or> \<not> truthy schema then ((True, None), c)
      else case get_compiled_validator E schema c of
          (None, c1) \<Rightarrow> ((False, Some ''Failed to compile schema''), c1)
        | (Some validator, c1) \<Rightarrow>
            ((case validator data of
                Accepts \<Rightarrow> (True, None)
              | Violates m \<Rightarrow> (False, Some (translate_error (py_str (s_codec E)) m data))
              | Raises e \<Rightarrow> (False, Some (exn_str (py_str (s_codec E)) e))), c1))"

definition opt_schema :: "pyval dict option \<Rightarrow> pyval" where
  "opt_schema s = (case s of None \<Rightarrow> PNone | Some d \<Rightarrow> PDict d)"

definition input_validator :: "'b schema_env \<Rightarrow> pyval dict option \<Rightarrow> 'b vcache \<Rightarrow> validator option \<times> 'b vcache" where
  "input_validator E input_schema = get_compiled_validator E (opt_schema input_schema)"

text \<open>\<open>getattr(e, "message", str(e))\<close>.\<close>

fun exn_message :: "(pyval \<Rightarrow> string) \<Rightarrow> verdict \<Rightarrow> string" where
  "exn_message ps Accepts = []"
| "exn_message ps (Violates m) = m"
| "exn_message ps (Raises e) = exn_str ps e"

definition validate_params ::
  "'b schema_env \<Rightarrow> pyval dict option \<Rightarrow> pyval dict option \<Rightarrow> 'b vcache \<Rightarrow> (bool \<times> string option) \<times> 'b vcache" where
  "validate_params E params input_schema c =
     (case input_validator E input_schema c of
        (Some validator, c1) \<Rightarrow>
          ((case validator (opt_schema params) of
              Accepts \<Rightarrow> (True, None)
            | r \<Rightarrow> (False, Some (translate_error (py_str (s_codec E)) (exn_message (py_str (s_codec E)) r) (opt_schema params)))),
           c1)
      | (None, c1) \<Rightarrow> validate_data E (opt_schema params) (opt_schema input_schema) c1)"

subsection \<open>The cache of validators is a bounded cache\<close>

text \<open>The key of a schema determines what it compiles to.\<close>

definition keys_faithful :: "'b schema_env \<Rightarrow> bool" where
  "keys_faithful E \<longleftrightarrow> (\<forall>s t. schema_key E s = schema_key E t \<longrightarrow> compiled E s = compiled E t)"

lemma truthy_request:
  "truthy s \<Longrightarrow> get_compiled_validator E s c = cache_fill MAX_VALIDATOR_CACHE_SIZE (schema_key E s) (compiled E s) c"
  by (simp add: get_compiled_validator_def validator_section_def cache_fill_def split: option.split)

interpretation vcache: bounded_cache MAX_VALIDATOR_CACHE_SIZE "schema_key E" "compiled E" "validator_section E"
  for E :: "'b schema_env"
  by unfold_locales (simp_all add: MAX_VALIDATOR_CACHE_SIZE_def validator_section_def)

lemma get_compiled_cases:
  "get_compiled_validator E s c = (if truthy s then validator_section E s c else (None, c))"
  by (simp add: get_compiled_validator_def validator_section_def cache_fill_def split: option.split)

lemma get_compiled_ok: "vcache.cache_ok E c \<Longrightarrow> vcache.cache_ok E (snd (get_compiled_validator E s c))"
  by (simp add: get_compiled_cases vcache.cache_ok_request)

lemma validate_data_ok: "vcache.cache_ok E c \<Longrightarrow> vcache.cache_ok E (snd (validate_data E d s c))"
  using get_compiled_ok [of E c s]
  by (cases "get_compiled_validator E s c") (auto simp: validate_data_def split: option.splits)

lemma get_compiled_value:
  assumes "keys_faithful E" and "vcache.cache_ok E c" and "truthy s"
  shows "fst (get_compiled_validator E s c) = compiled E s"
proof -
  from vcache.transparent [OF assms(2), of s] obtain s' where
    "schema_key E s' = schema_key E s" "fst (validator_section E s c) = compiled E s'" by blast
  moreover from this(1) assms(1) have "compiled E s' = compiled E s" unfolding keys_faithful_def by blast
  ultimately show ?thesis using assms(3) by (simp add: get_compiled_cases)
qed

text \<open>Two validations with the same answer but for the cache.\<close>

definition verdict_result :: "'b schema_env \<Rightarrow> pyval \<Rightarrow> verdict \<Rightarrow> bool \<times> string option" where
  "verdict_result E data r =
     (case r of
        Accepts \<Rightarrow> (True, None)
      | Violates m \<Rightarrow> (False, Some (translate_error (py_str (s_codec E)) m data))
      | Raises e \<Rightarrow> (False, Some (exn_str (py_str (s_codec E)) e)))"

lemma validate_data_value:
  assumes "keys_faithful E" and "vcache.cache_ok E c"
  shows "fst (validate_data E data s c) =
    (if \<not> truthy s then (True, None)
     else case compiled E s of
         None \<Rightarrow> (False, Some ''Failed to compile schema'')
       | Some v \<Rightarrow> verdict_result E data (v data))"
proof (cases "truthy s")
  case True
  then have "s \<noteq> PNone" by auto
  with True get_compiled_value [OF assms True] show ?thesis
    by (cases "get_compiled_validator E s c"; cases "compiled E s")
      (simp_all add: validate_data_def verdict_result_def split: verdict.split)
qed (simp add: validate_data_def)

subsection \<open>Properties\<close>

text \<open>
  However the threads interleave, after any sequence of executions of the locked section the cache
  of validators holds at most 1024 entries, with distinct keys.
\<close>
theorem validator_cache_bounded:
  "length (foldl (\<lambda>c s. snd (validator_section E s c)) [] schemas) \<le> 1024 \<and>
   distinct (map fst (foldl (\<lambda>c s. snd (validator_section E s c)) [] schemas))"
  using vcache.cache_ok_run [OF vcache.cache_ok_Nil, of E schemas, unfolded vcache.cache_ok_def]
  by (simp add: MAX_VALIDATOR_CACHE_SIZE_def)

text \<open>
  C30: When the cache key of a schema determines what it compiles to, validate_data answers after
  any history of the cache what a fresh compilation would answer.
\<close>
theorem validation_independent_of_cache:
  assumes "keys_faithful E"
  shows "fst (validate_data E data schema (foldl (\<lambda>c s. snd (validator_section E s c)) [] schemas)) =
    (if \<not> truthy schema then (True, None)
     else case compiled E schema of
         None \<Rightarrow> (False, Some ''Failed to compile schema'')
       | Some v \<Rightarrow> verdict_result E data (v data))"
  by (rule validate_data_value [OF assms vcache.cache_ok_run [OF vcache.cache_ok_Nil]])

lemma validate_params_value:
  assumes "keys_faithful E" and "vcache.cache_ok E c"
  shows "fst (validate_params E params schema c) =
    (if \<not> truthy (opt_schema schema) then (True, None)
     else case compiled E (opt_schema schema) of
         None \<Rightarrow> (False, Some ''Failed to compile schema'')
       | Some v \<Rightarrow> (case v (opt_schema params) of
           Accepts \<Rightarrow> (True, None)
         | r \<Rightarrow> (False, Some (translate_error (py_str (s_codec E)) (exn_message (py_str (s_codec E)) r) (opt_schema params)))))"
proof -
  let ?s = "opt_schema schema"
  obtain r c1 where g: "get_compiled_validator E ?s c = (r, c1)" by (cases "get_compiled_validator E ?s c")
  have ok1: "vcache.cache_ok E c1" using get_compiled_ok [OF assms(2), of ?s] g by simp
  have r: "r = (if truthy ?s then compiled E ?s else None)"
    using get_compiled_value [OF assms, of ?s] g by (cases "truthy ?s") (simp_all add: get_compiled_cases)
  show ?thesis
  proof (cases r)
    case None
    then have "validate_params E params schema c = validate_data E (opt_schema params) ?s c1"
      using g by (simp add: validate_params_def input_validator_def)
    with None r validate_data_value [OF assms(1) ok1, of "opt_schema params" ?s] show ?thesis
      by (cases "truthy ?s") simp_all
  next
    case (Some f)
    with r have "compiled E ?s = Some f" "truthy ?s" by (auto split: if_splits)
    with g Some show ?thesis
      by (simp add: validate_params_def input_validator_def)
  qed
qed

text \<open>
  validate_params accepts exactly when validate_data accepts the parameters against the input
  schema, and gives the same message unless the validator raised something other than a schema
  violation.
\<close>
theorem validate_params_agrees:
  fixes schemas :: "pyval list"
  assumes "keys_faithful E" and "c = foldl (\<lambda>c s. snd (validator_section E s c)) [] schemas"
  shows "fst (fst (validate_params E params schema c)) = fst (fst (validate_data E (opt_schema params) (opt_schema schema) c)) \<and>
    ((\<forall>v e. compiled E (opt_schema schema) = Some v \<longrightarrow> v (opt_schema params) \<noteq> Raises e) \<longrightarrow>
      fst (validate_params E params schema c) = fst (validate_data E (opt_schema params) (opt_schema schema) c))"
proof -
  have ok: "vcache.cache_ok E c" unfolding assms(2) by (rule vcache.cache_ok_run [OF vcache.cache_ok_Nil])
  show ?thesis
    unfolding validate_params_value [OF assms(1) ok] validate_data_value [OF assms(1) ok]
    by (auto simp: verdict_result_def split: option.split verdict.split)
qed

text \<open>An environment whose keys are faithful: the key is the schema itself up to key order.\<close>

definition plain_schema_env :: "pyval schema_env" where
  "plain_schema_env = \<lparr>s_codec = plain_codec, s_sorted_str = json_sort,
     s_compile = (\<lambda>v. case json_sort v of
         PDict d \<Rightarrow> if dget ''type'' d = Some (PStr ''object'')
           then Inr (\<lambda>x. if is_dict x then Accepts else Violates ''data must be object'') else Inr (\<lambda>x. Accepts)
       | _ \<Rightarrow> Inl (PyExn OtherError ''schema''))\<rparr>"

lemma plain_keys_faithful: "keys_faithful plain_schema_env"
proof -
  have "schema_key plain_schema_env s = json_sort s" for s
    by (simp add: schema_key_def plain_schema_env_def plain_codec_def)
  then show ?thesis by (simp add: keys_faithful_def compiled_def plain_schema_env_def)
qed

theorem validation_independent_of_cache_witness:
  "fst (validate_data plain_schema_env PNone (PDict [(''type'', PStr ''object'')])
      (foldl (\<lambda>c s. snd (validator_section plain_schema_env s c)) [] [PDict []])) =
    (False, Some ''Expected object, got null'')"
  unfolding validation_independent_of_cache [OF plain_keys_faithful]
  by (simp add: compiled_def plain_schema_env_def verdict_result_def dget_def translate_error_def Let_def
      bracket_indices_id match_enum_def match2_def match3_def after_prefix_def startswith_def first_line_def)

theorem validate_params_agrees_witness:
  "fst (fst (validate_params plain_schema_env None (Some [(''type'', PStr ''object'')])
      (foldl (\<lambda>c s. snd (validator_section plain_schema_env s c)) [] []))) =
    fst (fst (validate_data plain_schema_env (opt_schema None) (opt_schema (Some [(''type'', PStr ''object'')]))
      (foldl (\<lambda>c s. snd (validator_section plain_schema_env s c)) [] [])))"
  by (rule validate_params_agrees [OF plain_keys_faithful refl, THEN conjunct1])

text \<open>A hit does not renew an entry: the oldest one is dropped although it was just used.\<close>

lemma fifo_not_lru:
  assumes "length c = MAX_VALIDATOR_CACHE_SIZE" and "map_of c (schema_key E hot) = Some v" and "hd c = (schema_key E hot, v)"
    and "distinct (map fst c)" and "map_of c (schema_key E new) = None" and "compiled E new = Some v'"
  shows "map_of (snd (validator_section E new (snd (validator_section E hot c)))) (schema_key E hot) = None"
proof -
  have "c \<noteq> []" using assms(1) by (auto simp: MAX_VALIDATOR_CACHE_SIZE_def)
  then obtain r where c: "c = (schema_key E hot, v) # r" using assms(3) by (cases c) auto
  have "snd (validator_section E hot c) = c" by (simp add: vcache.hit_unchanged [OF assms(2)])
  moreover have "snd (validator_section E new c) = tl c @ [(schema_key E new, v')]"
    by (rule vcache.full_evicts_oldest [OF assms(1,5,6)])
  moreover have "schema_key E new \<noteq> schema_key E hot" using assms(2,5) by auto
  ultimately show ?thesis
    using assms(4) by (simp add: c map_add_def map_of_eq_None_iff split: option.split) force
qed

end
