(* ===== verification/Rxon_Schema.thy ===== *)
theory Rxon_Schema
  imports Rxon_Validation
begin

text \<open>
  \<^verbatim>\<open>src/rxon/schema.py\<close>, types to JSON schemas: \<open>extract_json_schema\<close> with its
  cache, \<open>_extract_json_schema_uncached\<close>, \<open>_is_optional\<close> and
  \<open>_python_type_to_json_schema\<close>.  An annotation is a \<open>pytype\<close>; what Python's introspection
  answers for a class (\<open>dataclasses.fields\<close>, \<open>get_type_hints\<close>, \<open>msgspec.structs.fields\<close>,
  the members of an enumeration, the attributes \<open>model_json_schema\<close> and \<open>schema\<close>) is a table
  \<open>classes\<close> from class names.  The interpreter's stack limit is the number of nested calls of
  \<open>_python_type_to_json_schema\<close> still available.
\<close>

subsection \<open>Annotations and classes\<close>

text \<open>A metadata object of \<open>Annotated\<close>: its class, its attribute \<open>is_header\<close>, its hashability.\<close>

datatype marker = Marker (marker_class: string) (marker_is_header: bool) (marker_hashable: bool)

definition Header :: marker where
  "Header = Marker ''Header'' True True"

datatype pytype =
    TAny
  | TNoneLit \<comment> \<open>the object \<open>None\<close>\<close>
  | TNoneType
  | TStr
  | TInt
  | TFloat
  | TBool
  | TUUID
  | TText string \<comment> \<open>an annotation that is a string\<close>
  | TSchema "pyval dict" \<comment> \<open>a dictionary, taken as a schema\<close>
  | TUnionType "pytype list" \<comment> \<open>\<open>X | Y\<close>\<close>
  | TUnion "pytype list" \<comment> \<open>\<open>Union[X, Y]\<close>, \<open>Optional[X]\<close>\<close>
  | TList
  | TTypingList \<comment> \<open>\<open>typing.List\<close> without argument\<close>
  | TListOf pytype
  | TDict
  | TDictOf pytype pytype
  | TAnnotated pytype "marker list"
  | TClass string
  | TEmpty \<comment> \<open>\<open>Parameter.empty\<close>\<close>
  | TOther bool \<comment> \<open>any other annotation without the two attributes, hashable or not\<close>

text \<open>\<open>tp in mapping\<close> hashes \<open>tp\<close>; the hash of an alias is that of its arguments.\<close>

fun thashable :: "pytype \<Rightarrow> bool" where
  "thashable (TSchema _) = False"
| "thashable (TUnionType ts) = list_all thashable ts"
| "thashable (TUnion ts) = list_all thashable ts"
| "thashable (TListOf t) = thashable t"
| "thashable (TDictOf k v) = (thashable k \<and> thashable v)"
| "thashable (TAnnotated t ms) = (thashable t \<and> list_all marker_hashable ms)"
| "thashable (TOther b) = b"
| "thashable _ = True"

text \<open>\<open>isinstance(tp, type)\<close>.\<close>

fun is_type :: "pytype \<Rightarrow> bool" where
  "is_type TAny = True"
| "is_type TNoneType = True"
| "is_type TStr = True"
| "is_type TInt = True"
| "is_type TFloat = True"
| "is_type TBool = True"
| "is_type TUUID = True"
| "is_type TList = True"
| "is_type TDict = True"
| "is_type (TClass _) = True"
| "is_type TEmpty = True"
| "is_type _ = False"

text \<open>A field: \<open>NODEFAULT\<close> or \<open>MISSING\<close> is the default \<open>None\<close>.\<close>

record field_info =
  fi_name :: string
  fi_type :: pytype
  fi_default :: "pyval option"
  fi_factory :: bool

datatype class_kind =
    StructClass "exn + field_info list" \<comment> \<open>\<open>msgspec.structs.fields\<close>\<close>
  | DataClass "exn + pytype dict" "field_info list" \<comment> \<open>\<open>get_type_hints\<close>, \<open>dataclasses.fields\<close>\<close>
  | EnumClass "pyval list" \<comment> \<open>the values of the members\<close>
  | PlainClass

text \<open>An attribute that may be absent, not callable, or called without arguments.\<close>

datatype hook = Absent | Uncallable | Callable "exn + pyval"

record class_info =
  ci_kind :: class_kind
  ci_model_json_schema :: hook
  ci_schema :: hook

type_synonym classes = "string \<Rightarrow> class_info"

subsection \<open>Computations over the cache of schemas\<close>

type_synonym tcache = "(pytype \<times> pyval) list"
type_synonym 'a ext = "tcache \<Rightarrow> (exn + 'a) \<times> tcache"

text \<open>\<open>try: return ... except Exception: return None\<close>.\<close>

definition none_on_error :: "pyval ext \<Rightarrow> pyval ext" where
  "none_on_error m c =
     (case m c of (Inl e, c1) \<Rightarrow> (if is_exception e then Inr PNone else Inl e, c1) | r \<Rightarrow> r)"

subsection \<open>The parts of an extraction\<close>

definition type_schema :: "string \<Rightarrow> pyval" where
  "type_schema s = PDict [(''type'', PStr s)]"

definition object_schema :: "pyval dict \<Rightarrow> string list \<Rightarrow> pyval" where
  "object_schema properties required = PDict
     [(''type'', PStr ''object''), (''properties'', PDict properties),
      (''required'', PList (map PStr required)), (''additionalProperties'', PBool False)]"

definition any_of :: "pyval list \<Rightarrow> pyval" where
  "any_of ss = PDict [(''anyOf'', PList ss)]"

definition array_schema :: "pyval \<Rightarrow> pyval" where
  "array_schema s = PDict [(''type'', PStr ''array''), (''items'', s)]"

definition enum_schema :: "pyval list \<Rightarrow> pyval" where
  "enum_schema vs = PDict [(''type'', PStr ''string''), (''enum'', PList vs)]"

text \<open>The dictionary \<open>mapping\<close>.\<close>

fun type_mapping :: "pytype \<Rightarrow> string option" where
  "type_mapping TStr = Some ''string''"
| "type_mapping TInt = Some ''integer''"
| "type_mapping TFloat = Some ''number''"
| "type_mapping TBool = Some ''boolean''"
| "type_mapping TNoneLit = Some ''null''"
| "type_mapping TNoneType = Some ''null''"
| "type_mapping TUUID = Some ''string''"
| "type_mapping (TText s) =
     map_of [(''str'', ''string''), (''int'', ''integer''), (''float'', ''number''), (''bool'', ''boolean'')] s"
| "type_mapping _ = None"

fun is_optional :: "pytype \<Rightarrow> bool" where
  "is_optional (TUnionType ts) = (TNoneType \<in> set ts)"
| "is_optional (TUnion ts) = (TNoneType \<in> set ts)"
| "is_optional _ = False"

fun enum_values :: "classes \<Rightarrow> pytype \<Rightarrow> pyval list option" where
  "enum_values CT (TClass k) = (case ci_kind (CT k) of EnumClass vs \<Rightarrow> Some vs | _ \<Rightarrow> None)"
| "enum_values CT _ = None"

text \<open>
  The object an attribute is looked up on: \<open>Annotated\<close> forwards attributes to what it
  annotates.  A call that raises an \<open>Exception\<close> is passed over; \<open>own_schema\<close> is the sequence
  of the two tries, with the value or the error that ends it.
\<close>

fun attr_owner :: "pytype \<Rightarrow> string option" where
  "attr_owner (TClass k) = Some k"
| "attr_owner (TAnnotated t _) = attr_owner t"
| "attr_owner _ = None"

fun try_hook :: "hook \<Rightarrow> (exn + pyval) option" where
  "try_hook (Callable (Inr v)) = Some (Inr v)"
| "try_hook (Callable (Inl e)) = (if is_exception e then None else Some (Inl e))"
| "try_hook _ = None"

definition own_schema :: "classes \<Rightarrow> pytype \<Rightarrow> (exn + pyval) option" where
  "own_schema CT t =
     (case attr_owner t of
        None \<Rightarrow> None
      | Some k \<Rightarrow> (case try_hook (ci_model_json_schema (CT k)) of
          Some r \<Rightarrow> Some r
        | None \<Rightarrow> try_hook (ci_schema (CT k))))"

text \<open>
  The loop over the fields of a Struct or a dataclass: for each field its name, its type and
  whether the code finds no default.
\<close>

type_synonym schema_field = "string \<times> pytype \<times> bool"

fun field_loop :: "(pytype \<Rightarrow> pyval ext) \<Rightarrow> schema_field list \<Rightarrow> pyval dict \<Rightarrow> string list \<Rightarrow> pyval ext" where
  "field_loop rec [] properties required = lift (Inr (object_schema properties required))"
| "field_loop rec ((name, t, bare) # fs) properties required =
     (if startswith name ''_'' then field_loop rec fs properties required
      else hbind (rec t) (\<lambda>s. field_loop rec fs (dset name s properties)
        (if bare \<and> \<not> is_optional t then required @ [name] else required)))"

definition struct_field :: "field_info \<Rightarrow> schema_field" where
  "struct_field f = (fi_name f, fi_type f, fi_default f = None)"

definition data_field :: "pytype dict \<Rightarrow> field_info \<Rightarrow> schema_field" where
  "data_field hints f =
     (fi_name f, case dget (fi_name f) hints of Some t \<Rightarrow> t | None \<Rightarrow> fi_type f,
      fi_default f = None \<and> \<not> fi_factory f)"

fun class_fields :: "classes \<Rightarrow> pytype \<Rightarrow> (exn + schema_field list) option" where
  "class_fields CT (TClass k) =
     (case ci_kind (CT k) of
        StructClass (Inl e) \<Rightarrow> Some (Inl e)
      | StructClass (Inr fs) \<Rightarrow> Some (Inr (map struct_field fs))
      | DataClass (Inr hints) fs \<Rightarrow> Some (Inr (map (data_field hints) fs))
      | DataClass (Inl e) fs \<Rightarrow> Some (if is_exception e then Inr (map (data_field []) fs) else Inl e)
      | _ \<Rightarrow> None)"
| "class_fields CT _ = None"

text \<open>The custom extractor: \<open>None\<close> as its answer means that it has none.\<close>

type_synonym extractor = "(pytype \<Rightarrow> exn + pyval) option"

definition custom_schema :: "extractor \<Rightarrow> pytype \<Rightarrow> (exn + pyval) option" where
  "custom_schema X t =
     (case X of None \<Rightarrow> None | Some f \<Rightarrow> (if f t = Inr PNone then None else Some (f t)))"

definition extract_uncached :: "(pytype \<Rightarrow> pyval ext) \<Rightarrow> classes \<Rightarrow> extractor \<Rightarrow> pytype \<Rightarrow> pyval ext" where
  "extract_uncached rec CT X t =
     (case custom_schema X t of
        Some r \<Rightarrow> lift r
      | None \<Rightarrow> (case own_schema CT t of
          Some r \<Rightarrow> lift r
        | None \<Rightarrow> (case class_fields CT t of
            Some (Inl e) \<Rightarrow> lift (Inl e)
          | Some (Inr fs) \<Rightarrow> field_loop rec fs [] []
          | None \<Rightarrow> none_on_error (rec t))))"

definition MAX_TYPE_SCHEMA_CACHE_SIZE :: nat where
  "MAX_TYPE_SCHEMA_CACHE_SIZE = 2048"

text \<open>The section under the lock, after an extraction.\<close>

definition type_section :: "pytype \<times> pyval \<Rightarrow> tcache \<Rightarrow> pyval option \<times> tcache" where
  "type_section entry c = cache_fill MAX_TYPE_SCHEMA_CACHE_SIZE (fst entry) (Some (snd entry)) c"

interpretation tcache: bounded_cache MAX_TYPE_SCHEMA_CACHE_SIZE fst "\<lambda>entry. Some (snd entry)" type_section
  by unfold_locales (simp_all add: MAX_TYPE_SCHEMA_CACHE_SIZE_def type_section_def)

definition extract_with :: "(pytype \<Rightarrow> pyval ext) \<Rightarrow> classes \<Rightarrow> extractor \<Rightarrow> pytype \<Rightarrow> pyval ext" where
  "extract_with rec CT X t c =
     (case t of
        TNoneLit \<Rightarrow> (Inr PNone, c)
      | TSchema d \<Rightarrow> (Inr (PDict d), c)
      | _ \<Rightarrow>
         (let use_cache = (X = None \<and> is_type t) in
          case (if use_cache then map_of c t else None) of
            Some cached \<Rightarrow> (Inr cached, c)
          | None \<Rightarrow> (case extract_uncached rec CT X t c of
              (Inl e, c1) \<Rightarrow> (Inl e, c1)
            | (Inr s, c1) \<Rightarrow>
                (Inr s, if use_cache \<and> s \<noteq> PNone then snd (type_section (t, s) c1) else c1))))"

subsection \<open>The recursion\<close>

definition stack_exhausted :: exn where
  "stack_exhausted = PyExn RecursionError ''maximum recursion depth exceeded''"

fun each_schema :: "(pytype \<Rightarrow> pyval ext) \<Rightarrow> pytype list \<Rightarrow> pyval list ext" where
  "each_schema rec [] = lift (Inr [])"
| "each_schema rec (t # ts) = hbind (rec t) (\<lambda>s. hbind (each_schema rec ts) (\<lambda>ss. lift (Inr (s # ss))))"

fun python_type_to_json_schema :: "nat \<Rightarrow> classes \<Rightarrow> pytype \<Rightarrow> pyval ext" where
  "python_type_to_json_schema 0 CT t c = (Inl stack_exhausted, c)"
| "python_type_to_json_schema (Suc n) CT t c =
     (if t = TAny then (Inr (PDict []), c)
      else if \<not> thashable t then (Inl unhashable, c)
      else case type_mapping t of
        Some s \<Rightarrow> (Inr (type_schema s), c)
      | None \<Rightarrow> (case enum_values CT t of
          Some vs \<Rightarrow> (Inr (enum_schema vs), c)
        | None \<Rightarrow> (case t of
            TUnionType ts \<Rightarrow>
              hbind (each_schema (\<lambda>a c'. python_type_to_json_schema n CT a c') ts) (\<lambda>ss. lift (Inr (any_of ss))) c
          | TUnion ts \<Rightarrow>
              hbind (each_schema (\<lambda>a c'. python_type_to_json_schema n CT a c') ts) (\<lambda>ss. lift (Inr (any_of ss))) c
          | TListOf a \<Rightarrow>
              hbind (\<lambda>c'. python_type_to_json_schema n CT a c') (\<lambda>s. lift (Inr (array_schema s))) c
          | TList \<Rightarrow>
              hbind (\<lambda>c'. python_type_to_json_schema n CT TAny c') (\<lambda>s. lift (Inr (array_schema s))) c
          | TTypingList \<Rightarrow>
              hbind (\<lambda>c'. python_type_to_json_schema n CT TAny c') (\<lambda>s. lift (Inr (array_schema s))) c
          | TDict \<Rightarrow> (Inr (type_schema ''object''), c)
          | TDictOf k v \<Rightarrow> (Inr (type_schema ''object''), c)
          | TAnnotated a ms \<Rightarrow> python_type_to_json_schema n CT a c
          | _ \<Rightarrow> (case own_schema CT t of
              Some r \<Rightarrow> (r, c)
            | None \<Rightarrow>
                if class_fields CT t \<noteq> None
                then hbind (extract_with (\<lambda>a c'. python_type_to_json_schema n CT a c') CT None t)
                       (\<lambda>nested. lift (Inr (if truthy nested then nested else type_schema ''object''))) c
                else (Inr (type_schema ''string''), c)))))"

declare python_type_to_json_schema.simps(2) [simp del]

definition extract_json_schema :: "nat \<Rightarrow> classes \<Rightarrow> extractor \<Rightarrow> pytype \<Rightarrow> pyval ext" where
  "extract_json_schema n CT = extract_with (python_type_to_json_schema n CT) CT"

end
