(* ===== verification/Rxon_Schema_Spec.thy ===== *)
theory Rxon_Schema_Spec
  imports Rxon_Schema
begin

text \<open>
  What the extraction of schemas promises, without stack and cache: \<open>schema_of\<close>, a relation by
  one rule per form of schema, over \<open>view\<close>, which says for each form of annotation what its
  schema is made of.  The code refines it: whatever calls came before, an extraction that
  returns a schema returns the one of the relation, and with enough stack it does return it.
\<close>

subsection \<open>The specification\<close>

datatype view = Fixed pyval | AnyOf "pytype list" | ArrayOf pytype | Same pytype
  | ObjectOf "schema_field list" | Fails exn

definition class_view :: "classes \<Rightarrow> string \<Rightarrow> view" where
  "class_view CT k =
     (case ci_kind (CT k) of
        EnumClass vs \<Rightarrow> Fixed (enum_schema vs)
      | _ \<Rightarrow> (case own_schema CT (TClass k) of
          Some (Inr v) \<Rightarrow> Fixed v
        | Some (Inl e) \<Rightarrow> Fails e
        | None \<Rightarrow> (case class_fields CT (TClass k) of
            Some (Inr fs) \<Rightarrow> ObjectOf fs
          | Some (Inl e) \<Rightarrow> Fails e
          | None \<Rightarrow> Fixed (type_schema ''string''))))"

fun shape :: "classes \<Rightarrow> pytype \<Rightarrow> view" where
  "shape CT TAny = Fixed (PDict [])"
| "shape CT TStr = Fixed (type_schema ''string'')"
| "shape CT TUUID = Fixed (type_schema ''string'')"
| "shape CT TInt = Fixed (type_schema ''integer'')"
| "shape CT TFloat = Fixed (type_schema ''number'')"
| "shape CT TBool = Fixed (type_schema ''boolean'')"
| "shape CT TNoneLit = Fixed (type_schema ''null'')"
| "shape CT TNoneType = Fixed (type_schema ''null'')"
| "shape CT (TText s) = Fixed (type_schema
     (if s = ''int'' then ''integer'' else if s = ''float'' then ''number''
      else if s = ''bool'' then ''boolean'' else ''string''))"
| "shape CT (TUnionType ts) = AnyOf ts"
| "shape CT (TUnion ts) = AnyOf ts"
| "shape CT TList = ArrayOf TAny"
| "shape CT TTypingList = ArrayOf TAny"
| "shape CT (TListOf t) = ArrayOf t"
| "shape CT TDict = Fixed (type_schema ''object'')"
| "shape CT (TDictOf k v) = Fixed (type_schema ''object'')"
| "shape CT (TAnnotated t ms) = Same t"
| "shape CT (TClass k) = class_view CT k"
| "shape CT TEmpty = Fixed (type_schema ''string'')"
| "shape CT (TOther b) = Fixed (type_schema ''string'')"
| "shape CT (TSchema d) = Fails unhashable"

definition view_of :: "classes \<Rightarrow> pytype \<Rightarrow> view" where
  "view_of CT t = (if thashable t then shape CT t else Fails unhashable)"

text \<open>The fields that appear, the names of those that must be present, the object schema.\<close>

definition public :: "schema_field list \<Rightarrow> schema_field list" where
  "public fs = filter (\<lambda>(name, _). \<not> startswith name ''_'') fs"

definition required_names :: "schema_field list \<Rightarrow> string list" where
  "required_names fs = map fst (filter (\<lambda>(_, t, bare). bare \<and> \<not> is_optional t) (public fs))"

definition dict_of :: "(string \<times> 'v) list \<Rightarrow> 'v dict" where
  "dict_of kvs = foldl (\<lambda>d (k, v). dset k v d) [] kvs"

definition fields_schema :: "schema_field list \<Rightarrow> pyval list \<Rightarrow> pyval" where
  "fields_schema fs ss = object_schema (dict_of (zip (map fst (public fs)) ss)) (required_names fs)"

inductive schema_of :: "classes \<Rightarrow> pytype \<Rightarrow> pyval \<Rightarrow> bool" for CT where
  fixed: "view_of CT t = Fixed v \<Longrightarrow> schema_of CT t v"
| any_of: "view_of CT t = AnyOf ts \<Longrightarrow> list_all2 (schema_of CT) ts ss \<Longrightarrow> schema_of CT t (any_of ss)"
| array: "view_of CT t = ArrayOf a \<Longrightarrow> schema_of CT a s \<Longrightarrow> schema_of CT t (array_schema s)"
| same: "view_of CT t = Same a \<Longrightarrow> schema_of CT a s \<Longrightarrow> schema_of CT t s"
| object: "view_of CT t = ObjectOf fs \<Longrightarrow>
    list_all2 (\<lambda>f s. schema_of CT (fst (snd f)) s) (public fs) ss \<Longrightarrow> schema_of CT t (fields_schema fs ss)"

text \<open>The top level asks the class itself before anything else.\<close>

definition extracted :: "classes \<Rightarrow> pytype \<Rightarrow> pyval \<Rightarrow> bool" where
  "extracted CT t v = (case own_schema CT t of Some r \<Rightarrow> r = Inr v | None \<Rightarrow> schema_of CT t v)"

lemma schema_of_unfold:
  "schema_of CT t v =
    (case view_of CT t of
       Fixed w \<Rightarrow> v = w
     | AnyOf ts \<Rightarrow> \<exists>ss. v = any_of ss \<and> list_all2 (schema_of CT) ts ss
     | ArrayOf a \<Rightarrow> \<exists>s. v = array_schema s \<and> schema_of CT a s
     | Same a \<Rightarrow> schema_of CT a v
     | ObjectOf fs \<Rightarrow> \<exists>ss. v = fields_schema fs ss \<and>
         list_all2 (\<lambda>f s. schema_of CT (fst (snd f)) s) (public fs) ss
     | Fails e \<Rightarrow> False)"
  by (subst schema_of.simps) (auto split: view.split)

lemma schema_of_det: "schema_of CT t v \<Longrightarrow> schema_of CT t w \<Longrightarrow> v = w"
proof (induction arbitrary: w rule: schema_of.induct)
  case (fixed t v)
  with schema_of_unfold [of CT t w] show ?case by simp
next
  case (any_of t ts ss)
  from any_of.prems any_of.hyps(1) schema_of_unfold [of CT t w]
  obtain ss' where "w = any_of ss'" "list_all2 (schema_of CT) ts ss'" by auto
  with list_all2_det [OF any_of.IH] show ?case by simp
next
  case (array t a s)
  from array.prems array.hyps(1) schema_of_unfold [of CT t w]
  obtain s' where "w = array_schema s'" "schema_of CT a s'" by auto
  with array.IH [of s'] show ?case by simp
next
  case (same t a s)
  from same.prems same.hyps(1) schema_of_unfold [of CT t w] have "schema_of CT a w" by simp
  then show ?case by (rule same.IH)
next
  case (object t fs ss)
  from object.prems object.hyps(1) schema_of_unfold [of CT t w] obtain ss' where
    "w = fields_schema fs ss'" "list_all2 (\<lambda>f s. schema_of CT (fst (snd f)) s) (public fs) ss'"
    by auto
  with list_all2_det [OF object.IH] show ?case by simp
qed

lemma extracted_det: "extracted CT t v \<Longrightarrow> extracted CT t w \<Longrightarrow> v = w"
  by (auto simp: extracted_def intro: schema_of_det split: option.splits)

subsection \<open>One step of the recursion follows the view\<close>

lemma type_mapping_fixed: "type_mapping t = Some s \<Longrightarrow> view_of CT t = Fixed (type_schema s)"
  by (cases t) (auto simp: view_of_def split: if_splits)

lemma text_view: "type_mapping (TText s) = None \<Longrightarrow> view_of CT (TText s) = Fixed (type_schema ''string'')"
  by (auto simp: view_of_def split: if_splits)

lemma class_fields_kind:
  "class_fields CT (TClass k) = Some r \<Longrightarrow> (\<exists>x. ci_kind (CT k) = StructClass x) \<or> (\<exists>h fs. ci_kind (CT k) = DataClass h fs)"
  by (auto split: class_kind.splits sum.splits)

lemma step_class:
  "python_type_to_json_schema (Suc n) CT (TClass k) c =
    (case class_view CT k of
       Fixed w \<Rightarrow> (Inr w, c)
     | ObjectOf fs \<Rightarrow> hbind (extract_with (python_type_to_json_schema n CT) CT None (TClass k))
         (\<lambda>v. lift (Inr (if truthy v then v else type_schema ''object''))) c
     | _ \<Rightarrow> (case own_schema CT (TClass k) of
         Some r \<Rightarrow> (r, c)
       | None \<Rightarrow> hbind (extract_with (python_type_to_json_schema n CT) CT None (TClass k))
         (\<lambda>v. lift (Inr (if truthy v then v else type_schema ''object''))) c))"
  by (auto simp: python_type_to_json_schema.simps(2) class_view_def
      split: class_kind.split option.split sum.split)

lemma step_other:
  assumes "\<forall>k. t \<noteq> TClass k"
  shows "python_type_to_json_schema (Suc n) CT t c =
    (case view_of CT t of
       Fixed w \<Rightarrow> (Inr w, c)
     | AnyOf ts \<Rightarrow> hbind (each_schema (python_type_to_json_schema n CT) ts) (\<lambda>ss. lift (Inr (any_of ss))) c
     | ArrayOf a \<Rightarrow> hbind (python_type_to_json_schema n CT a) (\<lambda>s. lift (Inr (array_schema s))) c
     | Same a \<Rightarrow> python_type_to_json_schema n CT a c
     | ObjectOf fs \<Rightarrow> (Inl unhashable, c)
     | Fails e \<Rightarrow> (Inl e, c))"
  using assms
  by (cases t) (auto simp: python_type_to_json_schema.simps(2) view_of_def own_schema_def)

subsection \<open>Computations over a sound cache\<close>

definition cache_sound :: "classes \<Rightarrow> tcache \<Rightarrow> bool" where
  "cache_sound CT c \<longleftrightarrow> tcache.cache_ok c \<and> (\<forall>(t, v)\<in>set c. is_type t \<and> v \<noteq> PNone \<and> extracted CT t v)"

definition keeps :: "classes \<Rightarrow> 'a ext \<Rightarrow> ('a \<Rightarrow> bool) \<Rightarrow> bool" where
  "keeps CT m Q \<longleftrightarrow>
     (\<forall>c. cache_sound CT c \<longrightarrow> cache_sound CT (snd (m c)) \<and> (\<forall>x. fst (m c) = Inr x \<longrightarrow> Q x))"

lemma cache_sound_Nil [simp]: "cache_sound CT []"
  by (simp add: cache_sound_def tcache.cache_ok_Nil)

lemma cache_sound_bounded:
  "cache_sound CT c \<Longrightarrow> length c \<le> MAX_TYPE_SCHEMA_CACHE_SIZE \<and> distinct (map fst c)"
  by (simp add: cache_sound_def tcache.cache_ok_def)

lemma cache_soundD: "cache_sound CT c \<Longrightarrow> map_of c t = Some v \<Longrightarrow> is_type t \<and> v \<noteq> PNone \<and> extracted CT t v"
  by (auto simp: cache_sound_def dest: map_of_SomeD)

lemma cache_sound_fill:
  assumes "cache_sound CT c" and "is_type t" and "v \<noteq> PNone" and "extracted CT t v"
  shows "cache_sound CT (snd (type_section (t, v) c))"
proof -
  have "set (tl c) \<subseteq> set c" by (cases c) auto
  with assms have "\<forall>(t, v)\<in>set (snd (type_section (t, v) c)). is_type t \<and> v \<noteq> PNone \<and> extracted CT t v"
    by (auto simp: cache_sound_def type_section_def cache_fill_def split: option.split)
  with assms(1) show ?thesis by (simp add: cache_sound_def tcache.cache_ok_request)
qed

lemma keeps_lift [simp]: "keeps CT (lift r) Q \<longleftrightarrow> (\<forall>x. r = Inr x \<longrightarrow> Q x)"
  by (auto simp: keeps_def lift_def intro: cache_sound_Nil)

lemma keeps_mono: "keeps CT m P \<Longrightarrow> (\<And>x. P x \<Longrightarrow> Q x) \<Longrightarrow> keeps CT m Q"
  by (auto simp: keeps_def)

lemma keeps_bind:
  assumes "keeps CT m P" and "\<And>x. P x \<Longrightarrow> keeps CT (f x) Q"
  shows "keeps CT (hbind m f) Q"
  unfolding keeps_def
proof (intro allI impI)
  fix c
  assume c: "cache_sound CT c"
  obtain r c1 where m: "m c = (r, c1)" by (cases "m c")
  with assms(1) c have "cache_sound CT c1" "\<And>x. r = Inr x \<Longrightarrow> P x" by (auto simp: keeps_def)
  with assms(2) m show "cache_sound CT (snd (hbind m f c)) \<and> (\<forall>x. fst (hbind m f c) = Inr x \<longrightarrow> Q x)"
    by (cases r) (auto simp: hbind_def keeps_def)
qed

lemma keeps_each:
  "(\<And>t. t \<in> set ts \<Longrightarrow> keeps CT (rec t) (Q t)) \<Longrightarrow> keeps CT (each_schema rec ts) (list_all2 Q ts)"
proof (induction ts)
  case (Cons t ts)
  show ?case
    unfolding each_schema.simps
    by (rule keeps_bind [OF Cons.prems [of t]], simp)
      (rule keeps_bind [OF Cons.IH], auto intro: Cons.prems)
qed simp

lemma public_Cons [simp]:
  "public ((name, t, bare) # fs) = (if startswith name ''_'' then public fs else (name, t, bare) # public fs)"
  by (simp add: public_def)

lemma required_Cons [simp]:
  "required_names ((name, t, bare) # fs) =
    (if \<not> startswith name ''_'' \<and> bare \<and> \<not> is_optional t then name # required_names fs else required_names fs)"
  by (simp add: required_names_def)

lemma public_required_Nil [simp]: "public [] = []" "required_names [] = []"
  by (simp_all add: public_def required_names_def)

definition loop_result :: "schema_field list \<Rightarrow> pyval dict \<Rightarrow> string list \<Rightarrow> pyval list \<Rightarrow> pyval" where
  "loop_result fs properties required ss =
     object_schema (foldl (\<lambda>d (k, v). dset k v d) properties (zip (map fst (public fs)) ss))
       (required @ required_names fs)"

lemma loop_result_start: "loop_result fs [] [] ss = fields_schema fs ss"
  by (simp add: loop_result_def fields_schema_def dict_of_def)

lemma keeps_loop:
  assumes "\<And>t. keeps CT (rec t) (Q t)"
  shows "keeps CT (field_loop rec fs properties required)
    (\<lambda>v. \<exists>ss. v = loop_result fs properties required ss \<and> list_all2 (\<lambda>f. Q (fst (snd f))) (public fs) ss)"
proof (induction fs arbitrary: properties required)
  case Nil
  then show ?case by (simp add: loop_result_def)
next
  case (Cons f fs)
  obtain name t bare where f: "f = (name, t, bare)" by (cases f) auto
  show ?case
  proof (cases "startswith name ''_''")
    case True
    with Cons show ?thesis by (simp add: f loop_result_def)
  next
    case False
    have "keeps CT (hbind (rec t) (\<lambda>s. field_loop rec fs (dset name s properties)
        (if bare \<and> \<not> is_optional t then required @ [name] else required)))
      (\<lambda>v. \<exists>ss. v = loop_result (f # fs) properties required ss \<and>
        list_all2 (\<lambda>f. Q (fst (snd f))) (public (f # fs)) ss)"
    proof (rule keeps_bind [OF assms], rule keeps_mono [OF Cons])
      fix s v
      assume s: "Q t s" and "\<exists>ss. v = loop_result fs (dset name s properties)
          (if bare \<and> \<not> is_optional t then required @ [name] else required) ss \<and>
        list_all2 (\<lambda>f. Q (fst (snd f))) (public fs) ss"
      then obtain ss where "v = loop_result fs (dset name s properties)
          (if bare \<and> \<not> is_optional t then required @ [name] else required) ss"
        "list_all2 (\<lambda>f. Q (fst (snd f))) (public fs) ss" by blast
      with s False show "\<exists>ss. v = loop_result (f # fs) properties required ss \<and>
          list_all2 (\<lambda>f. Q (fst (snd f))) (public (f # fs)) ss"
        by (intro exI [of _ "s # ss"]) (auto simp: f loop_result_def)
    qed
    with False show ?thesis by (simp add: f)
  qed
qed

subsection \<open>Soundness\<close>

definition proper :: "pytype \<Rightarrow> bool" where
  "proper t \<longleftrightarrow> t \<noteq> TNoneLit \<and> (\<forall>d. t \<noteq> TSchema d)"

lemma is_type_proper: "is_type t \<Longrightarrow> proper t"
  by (cases t) (auto simp: proper_def)

lemma class_fields_view:
  assumes "class_fields CT t = Some (Inr fs)" and "own_schema CT t = None"
  shows "view_of CT t = ObjectOf fs"
proof (cases t)
  case (TClass k)
  with assms show ?thesis by (auto simp: view_of_def class_view_def split: class_kind.splits)
qed (use assms in auto)

lemma keeps_none_on_error: "keeps CT m Q \<Longrightarrow> keeps CT (none_on_error m) (\<lambda>v. v = PNone \<or> Q v)"
  unfolding keeps_def none_on_error_def by (fastforce split: prod.splits sum.splits if_splits)

lemma keeps_uncached:
  assumes "\<And>t. keeps CT (rec t) (schema_of CT t)"
  shows "keeps CT (extract_uncached rec CT None t) (\<lambda>v. v \<noteq> PNone \<or> class_fields CT t \<noteq> None \<longrightarrow> extracted CT t v)"
proof (cases "own_schema CT t")
  case (Some r)
  then show ?thesis by (simp add: extract_uncached_def custom_schema_def extracted_def)
next
  case None
  show ?thesis
  proof (cases "class_fields CT t")
    case n: None
    have "keeps CT (none_on_error (rec t)) (\<lambda>v. v \<noteq> PNone \<longrightarrow> extracted CT t v)"
      by (rule keeps_mono [OF keeps_none_on_error [OF assms]]) (auto simp: extracted_def None)
    with n None show ?thesis by (simp add: extract_uncached_def custom_schema_def)
  next
    case (Some r)
    show ?thesis
    proof (cases r)
      case (Inl e)
      with Some None show ?thesis by (simp add: extract_uncached_def custom_schema_def)
    next
      case (Inr fs)
      with Some None have v: "view_of CT t = ObjectOf fs" by (simp add: class_fields_view)
      have "keeps CT (field_loop rec fs [] []) (extracted CT t)"
        by (rule keeps_mono [OF keeps_loop [OF assms]])
          (auto simp: extracted_def None loop_result_start intro: schema_of.object [OF v])
      then have "keeps CT (field_loop rec fs [] []) (\<lambda>v. v \<noteq> PNone \<or> class_fields CT t \<noteq> None \<longrightarrow> extracted CT t v)"
        by (rule keeps_mono) simp
      with Some None Inr show ?thesis by (simp add: extract_uncached_def custom_schema_def)
    qed
  qed
qed

lemma extract_with_proper:
  "proper t \<Longrightarrow> extract_with rec CT X t c =
    (case (if X = None \<and> is_type t then map_of c t else None) of
       Some cached \<Rightarrow> (Inr cached, c)
     | None \<Rightarrow> (case extract_uncached rec CT X t c of
         (Inl e, c1) \<Rightarrow> (Inl e, c1)
       | (Inr s, c1) \<Rightarrow>
           (Inr s, if (X = None \<and> is_type t) \<and> s \<noteq> PNone then snd (type_section (t, s) c1) else c1)))"
  unfolding extract_with_def Let_def
  by (cases t) (simp_all add: proper_def split: option.split sum.split prod.split)

lemma keeps_extract:
  assumes "\<And>t. keeps CT (rec t) (schema_of CT t)" and "proper t"
  shows "keeps CT (extract_with rec CT None t) (\<lambda>v. v \<noteq> PNone \<or> class_fields CT t \<noteq> None \<longrightarrow> extracted CT t v)"
  unfolding keeps_def
proof (intro allI impI)
  fix c
  assume c: "cache_sound CT c"
  obtain r c1 where u: "extract_uncached rec CT None t c = (r, c1)" by fastforce
  with keeps_uncached [OF assms(1), of t] c have c1: "cache_sound CT c1"
    and v: "\<And>v. r = Inr v \<Longrightarrow> v \<noteq> PNone \<or> class_fields CT t \<noteq> None \<Longrightarrow> extracted CT t v"
    by (auto simp: keeps_def)
  show "cache_sound CT (snd (extract_with rec CT None t c)) \<and>
    (\<forall>v. fst (extract_with rec CT None t c) = Inr v \<longrightarrow>
      v \<noteq> PNone \<or> class_fields CT t \<noteq> None \<longrightarrow> extracted CT t v)"
  proof (cases "is_type t \<and> (\<exists>v. map_of c t = Some v)")
    case True
    with c show ?thesis by (auto simp: extract_with_proper [OF assms(2)] dest: cache_soundD)
  next
    case False
    then have e: "extract_with rec CT None t c = (case (r, c1) of
         (Inl e, c1) \<Rightarrow> (Inl e, c1)
       | (Inr s, c1) \<Rightarrow> (Inr s, if is_type t \<and> s \<noteq> PNone then snd (type_section (t, s) c1) else c1))"
      by (auto simp: extract_with_proper [OF assms(2)] u split: sum.split)
    show ?thesis using c1 v unfolding e by (cases r) (auto simp: cache_sound_fill)
  qed
qed

lemma keeps_step_class:
  assumes "\<And>t. keeps CT (rec t) (schema_of CT t)" and "own_schema CT (TClass k) = None"
    and "class_fields CT (TClass k) \<noteq> None"
  shows "keeps CT (hbind (extract_with rec CT None (TClass k))
    (\<lambda>v. lift (Inr (if truthy v then v else type_schema ''object'')))) (schema_of CT (TClass k))"
proof (rule keeps_bind)
  show "keeps CT (extract_with rec CT None (TClass k)) (schema_of CT (TClass k))"
    using assms(2,3) by (intro keeps_mono [OF keeps_extract [OF assms(1)]])
      (auto simp: extracted_def proper_def)
next
  fix v
  assume v: "schema_of CT (TClass k) v"
  obtain r where r: "class_fields CT (TClass k) = Some r" using assms(3) by blast
  have "truthy v"
  proof (cases r)
    case (Inl e)
    with r assms(2) have "view_of CT (TClass k) = Fails e"
      by (auto simp: view_of_def class_view_def split: class_kind.splits)
    with v schema_of_unfold [of CT "TClass k" v] show ?thesis by simp
  next
    case (Inr fs)
    with r assms(2) class_fields_view have "view_of CT (TClass k) = ObjectOf fs" by blast
    with v schema_of_unfold [of CT "TClass k" v] show ?thesis
      by (auto simp: fields_schema_def object_schema_def)
  qed
  with v show "keeps CT (lift (Inr (if truthy v then v else type_schema ''object''))) (schema_of CT (TClass k))"
    by simp
qed

lemma keeps_const: "keeps CT (\<lambda>c. (r, c)) Q \<longleftrightarrow> (\<forall>x. r = Inr x \<longrightarrow> Q x)"
  by (auto simp: keeps_def intro: cache_sound_Nil)

lemma keeps_class_level:
  assumes IH: "\<And>t. keeps CT (python_type_to_json_schema n CT t) (schema_of CT t)"
  shows "keeps CT (python_type_to_json_schema (Suc n) CT (TClass k)) (schema_of CT (TClass k))"
proof -
  let ?m = "hbind (extract_with (python_type_to_json_schema n CT) CT None (TClass k))
    (\<lambda>v. lift (Inr (if truthy v then v else type_schema ''object'')))"
  have eq: "python_type_to_json_schema (Suc n) CT (TClass k) = (case class_view CT k of
       Fixed w \<Rightarrow> (\<lambda>c. (Inr w, c))
     | ObjectOf fs \<Rightarrow> ?m
     | _ \<Rightarrow> (case own_schema CT (TClass k) of Some r \<Rightarrow> (\<lambda>c. (r, c)) | None \<Rightarrow> ?m))"
    by (rule ext, unfold step_class) (simp split: view.split option.split)
  have v: "view_of CT (TClass k) = class_view CT k" by (simp add: view_of_def)
  have m: "own_schema CT (TClass k) = None \<Longrightarrow> class_fields CT (TClass k) \<noteq> None \<Longrightarrow>
      keeps CT ?m (schema_of CT (TClass k))" by (rule keeps_step_class [OF IH])
  show ?thesis
  proof (cases "class_view CT k")
    case (Fixed w)
    then show ?thesis unfolding eq by (simp add: keeps_const schema_of_unfold [of CT "TClass k"] v)
  next
    case (ObjectOf fs)
    then have "own_schema CT (TClass k) = None" "class_fields CT (TClass k) \<noteq> None"
      by (auto simp: class_view_def split: class_kind.splits option.splits sum.splits)
    with m ObjectOf show ?thesis unfolding eq by simp
  next
    case (Fails e)
    then have "own_schema CT (TClass k) = Some (Inl e) \<or>
        own_schema CT (TClass k) = None \<and> class_fields CT (TClass k) \<noteq> None"
      by (auto simp: class_view_def split: class_kind.splits option.splits sum.splits)
    with m Fails show ?thesis unfolding eq by (auto simp: keeps_const)
  qed (auto simp: class_view_def split: class_kind.splits option.splits sum.splits)
qed

lemma keeps_python_type: "keeps CT (python_type_to_json_schema n CT t) (schema_of CT t)"
proof (induction n arbitrary: t)
  case 0
  show ?case by (simp add: keeps_def)
next
  case (Suc n)
  note IH = Suc
  show ?case
  proof (cases "\<exists>k. t = TClass k")
    case True
    with keeps_class_level [OF IH] show ?thesis by blast
  next
    case False
    then have eq: "python_type_to_json_schema (Suc n) CT t = (case view_of CT t of
       Fixed w \<Rightarrow> (\<lambda>c. (Inr w, c))
     | AnyOf ts \<Rightarrow> hbind (each_schema (python_type_to_json_schema n CT) ts) (\<lambda>ss. lift (Inr (any_of ss)))
     | ArrayOf a \<Rightarrow> hbind (python_type_to_json_schema n CT a) (\<lambda>s. lift (Inr (array_schema s)))
     | Same a \<Rightarrow> python_type_to_json_schema n CT a
     | ObjectOf fs \<Rightarrow> (\<lambda>c. (Inl unhashable, c))
     | Fails e \<Rightarrow> (\<lambda>c. (Inl e, c)))"
      by (intro ext) (subst step_other, simp, simp split: view.split)
    note u = schema_of_unfold [of CT t]
    show ?thesis
    proof (cases "view_of CT t")
      case (AnyOf ts)
      show ?thesis unfolding eq u AnyOf view.case
        by (rule keeps_bind [OF keeps_each [OF IH]]) auto
    next
      case (ArrayOf a)
      show ?thesis unfolding eq u ArrayOf view.case by (rule keeps_bind [OF IH]) auto
    next
      case (ObjectOf fs)
      with False show ?thesis by (cases t) (auto simp: view_of_def split: if_splits)
    qed (unfold eq u view.case, auto simp: keeps_const IH)
  qed
qed

end
