(* ===== verification/Rxon_Messages.thy ===== *)
theory Rxon_Messages
  imports Rxon_Schema
begin

text \<open>
  The message classes of \<^verbatim>\<open>src/rxon/models.py\<close> as msgspec's introspection shows them:
  the fields of each Struct in order, with their annotations and defaults, and the class table
  they form; the methods of \<open>SkillInfo\<close> besides \<open>matches\<close>.
\<close>

subsection \<open>Fields\<close>

definition fld :: "string \<Rightarrow> pytype \<Rightarrow> pyval option \<Rightarrow> field_info" where
  "fld name t d = \<lparr>fi_name = name, fi_type = t, fi_default = d, fi_factory = False\<rparr>"

text \<open>\<open>X | None\<close>.\<close>

definition opt :: "pytype \<Rightarrow> pytype" where
  "opt t = TUnionType [t, TNoneType]"

definition HardwareDevice_fields :: "field_info list" where
  "HardwareDevice_fields =
     [fld ''type'' TStr None,
      fld ''model'' (opt TStr) (Some PNone),
      fld ''id'' (opt TStr) (Some PNone),
      fld ''properties'' (opt (TDictOf TStr TAny)) (Some PNone),
      fld ''metrics'' (opt (TDictOf TStr TAny)) (Some PNone)]"

definition DeviceUsage_fields :: "field_info list" where
  "DeviceUsage_fields =
     [fld ''unit_id'' TStr None,
      fld ''load_percent'' TFloat None,
      fld ''metrics'' (opt (TDictOf TStr TAny)) (Some PNone)]"

definition ResourcesUsage_fields :: "field_info list" where
  "ResourcesUsage_fields =
     [fld ''cpu_load_percent'' TFloat (Some (PFloat (Fin 0))),
      fld ''ram_used_gb'' TFloat (Some (PFloat (Fin 0))),
      fld ''devices_usage'' (opt (TListOf (TClass ''DeviceUsage''))) (Some PNone)]"

definition Resources_fields :: "field_info list" where
  "Resources_fields =
     [fld ''devices'' (opt (TListOf (TClass ''HardwareDevice''))) (Some PNone),
      fld ''properties'' (opt (TDictOf TStr TAny)) (Some PNone)]"

definition InstalledArtifact_fields :: "field_info list" where
  "InstalledArtifact_fields =
     [fld ''name'' TStr None,
      fld ''version'' TStr (Some (PStr ''unknown'')),
      fld ''type'' (opt TStr) (Some PNone),
      fld ''properties'' (opt (TDictOf TStr TAny)) (Some PNone)]"

definition SkillInfo_fields :: "field_info list" where
  "SkillInfo_fields =
     [fld ''name'' TStr None,
      fld ''type'' (opt TStr) (Some PNone),
      fld ''description'' (opt TStr) (Some PNone),
      fld ''version'' (opt TStr) (Some PNone),
      fld ''input_schema'' (opt (TDictOf TStr TAny)) (Some PNone),
      fld ''output_schema'' (opt (TDictOf TStr TAny)) (Some PNone),
      fld ''events_schema'' (opt (TDictOf TStr (TDictOf TStr TAny))) (Some PNone),
      fld ''output_statuses'' (opt (TListOf TStr)) (Some PNone),
      fld ''schema_dialect'' TStr (Some (PStr ''json-schema'')),
      fld ''properties'' (opt (TDictOf TStr TAny)) (Some PNone),
      fld ''risk'' TStr (Some (PStr ''low'')),
      fld ''permissions'' (opt (TListOf TStr)) (Some PNone)]"

definition ExecutionReceipt_fields :: "field_info list" where
  "ExecutionReceipt_fields =
     [fld ''correlation_id'' TStr None,
      fld ''step'' TStr None,
      fld ''candidates'' (TListOf TStr) None,
      fld ''chosen'' TStr None,
      fld ''fallback_triggered'' TBool (Some (PBool False)),
      fld ''duration_ms'' TInt (Some (PInt 0)),
      fld ''error_message'' (opt TStr) (Some PNone),
      fld ''receipt_hash'' (opt TStr) (Some PNone),
      fld ''decider_name'' (opt TStr) (Some PNone),
      fld ''fallback'' (opt TStr) (Some PNone),
      fld ''reason'' (opt TStr) (Some PNone),
      fld ''context_snapshot'' (opt (TDictOf TStr TAny)) (Some PNone),
      fld ''job_id'' (opt TStr) (Some PNone),
      fld ''error'' (opt TStr) (Some PNone)]"

definition SecurityContext_fields :: "field_info list" where
  "SecurityContext_fields =
     [fld ''signature'' (opt TStr) (Some PNone),
      fld ''signer_id'' (opt TStr) (Some PNone),
      fld ''identity_chain'' (opt (TListOf TStr)) (Some PNone),
      fld ''metadata'' (opt (TDictOf TStr TAny)) (Some PNone)]"

definition WorkerCapabilities_fields :: "field_info list" where
  "WorkerCapabilities_fields =
     [fld ''hostname'' TStr (Some (PStr ''unknown'')),
      fld ''ip_address'' TStr (Some (PStr ''0.0.0.0'')),
      fld ''cost_per_skill'' (opt (TDictOf TStr TFloat)) (Some PNone),
      fld ''s3_config_hash'' (opt TStr) (Some PNone),
      fld ''extra'' (opt (TDictOf TStr TAny)) (Some PNone)]"

definition FileMetadata_fields :: "field_info list" where
  "FileMetadata_fields =
     [fld ''uri'' TStr None,
      fld ''size'' TInt (Some (PInt 0)),
      fld ''etag'' (opt TStr) (Some PNone),
      fld ''metadata'' (opt (TDictOf TStr TAny)) (Some PNone)]"

definition WorkerRegistration_fields :: "field_info list" where
  "WorkerRegistration_fields =
     [fld ''worker_id'' TStr None,
      fld ''worker_type'' TStr (Some (PStr ''generic'')),
      fld ''supported_skills'' (opt (TListOf (TClass ''SkillInfo''))) (Some PNone),
      fld ''available_skills'' (opt (TListOf TStr)) (Some PNone),
      fld ''hot_skills'' (opt (TListOf TStr)) (Some PNone),
      fld ''resources'' (opt (TClass ''Resources'')) (Some PNone),
      fld ''installed_software'' (opt (TDictOf TStr TStr)) (Some PNone),
      fld ''installed_artifacts'' (opt (TListOf (TClass ''InstalledArtifact''))) (Some PNone),
      fld ''capabilities'' (opt (TClass ''WorkerCapabilities'')) (Some PNone),
      fld ''skills_hash'' (opt TStr) (Some PNone),
      fld ''security'' (opt (TClass ''SecurityContext'')) (Some PNone),
      fld ''metadata'' (opt (TDictOf TStr TAny)) (Some PNone),
      fld ''timestamp'' (opt TInt) (Some PNone)]"

definition TokenResponse_fields :: "field_info list" where
  "TokenResponse_fields =
     [fld ''access_token'' TStr None,
      fld ''expires_in'' TInt None,
      fld ''worker_id'' TStr None,
      fld ''refresh_token'' (opt TStr) (Some PNone),
      fld ''metadata'' (opt (TDictOf TStr TAny)) (Some PNone)]"

definition WorkerEventPayload_fields :: "field_info list" where
  "WorkerEventPayload_fields =
     [fld ''event_id'' TStr None,
      fld ''worker_id'' TStr None,
      fld ''origin_worker_id'' TStr None,
      fld ''event_type'' TStr None,
      fld ''payload'' (TDictOf TStr TAny) None,
      fld ''origin_task_id'' (opt TStr) (Some PNone),
      fld ''bubbling_chain'' (opt (TListOf TStr)) (Some PNone),
      fld ''target_job_id'' (opt TStr) (Some PNone),
      fld ''target_task_id'' (opt TStr) (Some PNone),
      fld ''trace_context'' (opt (TDictOf TStr TStr)) (Some PNone),
      fld ''priority'' TFloat (Some (PFloat (Fin 0))),
      fld ''timestamp'' (opt TInt) (Some PNone),
      fld ''security'' (opt (TClass ''SecurityContext'')) (Some PNone),
      fld ''metadata'' (opt (TDictOf TStr TAny)) (Some PNone)]"

definition WorkerCommand_fields :: "field_info list" where
  "WorkerCommand_fields =
     [fld ''command'' TStr None,
      fld ''task_id'' (opt TStr) (Some PNone),
      fld ''job_id'' (opt TStr) (Some PNone),
      fld ''params'' (opt (TDictOf TStr TAny)) (Some PNone),
      fld ''metadata'' (opt (TDictOf TStr TAny)) (Some PNone)]"

definition TaskPayload_fields :: "field_info list" where
  "TaskPayload_fields =
     [fld ''job_id'' TStr None,
      fld ''task_id'' TStr None,
      fld ''type'' TStr None,
      fld ''params'' (opt (TDictOf TStr TAny)) (Some PNone),
      fld ''tracing_context'' (opt (TDictOf TStr TStr)) (Some PNone),
      fld ''params_metadata'' (opt (TDictOf TStr (TClass ''FileMetadata''))) (Some PNone),
      fld ''priority'' TFloat (Some (PFloat (Fin 0))),
      fld ''deadline'' (opt TInt) (Some PNone),
      fld ''security'' (opt (TClass ''SecurityContext'')) (Some PNone),
      fld ''metadata'' (opt (TDictOf TStr TAny)) (Some PNone),
      fld ''timestamp'' (opt TInt) (Some PNone),
      fld ''policy'' (opt (TDictOf TStr TAny)) (Some PNone),
      fld ''sig'' (opt TStr) (Some PNone),
      fld ''step'' TInt (Some (PInt 0)),
      fld ''depth'' TInt (Some (PInt 0)),
      fld ''parent_hash'' (opt TStr) (Some PNone)]"

definition TaskError_fields :: "field_info list" where
  "TaskError_fields =
     [fld ''code'' TStr None,
      fld ''message'' TStr None,
      fld ''details'' (opt (TDictOf TStr TAny)) (Some PNone)]"

definition TaskResult_fields :: "field_info list" where
  "TaskResult_fields =
     [fld ''job_id'' TStr None,
      fld ''task_id'' TStr None,
      fld ''worker_id'' (opt TStr) (Some PNone),
      fld ''origin_worker_id'' (opt TStr) (Some PNone),
      fld ''status'' TStr (Some (PStr ''success'')),
      fld ''data'' (opt (TDictOf TStr TAny)) (Some PNone),
      fld ''error'' (opt (TClass ''TaskError'')) (Some PNone),
      fld ''data_metadata'' (opt (TDictOf TStr (TClass ''FileMetadata''))) (Some PNone),
      fld ''security'' (opt (TClass ''SecurityContext'')) (Some PNone),
      fld ''metadata'' (opt (TDictOf TStr TAny)) (Some PNone),
      fld ''timestamp'' (opt TInt) (Some PNone),
      fld ''costs'' (opt (TDictOf TStr TAny)) (Some PNone)]"

definition Heartbeat_fields :: "field_info list" where
  "Heartbeat_fields =
     [fld ''worker_id'' TStr None,
      fld ''status'' TStr None,
      fld ''usage'' (opt (TClass ''ResourcesUsage'')) (Some PNone),
      fld ''current_tasks'' (opt (TListOf TStr)) (Some PNone),
      fld ''supported_skills'' (opt (TListOf (TClass ''SkillInfo''))) (Some PNone),
      fld ''available_skills'' (opt (TListOf TStr)) (Some PNone),
      fld ''hot_skills'' (opt (TListOf TStr)) (Some PNone),
      fld ''skills_hash'' (opt TStr) (Some PNone),
      fld ''security'' (opt (TClass ''SecurityContext'')) (Some PNone),
      fld ''metadata'' (opt (TDictOf TStr TAny)) (Some PNone),
      fld ''timestamp'' (opt TInt) (Some PNone)]"

definition message_fields :: "field_info list dict" where
  "message_fields =
     [(''HardwareDevice'', HardwareDevice_fields),
      (''DeviceUsage'', DeviceUsage_fields),
      (''ResourcesUsage'', ResourcesUsage_fields),
      (''Resources'', Resources_fields),
      (''InstalledArtifact'', InstalledArtifact_fields),
      (''SkillInfo'', SkillInfo_fields),
      (''ExecutionReceipt'', ExecutionReceipt_fields),
      (''SecurityContext'', SecurityContext_fields),
      (''WorkerCapabilities'', WorkerCapabilities_fields),
      (''FileMetadata'', FileMetadata_fields),
      (''WorkerRegistration'', WorkerRegistration_fields),
      (''TokenResponse'', TokenResponse_fields),
      (''WorkerEventPayload'', WorkerEventPayload_fields),
      (''WorkerCommand'', WorkerCommand_fields),
      (''TaskPayload'', TaskPayload_fields),
      (''TaskError'', TaskError_fields),
      (''TaskResult'', TaskResult_fields),
      (''Heartbeat'', Heartbeat_fields)]"

subsection \<open>The class table\<close>

definition plain_class :: "class_kind \<Rightarrow> class_info" where
  "plain_class kind = \<lparr>ci_kind = kind, ci_model_json_schema = Absent, ci_schema = Absent\<rparr>"

definition message_classes :: classes where
  "message_classes k =
     (case dget k message_fields of
        Some fs \<Rightarrow> plain_class (StructClass (Inr fs))
      | None \<Rightarrow> plain_class PlainClass)"

lemmas message_field_defs = HardwareDevice_fields_def DeviceUsage_fields_def ResourcesUsage_fields_def
  Resources_fields_def InstalledArtifact_fields_def SkillInfo_fields_def ExecutionReceipt_fields_def
  SecurityContext_fields_def WorkerCapabilities_fields_def FileMetadata_fields_def
  WorkerRegistration_fields_def TokenResponse_fields_def WorkerEventPayload_fields_def
  WorkerCommand_fields_def TaskPayload_fields_def TaskError_fields_def TaskResult_fields_def
  Heartbeat_fields_def

lemma own_message [simp]: "own_schema message_classes t = None"
  by (simp add: own_schema_def message_classes_def plain_class_def split: option.split)

lemma kind_message:
  "dget k message_fields = Some fs \<Longrightarrow> ci_kind (message_classes k) = StructClass (Inr fs)"
  by (simp add: message_classes_def plain_class_def)

subsection \<open>Skills\<close>

definition or_null :: "string option \<Rightarrow> pyval" where
  "or_null s = (case s of None \<Rightarrow> PNone | Some t \<Rightarrow> PStr t)"

definition SkillInfo_to_index :: "skill_info \<Rightarrow> pyval dict" where
  "SkillInfo_to_index self =
     [(''name'', PStr (skill_name self)),
      (''type'', or_null (skill_type self)),
      (''description'', or_null (skill_description self)),
      (''version'', or_null (skill_version self)),
      (''risk'', PStr (skill_risk self)),
      (''permissions'', PList (map PStr (case skill_permissions self of None \<Rightarrow> [] | Some ps \<Rightarrow> ps))),
      (''schema_dialect'', PStr (skill_schema_dialect self))]"

definition output_validator :: "'b schema_env \<Rightarrow> pyval dict option \<Rightarrow> 'b vcache \<Rightarrow> validator option \<times> 'b vcache" where
  "output_validator E output_schema = get_compiled_validator E (opt_schema output_schema)"

text \<open>
  Python's \<open><\<close> on strings compares code points; \<open>None\<close> stands for \<open>NotImplemented\<close>, the answer
  for an operand that is not a \<open>SkillInfo\<close>.
\<close>

fun str_less :: "string \<Rightarrow> string \<Rightarrow> bool" where
  "str_less s [] = False"
| "str_less [] (d # t) = True"
| "str_less (c # s) (d # t) =
     ((of_char c :: nat) < of_char d \<or> (of_char c :: nat) = of_char d \<and> str_less s t)"

definition SkillInfo_lt :: "skill_info \<Rightarrow> skill_info option \<Rightarrow> bool option" where
  "SkillInfo_lt self other =
     (case other of None \<Rightarrow> None | Some o' \<Rightarrow> Some (str_less (skill_name self) (skill_name o')))"

lemma str_less_irrefl [simp]: "\<not> str_less s s"
  by (induction s) auto

lemma str_less_Nil: "str_less [] s = (s \<noteq> [])"
  by (cases s) auto

lemma str_less_trans: "str_less s t \<Longrightarrow> str_less t u \<Longrightarrow> str_less s u"
proof (induction s t arbitrary: u rule: str_less.induct)
  case (2 d t)
  then show ?case by (cases u) auto
next
  case (3 c s d t)
  then show ?case by (cases u) auto
qed simp

lemma str_less_total: "str_less s t \<or> s = t \<or> str_less t s"
  by (induction s t rule: str_less.induct) (auto simp: str_less_Nil)

text \<open>
  SkillInfo.__lt__ is a strict order on the names: irreflexive, transitive, and total up to equal
  names.
\<close>
theorem skill_order:
  "SkillInfo_lt a (Some a) = Some False \<and>
   (SkillInfo_lt a (Some b) = Some True \<longrightarrow> SkillInfo_lt b (Some c) = Some True \<longrightarrow> SkillInfo_lt a (Some c) = Some True) \<and>
   (SkillInfo_lt a (Some b) = Some False \<longrightarrow> SkillInfo_lt b (Some a) = Some False \<longrightarrow> skill_name a = skill_name b)"
  using str_less_trans [of "skill_name a" "skill_name b" "skill_name c"]
    str_less_total [of "skill_name a" "skill_name b"]
  by (auto simp: SkillInfo_lt_def)

end
