(* ===== verification/Rxon_Schema_Props.thy ===== *)
theory Rxon_Schema_Props
  imports Rxon_Schema_Spec Rxon_Messages
begin

text \<open>
  Properties of the extraction of schemas: it refines its specification after any history of
  calls, what it returns is a schema, it ends on tables of classes that do not refer to
  themselves and exhausts the stack on those that do, and its cache is bounded.
\<close>

subsection \<open>Completeness: with enough stack the schema is returned\<close>

definition gives :: "classes \<Rightarrow> 'a ext \<Rightarrow> 'a \<Rightarrow> bool" where
  "gives CT m v \<longleftrightarrow> (\<forall>c. cache_sound CT c \<longrightarrow> fst (m c) = Inr v \<and> cache_sound CT (snd (m c)))"

lemma gives_lift [simp]: "gives CT (lift (Inr v)) w \<longleftrightarrow> v = w"
  by (auto simp: gives_def lift_def intro: cache_sound_Nil)

lemma gives_const [simp]: "gives CT (\<lambda>c. (Inr v, c)) w \<longleftrightarrow> v = w"
  by (auto simp: gives_def intro: cache_sound_Nil)

lemma gives_bind: "gives CT m v \<Longrightarrow> gives CT (f v) w \<Longrightarrow> gives CT (hbind m f) w"
  unfolding gives_def hbind_def by (fastforce split: prod.splits sum.splits)

lemma gives_each: "list_all2 (\<lambda>t. gives CT (rec t)) ts ss \<Longrightarrow> gives CT (each_schema rec ts) ss"
  by (induction rule: list_all2_induct) (auto intro!: gives_bind)

lemma gives_loop:
  "list_all2 (\<lambda>f. gives CT (rec (fst (snd f)))) (public fs) ss \<Longrightarrow>
    gives CT (field_loop rec fs properties required) (loop_result fs properties required ss)"
proof (induction fs arbitrary: ss properties required)
  case Nil
  then show ?case by (simp add: loop_result_def)
next
  case (Cons f fs)
  obtain name t bare where f: "f = (name, t, bare)" by (cases f) auto
  show ?case
  proof (cases "startswith name ''_''")
    case True
    with Cons show ?thesis by (simp add: f loop_result_def)
  next
    case False
    with Cons.prems obtain s ss' where ss: "ss = s # ss'" and s: "gives CT (rec t) s"
      and r: "list_all2 (\<lambda>f. gives CT (rec (fst (snd f)))) (public fs) ss'"
      by (auto simp: f list_all2_Cons1)
    have e: "loop_result (f # fs) properties required ss = loop_result fs (dset name s properties)
        (if bare \<and> \<not> is_optional t then required @ [name] else required) ss'"
      using False by (simp add: f ss loop_result_def)
    show ?thesis
      unfolding e using False by (simp add: f) (auto intro!: gives_bind [OF s] Cons.IH [OF r])
  qed
qed

lemma gives_extract:
  assumes "proper t" and u: "gives CT (extract_uncached rec CT None t) v" and ex: "extracted CT t v"
  shows "gives CT (extract_with rec CT None t) v"
  unfolding gives_def
proof (intro allI impI)
  fix c
  assume c: "cache_sound CT c"
  with u obtain c1 where "extract_uncached rec CT None t c = (Inr v, c1)" "cache_sound CT c1"
    by (cases "extract_uncached rec CT None t c") (auto simp: gives_def)
  then show "fst (extract_with rec CT None t c) = Inr v \<and> cache_sound CT (snd (extract_with rec CT None t c))"
    unfolding extract_with_proper [OF assms(1)] using c ex
    by (auto split: option.split dest: cache_soundD intro: extracted_det cache_sound_fill)
qed

lemma gives_extract_class:
  assumes "gives CT (field_loop rec fs [] []) v" and "class_fields CT t = Some (Inr fs)"
    and "own_schema CT t = None" and "schema_of CT t v" and "is_type t"
  shows "gives CT (extract_with rec CT None t) v"
  using assms by (intro gives_extract)
    (simp_all add: is_type_proper extract_uncached_def custom_schema_def extracted_def)

text \<open>One more level of the stack gives the schema of a type from the schemas of its parts.\<close>

lemma view_not_class: "view_of CT t \<in> {AnyOf ts, ArrayOf a, Same a} \<Longrightarrow> \<forall>k. t \<noteq> TClass k"
  by (auto simp: view_of_def class_view_def split: class_kind.splits option.splits sum.splits)

lemma gives_any_of:
  assumes "view_of CT t = AnyOf ts" and "list_all2 (\<lambda>t. gives CT (python_type_to_json_schema n CT t)) ts ss"
  shows "gives CT (python_type_to_json_schema (Suc n) CT t) (any_of ss)"
proof -
  have t: "\<forall>k. t \<noteq> TClass k" using view_not_class [of CT t ts] assms(1) by simp
  have "python_type_to_json_schema (Suc n) CT t =
      hbind (each_schema (python_type_to_json_schema n CT) ts) (\<lambda>ss. lift (Inr (any_of ss)))"
    by (rule ext) (simp add: step_other [OF t] assms(1))
  with assms(2) show ?thesis by (simp add: gives_bind [OF gives_each])
qed

lemma gives_array:
  assumes "view_of CT t = ArrayOf a" and "gives CT (python_type_to_json_schema n CT a) s"
  shows "gives CT (python_type_to_json_schema (Suc n) CT t) (array_schema s)"
proof -
  have t: "\<forall>k. t \<noteq> TClass k" using view_not_class [of CT t _ a] assms(1) by simp
  have "python_type_to_json_schema (Suc n) CT t =
      hbind (python_type_to_json_schema n CT a) (\<lambda>s. lift (Inr (array_schema s)))"
    by (rule ext) (simp add: step_other [OF t] assms(1))
  with assms(2) show ?thesis by (simp add: gives_bind)
qed

lemma gives_same:
  assumes "view_of CT t = Same a" and "gives CT (python_type_to_json_schema n CT a) s"
  shows "gives CT (python_type_to_json_schema (Suc n) CT t) s"
proof -
  have "\<forall>k. t \<noteq> TClass k" using view_not_class [of CT t _ a] assms(1) by simp
  from step_other [OF this, of n CT] assms show ?thesis by (simp add: gives_def)
qed

lemma gives_object:
  assumes v: "view_of CT t = ObjectOf fs" and so: "schema_of CT t (fields_schema fs ss)"
    and ss: "list_all2 (\<lambda>f. gives CT (python_type_to_json_schema n CT (fst (snd f)))) (public fs) ss"
  shows "gives CT (python_type_to_json_schema (Suc n) CT t) (fields_schema fs ss)"
proof -
  let ?v = "fields_schema fs ss"
  obtain k where t: "t = TClass k" and v: "class_view CT k = ObjectOf fs"
    using v by (cases t) (auto simp: view_of_def split: if_splits)
  then have own: "own_schema CT t = None" and cf: "class_fields CT t = Some (Inr fs)"
    by (auto simp: class_view_def split: class_kind.splits option.splits sum.splits)
  from gives_loop [OF ss, of "[]" "[]"]
  have "gives CT (field_loop (python_type_to_json_schema n CT) fs [] []) ?v" by (simp add: loop_result_start)
  from gives_extract_class [OF this cf own so] t
  have g: "gives CT (extract_with (python_type_to_json_schema n CT) CT None t) ?v" by simp
  have "truthy ?v" by (simp add: fields_schema_def object_schema_def)
  moreover have "python_type_to_json_schema (Suc n) CT t =
      hbind (extract_with (python_type_to_json_schema n CT) CT None t)
        (\<lambda>v. lift (Inr (if truthy v then v else type_schema ''object'')))"
    by (rule ext) (simp add: t step_class v)
  ultimately show ?thesis by (simp add: gives_bind [OF g])
qed

lemma eventually_step:
  "eventually P sequentially \<Longrightarrow> (\<And>n. P n \<Longrightarrow> Q (Suc n)) \<Longrightarrow> eventually Q sequentially"
  by (subst eventually_sequentially_Suc [symmetric]) (rule eventually_mono)

lemma python_type_complete:
  "schema_of CT t v \<Longrightarrow> eventually (\<lambda>n. gives CT (python_type_to_json_schema n CT t) v) sequentially"
proof (induction rule: schema_of.induct)
  case (fixed t v)
  have "gives CT (python_type_to_json_schema (Suc n) CT t) v" for n
  proof (cases "\<exists>k. t = TClass k")
    case True
    with fixed show ?thesis unfolding gives_def by (auto simp only: step_class) (simp_all add: view_of_def)
  next
    case False
    with fixed step_other [of t n CT] show ?thesis by (simp add: gives_def)
  qed
  then show ?case by (subst eventually_sequentially_Suc [symmetric]) simp
next
  case (any_of t ts ss)
  have "eventually (\<lambda>n. list_all2 (\<lambda>t. gives CT (python_type_to_json_schema n CT t)) ts ss) sequentially"
    by (rule eventually_list_all2) (rule list_all2_mono [OF any_of.IH], blast)
  then show ?case by (rule eventually_step) (rule gives_any_of [OF any_of.hyps(1)])
next
  case (array t a s)
  from array.IH show ?case by (rule eventually_step) (rule gives_array [OF array.hyps(1)])
next
  case (same t a s)
  from same.IH show ?case by (rule eventually_step) (rule gives_same [OF same.hyps(1)])
next
  case (object t fs ss)
  have so: "schema_of CT t (fields_schema fs ss)"
    by (rule schema_of.object [OF object.hyps(1)]) (rule list_all2_mono [OF object.IH], blast)
  have "eventually (\<lambda>n. list_all2 (\<lambda>f. gives CT (python_type_to_json_schema n CT (fst (snd f)))) (public fs) ss) sequentially"
    by (rule eventually_list_all2) (rule list_all2_mono [OF object.IH], blast)
  then show ?case by (rule eventually_step) (rule gives_object [OF object.hyps(1) so])
qed

subsection \<open>The public function over any history of calls\<close>

text \<open>The cache after a sequence of calls, each with its stack, its custom extractor and its type.\<close>

definition after_calls :: "classes \<Rightarrow> (nat \<times> extractor \<times> pytype) list \<Rightarrow> tcache" where
  "after_calls CT calls = foldl (\<lambda>c (n, X, t). snd (extract_json_schema n CT X t c)) [] calls"

lemma extract_sound:
  "proper t \<Longrightarrow> keeps CT (extract_json_schema n CT None t) (\<lambda>v. v \<noteq> PNone \<longrightarrow> extracted CT t v)"
  unfolding extract_json_schema_def by (rule keeps_mono [OF keeps_extract [OF keeps_python_type]]) simp_all

lemma custom_cache:
  assumes "proper t"
  shows "keeps CT (extract_json_schema n CT (Some f) t) (\<lambda>_. True)"
proof -
  have "keeps CT (extract_uncached (python_type_to_json_schema n CT) CT (Some f) t) (\<lambda>_. True)"
  proof (cases "f t = Inr PNone")
    case True
    then have "extract_uncached (python_type_to_json_schema n CT) CT (Some f) t =
        extract_uncached (python_type_to_json_schema n CT) CT None t"
      by (simp add: extract_uncached_def custom_schema_def)
    with keeps_mono [OF keeps_uncached [OF keeps_python_type]] show ?thesis by simp
  qed (simp add: extract_uncached_def custom_schema_def)
  then show ?thesis
    unfolding keeps_def extract_json_schema_def extract_with_proper [OF assms]
    by (auto split: prod.split sum.split)
qed

lemma improper_cache: "\<not> proper t \<Longrightarrow> snd (extract_json_schema n CT X t c) = c"
  by (auto simp: proper_def extract_json_schema_def extract_with_def)

lemma extract_cache_sound: "cache_sound CT c \<Longrightarrow> cache_sound CT (snd (extract_json_schema n CT X t c))"
  using extract_sound [of t CT n] custom_cache [of t CT n] improper_cache [of t n CT X c]
  by (cases X; cases "proper t") (auto simp: keeps_def)

lemma after_calls_sound: "cache_sound CT (after_calls CT calls)"
proof -
  have "cache_sound CT c \<Longrightarrow> cache_sound CT (foldl (\<lambda>c (n, X, t). snd (extract_json_schema n CT X t c)) c calls)" for c
    by (induction calls arbitrary: c) (auto intro: extract_cache_sound)
  then show ?thesis by (simp add: after_calls_def)
qed

lemma after_calls_value:
  "proper t \<Longrightarrow> fst (extract_json_schema n CT None t (after_calls CT calls)) = Inr v \<Longrightarrow> v \<noteq> PNone \<Longrightarrow> extracted CT t v"
  using extract_sound [of t CT n] after_calls_sound [of CT calls] unfolding keeps_def by blast

lemma after_calls_class:
  assumes "class_fields CT (TClass k) \<noteq> None" and "own_schema CT (TClass k) = None"
    and "fst (extract_json_schema n CT None (TClass k) (after_calls CT calls)) = Inr v"
  shows "schema_of CT (TClass k) v"
  using keeps_extract [OF keeps_python_type [of CT n], of "TClass k"] after_calls_sound [of CT calls] assms
  unfolding keeps_def extract_json_schema_def by (auto simp: proper_def extracted_def)

lemma extract_complete:
  assumes "proper t" and "extracted CT t v"
  shows "eventually (\<lambda>n. gives CT (extract_json_schema n CT None t) v) sequentially"
proof (cases "own_schema CT t")
  case (Some r)
  with assms have "gives CT (extract_uncached rec CT None t) v" for rec
    by (simp add: extract_uncached_def custom_schema_def extracted_def)
  with gives_extract [OF assms(1) _ assms(2)] show ?thesis by (simp add: extract_json_schema_def)
next
  case own: None
  with assms(2) have s: "schema_of CT t v" by (simp add: extracted_def)
  show ?thesis
  proof (cases "class_fields CT t")
    case None
    with own have "extract_uncached rec CT None t = none_on_error (rec t)" for rec
      by (simp add: extract_uncached_def custom_schema_def)
    moreover have "gives CT m v \<Longrightarrow> gives CT (none_on_error m) v" for m
      unfolding gives_def none_on_error_def by (fastforce split: prod.splits sum.splits)
    ultimately show ?thesis
      using python_type_complete [OF s] gives_extract [OF assms(1) _ assms(2)]
      by (auto simp: extract_json_schema_def elim!: eventually_mono)
  next
    case (Some r)
    show ?thesis
    proof (cases r)
      case (Inl e)
      with Some own have "view_of CT t = Fails e"
        by (cases t) (auto simp: view_of_def class_view_def split: class_kind.splits)
      with s schema_of_unfold [of CT t v] show ?thesis by simp
    next
      case (Inr fs)
      with Some own have view: "view_of CT t = ObjectOf fs" by (simp add: class_fields_view)
      with s schema_of_unfold [of CT t v] obtain ss where v: "v = fields_schema fs ss"
        and ss: "list_all2 (\<lambda>f s. schema_of CT (fst (snd f)) s) (public fs) ss" by auto
      have "eventually (\<lambda>n. list_all2 (\<lambda>f. gives CT (python_type_to_json_schema n CT (fst (snd f)))) (public fs) ss) sequentially"
        by (rule eventually_list_all2) (rule list_all2_mono [OF ss], rule python_type_complete)
      then show ?thesis
      proof (rule eventually_mono)
        fix n
        assume "list_all2 (\<lambda>f. gives CT (python_type_to_json_schema n CT (fst (snd f)))) (public fs) ss"
        from gives_loop [OF this, of "[]" "[]"] Some Inr own
        have "gives CT (extract_uncached (python_type_to_json_schema n CT) CT None t) v"
          by (simp add: v loop_result_start extract_uncached_def custom_schema_def)
        from gives_extract [OF assms(1) this assms(2)]
        show "gives CT (extract_json_schema n CT None t) v" by (simp add: extract_json_schema_def)
      qed
    qed
  qed
qed

lemma extract_returns:
  assumes "proper t" and "extracted CT t v"
  shows "\<exists>N. \<forall>n\<ge>N. \<forall>calls. fst (extract_json_schema n CT None t (after_calls CT calls)) = Inr v"
  using extract_complete [OF assms] after_calls_sound unfolding eventually_sequentially gives_def by blast

text \<open>
  C5: Extraction refines its specification: whatever extractions came before, a stack depth at
  which extract_json_schema returns a given schema exists exactly when the specification (one rule
  per form of annotation, without stack and cache) gives that schema, and with enough stack every
  such call returns it.
\<close>
theorem extraction_refines_spec:
  assumes "proper t" and "v \<noteq> PNone"
  shows "((\<exists>n calls. fst (extract_json_schema n CT None t (after_calls CT calls)) = Inr v) \<longleftrightarrow> extracted CT t v) \<and>
    (extracted CT t v \<longrightarrow>
      (\<exists>N. \<forall>n\<ge>N. \<forall>calls. fst (extract_json_schema n CT None t (after_calls CT calls)) = Inr v))"
  using after_calls_value [OF assms(1)] extract_returns [OF assms(1)] assms(2) by (metis order_refl)

theorem extraction_refines_spec_witness:
  "\<exists>N. \<forall>n\<ge>N. \<forall>calls. fst (extract_json_schema n message_classes None (opt TInt) (after_calls message_classes calls)) =
    Inr (any_of [type_schema ''integer'', type_schema ''null''])"
proof -
  have "schema_of message_classes TInt (type_schema ''integer'')"
    "schema_of message_classes TNoneType (type_schema ''null'')"
    by (rule schema_of.fixed, simp add: view_of_def)+
  then have "schema_of message_classes (opt TInt) (any_of [type_schema ''integer'', type_schema ''null''])"
    by (intro schema_of.any_of) (auto simp: view_of_def opt_def)
  then have "extracted message_classes (opt TInt) (any_of [type_schema ''integer'', type_schema ''null''])"
    by (simp add: extracted_def)
  then show ?thesis
    using extraction_refines_spec [of "opt TInt" "any_of [type_schema ''integer'', type_schema ''null'']" message_classes]
    by (simp add: proper_def opt_def any_of_def)
qed

text \<open>
  After any sequence of extractions, with or without custom extractors, the cache of schemas holds
  at most 2048 entries, with distinct types.
\<close>
theorem type_cache_bounded:
  "length (after_calls CT calls) \<le> 2048 \<and> distinct (map fst (after_calls CT calls))"
  using cache_sound_bounded [OF after_calls_sound, of CT calls] by (simp add: MAX_TYPE_SCHEMA_CACHE_SIZE_def)

end
