(* ===== verification/Rxon_Schema_Laws.thy ===== *)
theory Rxon_Schema_Laws
  imports Rxon_Schema_Props
begin

text \<open>
  What the extracted schemas are: every keyword has a value of its form and every required name
  is a property (\<open>schema_ok\<close>); a Struct's schema lists its public fields in order; on tables
  whose classes refer only downwards every extraction succeeds, and a class that refers to
  itself exhausts the stack.
\<close>

subsection \<open>Well-formed schemas\<close>

definition json_types :: "string list" where
  "json_types = [''string'', ''integer'', ''number'', ''boolean'', ''null'', ''object'', ''array'']"

fun str_of :: "pyval \<Rightarrow> string option" where
  "str_of (PStr s) = Some s"
| "str_of _ = None"

definition names_of :: "pyval \<Rightarrow> string list" where
  "names_of v = (case v of PDict d \<Rightarrow> map fst d | _ \<Rightarrow> [])"

definition required_ok :: "pyval dict \<Rightarrow> bool" where
  "required_ok d =
     (case dget ''required'' d of
        None \<Rightarrow> True
      | Some r \<Rightarrow> (case r of
          PList rs \<Rightarrow> list_all (\<lambda>x. case str_of x of None \<Rightarrow> False | Some s \<Rightarrow>
            (case dget ''properties'' d of None \<Rightarrow> False | Some ps \<Rightarrow> s \<in> set (names_of ps))) rs
        | _ \<Rightarrow> False))"

fun schema_ok :: "pyval \<Rightarrow> bool"
  and keywords_ok :: "pyval dict \<Rightarrow> bool"
  and schemas_ok :: "pyval list \<Rightarrow> bool"
  and properties_ok :: "pyval dict \<Rightarrow> bool" where
  "schema_ok (PDict d) = (keywords_ok d \<and> required_ok d)"
| "schema_ok _ = False"
| "keywords_ok [] = True"
| "keywords_ok ((k, v) # d) =
     ((if k = ''type'' then (case str_of v of Some s \<Rightarrow> s \<in> set json_types | None \<Rightarrow> False)
       else if k = ''items'' then schema_ok v
       else if k = ''anyOf'' then (case v of PList ss \<Rightarrow> schemas_ok ss | _ \<Rightarrow> False)
       else if k = ''properties'' then (case v of PDict ps \<Rightarrow> properties_ok ps | _ \<Rightarrow> False)
       else if k = ''required'' \<or> k = ''enum'' then (case v of PList _ \<Rightarrow> True | _ \<Rightarrow> False)
       else k = ''additionalProperties'' \<and> v = PBool False)
      \<and> keywords_ok d)"
| "schemas_ok [] = True"
| "schemas_ok (s # ss) = (schema_ok s \<and> schemas_ok ss)"
| "properties_ok [] = True"
| "properties_ok ((k, s) # ps) = (schema_ok s \<and> properties_ok ps)"

lemma schemas_ok_conv: "schemas_ok ss = list_all schema_ok ss"
  by (induction ss) auto

lemma properties_ok_conv: "properties_ok ps = list_all (\<lambda>p. schema_ok (snd p)) ps"
  by (induction ps) auto

lemma required_ok_none: "dget ''required'' d = None \<Longrightarrow> required_ok d"
  by (simp add: required_ok_def)

lemma type_schema_ok: "s \<in> set json_types \<Longrightarrow> schema_ok (type_schema s)"
  by (simp add: type_schema_def required_ok_def dget_def)

lemma object_schema_ok:
  "properties_ok ps \<Longrightarrow> set req \<subseteq> fst ` set ps \<Longrightarrow> schema_ok (object_schema ps req)"
  by (auto simp: object_schema_def required_ok_def dget_def json_types_def list_all_iff names_of_def)

lemma required_subset: "set (required_names fs) \<subseteq> set (map fst (public fs))"
  by (auto simp: required_names_def)

lemma fields_schema_ok:
  assumes "list_all2 (\<lambda>f s. schema_ok s) (public fs) ss"
  shows "schema_ok (fields_schema fs ss)"
proof -
  have len: "length ss = length (public fs)" using assms by (simp add: list_all2_lengthD)
  have "list_all schema_ok ss" using assms by (auto simp: list_all2_conv_all_nth list_all_length)
  then have "list_all (\<lambda>p. schema_ok (snd p)) (zip (map fst (public fs)) ss)"
    by (auto simp: list_all_iff dest: set_zip_rightD)
  then have "properties_ok (dict_of (zip (map fst (public fs)) ss))"
    unfolding properties_ok_conv dict_of_def by (rule foldl_dset_values [OF list.pred_inject(1)])
  moreover have "fst ` set (dict_of (zip (map fst (public fs)) ss)) = set (map fst (public fs))"
    unfolding dict_of_def foldl_dset_keys using len by (simp flip: set_map)
  ultimately show ?thesis
    unfolding fields_schema_def using required_subset by (intro object_schema_ok) auto
qed

lemma class_fixed:
  "class_view CT k = Fixed v \<Longrightarrow>
    (\<exists>vs. v = enum_schema vs) \<or> own_schema CT (TClass k) = Some (Inr v) \<or> v = type_schema ''string''"
  by (auto simp: class_view_def split: class_kind.splits option.splits sum.splits)

lemma shape_fixed:
  "shape CT t = Fixed v \<Longrightarrow> v = PDict [] \<or> (\<exists>s\<in>set json_types. v = type_schema s) \<or> (\<exists>k. class_view CT k = Fixed v)"
  by (cases t) (auto simp: json_types_def)

lemma schema_of_ok:
  assumes hooks: "\<And>k v. own_schema CT (TClass k) = Some (Inr v) \<Longrightarrow> schema_ok v"
  shows "schema_of CT t v \<Longrightarrow> schema_ok v"
proof (induction rule: schema_of.induct)
  case (fixed t v)
  have "schema_ok (enum_schema vs)" for vs
    by (simp add: enum_schema_def json_types_def required_ok_def dget_def)
  with fixed shape_fixed [of CT t v] show ?case
    by (auto simp: view_of_def json_types_def required_ok_def dget_def type_schema_def
        split: if_splits dest!: class_fixed intro: hooks)
next
  case (any_of t ts ss)
  have "list_all schema_ok ss" using any_of.IH by (auto simp: list_all2_conv_all_nth list_all_length)
  then show ?case by (simp add: any_of_def schemas_ok_conv required_ok_def dget_def)
next
  case (array t a s)
  then show ?case by (simp add: array_schema_def json_types_def required_ok_def dget_def)
next
  case (object t fs ss)
  show ?case by (rule fields_schema_ok) (rule list_all2_mono [OF object.IH], blast)
qed

lemma own_owner: "own_schema CT t = Some r \<Longrightarrow> \<exists>k. own_schema CT (TClass k) = Some r"
proof -
  assume own: "own_schema CT t = Some r"
  then obtain k where "attr_owner t = Some k" by (cases "attr_owner t") (auto simp: own_schema_def)
  with own have "own_schema CT (TClass k) = Some r" by (simp add: own_schema_def)
  then show ?thesis ..
qed


lemma extracted_ok:
  assumes "\<forall>k v. own_schema CT (TClass k) = Some (Inr v) \<longrightarrow> schema_ok v" and "extracted CT t v"
  shows "schema_ok v"
  using assms own_owner [of CT t "Inr v"] schema_of_ok [of CT t v]
  by (auto simp: extracted_def split: option.splits)

subsection \<open>The schema of a Struct\<close>


subsection \<open>Termination on tables without cycles\<close>

text \<open>The classes an extraction of a type visits.  The arguments of a dict are not visited.\<close>

fun refs :: "pytype \<Rightarrow> string set" where
  "refs (TClass k) = {k}"
| "refs (TUnionType ts) = (\<Union>t\<in>set ts. refs t)"
| "refs (TUnion ts) = (\<Union>t\<in>set ts. refs t)"
| "refs (TListOf t) = refs t"
| "refs (TAnnotated t ms) = refs t"
| "refs _ = {}"

text \<open>
  A rank of the classes that the types of public fields lower, with nothing in the table that
  raises.
\<close>

definition ranked :: "classes \<Rightarrow> (string \<Rightarrow> nat) \<Rightarrow> bool" where
  "ranked CT rk \<longleftrightarrow>
     (\<forall>k. (\<forall>e. class_view CT k \<noteq> Fails e) \<and> (\<forall>e. own_schema CT (TClass k) \<noteq> Some (Inl e)) \<and>
       (\<forall>fs. class_view CT k = ObjectOf fs \<longrightarrow>
         (\<forall>f\<in>set (public fs). thashable (fst (snd f)) \<and> (\<forall>k'\<in>refs (fst (snd f)). rk k' < rk k))))"

lemma class_view_simple: "class_view CT k \<noteq> AnyOf ts" "class_view CT k \<noteq> ArrayOf t" "class_view CT k \<noteq> Same t"
  by (simp_all add: class_view_def split: class_kind.split option.split sum.split)

lemma class_view_cases:
  obtains v where "class_view CT k = Fixed v" | fs where "class_view CT k = ObjectOf fs"
  | e where "class_view CT k = Fails e"
  by (cases "class_view CT k") (simp_all add: class_view_simple)

lemma ranked_class_schema:
  assumes "ranked CT rk" and parts: "\<And>t. (\<forall>k'\<in>refs t. rk k' < rk k) \<Longrightarrow> thashable t \<Longrightarrow> \<exists>v. schema_of CT t v"
  shows "\<exists>v. schema_of CT (TClass k) v"
proof (cases rule: class_view_cases [of CT k])
  case (1 v)
  then show ?thesis by (auto intro!: exI schema_of.fixed simp: view_of_def)
next
  case (2 fs)
  have "\<exists>s. schema_of CT (fst (snd f)) s" if f: "f \<in> set (public fs)" for f
    using assms(1) 2 f unfolding ranked_def by (intro parts) blast+
  from list_all2_choice [OF this] obtain ss where "list_all2 (\<lambda>f s. schema_of CT (fst (snd f)) s) (public fs) ss" ..
  with 2 show ?thesis by (auto intro!: exI schema_of.object simp: view_of_def)
next
  case (3 e)
  with assms(1) show ?thesis by (simp add: ranked_def)
qed

lemma schema_of_any_item:
  assumes "view_of CT t = ArrayOf TAny"
  shows "\<exists>v. schema_of CT t v"
proof -
  have "schema_of CT TAny (PDict [])" by (rule schema_of.fixed) (simp add: view_of_def)
  with assms show ?thesis by (blast intro: schema_of.array)
qed

lemma schema_of_alternatives:
  assumes "view_of CT t = AnyOf ts" and "\<And>a. a \<in> set ts \<Longrightarrow> \<exists>v. schema_of CT a v"
  shows "\<exists>v. schema_of CT t v"
proof -
  from assms(2) have "\<exists>ss. list_all2 (schema_of CT) ts ss" by (rule list_all2_choice)
  then obtain ss where "list_all2 (schema_of CT) ts ss" ..
  with schema_of.any_of [OF assms(1)] show ?thesis by blast
qed

lemma ranked_schema:
  assumes "ranked CT rk"
  shows "(\<forall>k\<in>refs t. rk k < r) \<Longrightarrow> thashable t \<Longrightarrow> \<exists>v. schema_of CT t v"
proof (induction r arbitrary: t rule: less_induct)
  case (less r)
  note outer = less.IH
  from less.prems show ?case
  proof (induction t)
    case (TUnionType ts)
    then have "\<exists>v. schema_of CT a v" if "a \<in> set ts" for a using that by (auto simp: list_all_iff)
    moreover have "view_of CT (TUnionType ts) = AnyOf ts" using TUnionType.prems by (simp add: view_of_def)
    ultimately show ?case using schema_of_alternatives by blast
  next
    case (TUnion ts)
    then have "\<exists>v. schema_of CT a v" if "a \<in> set ts" for a using that by (auto simp: list_all_iff)
    moreover have "view_of CT (TUnion ts) = AnyOf ts" using TUnion.prems by (simp add: view_of_def)
    ultimately show ?case using schema_of_alternatives by blast
  next
    case (TListOf t)
    then obtain s where "schema_of CT t s" by auto
    moreover have "view_of CT (TListOf t) = ArrayOf t" using TListOf.prems by (simp add: view_of_def)
    ultimately show ?case by (blast intro: schema_of.array)
  next
    case (TAnnotated t ms)
    then obtain s where "schema_of CT t s" by auto
    moreover have "view_of CT (TAnnotated t ms) = Same t" using TAnnotated.prems by (simp add: view_of_def)
    ultimately show ?case by (blast intro: schema_of.same)
  next
    case (TClass k)
    then show ?case using ranked_class_schema [OF assms] outer [of "rk k"] by simp
  next
    case TList
    show ?case by (rule schema_of_any_item) (simp add: view_of_def)
  next
    case TTypingList
    show ?case by (rule schema_of_any_item) (simp add: view_of_def)
  qed (auto simp: view_of_def intro!: exI schema_of.fixed)
qed

lemma ranked_extracts:
  assumes "ranked CT rk" and "proper t" and "thashable t"
  shows "\<exists>v N. extracted CT t v \<and>
    (\<forall>n\<ge>N. \<forall>calls. fst (extract_json_schema n CT None t (after_calls CT calls)) = Inr v)"
proof -
  have "\<exists>v. schema_of CT t v"
  proof (cases "refs t = {}")
    case True
    then show ?thesis by (intro ranked_schema [OF assms(1) _ assms(3), of 0]) simp
  next
    case False
    have fin: "finite (refs t)" by (induction t) auto
    then show ?thesis
      by (intro ranked_schema [OF assms(1) _ assms(3), of "Suc (Max (rk ` refs t))"]) (simp add: less_Suc_eq_le)
  qed
  then have "\<exists>v. extracted CT t v"
  proof (cases "own_schema CT t")
    case (Some r)
    with own_owner obtain k where "own_schema CT (TClass k) = Some r" by blast
    with assms(1) obtain v where "r = Inr v" unfolding ranked_def by (cases r) auto
    with Some show ?thesis by (simp add: extracted_def)
  qed (simp add: extracted_def)
  with extract_returns [OF assms(2)] show ?thesis by blast
qed

subsection \<open>Classes that refer to themselves\<close>

lemma self_reference_no_schema:
  assumes "class_view CT k = ObjectOf fs" and "f \<in> set (public fs)" and "k \<in> refs (fst (snd f))"
  shows "schema_of CT t v \<Longrightarrow> k \<notin> refs t"
proof (induction rule: schema_of.induct)
  case (fixed t v)
  with assms show ?case by (cases t) (auto simp: view_of_def split: if_splits)
next
  case (any_of t ts ss)
  have "\<forall>a\<in>set ts. k \<notin> refs a"
    using any_of.IH by (auto dest: list_all2_left)
  with any_of.hyps(1) show ?case
    by (cases t) (auto simp: view_of_def class_view_simple split: if_splits)
next
  case (array t a s)
  then show ?case
    by (cases t) (auto simp: view_of_def class_view_simple split: if_splits)
next
  case (same t a s)
  then show ?case
    by (cases t) (auto simp: view_of_def class_view_simple split: if_splits)
next
  case (object t fs' ss)
  then obtain k' where t: "t = TClass k'" and v: "class_view CT k' = ObjectOf fs'"
    by (cases t) (auto simp: view_of_def split: if_splits)
  have "\<forall>g\<in>set (public fs'). k \<notin> refs (fst (snd g))"
    using object.IH by (rule list_all2_left)
  with assms v t show ?case by auto
qed

lemma struct_fields_schema:
  assumes "ci_kind (CT k) = StructClass (Inr fs)" and "own_schema CT (TClass k) = None"
    and "distinct (map fi_name fs)"
    and "fst (extract_json_schema n CT None (TClass k) (after_calls CT calls)) = Inr v"
  defines "shown \<equiv> filter (\<lambda>f. \<not> startswith (fi_name f) ''_'') fs"
  shows "\<exists>ss. list_all2 (\<lambda>f s. schema_of CT (fi_type f) s) shown ss \<and>
    v = object_schema (zip (map fi_name shown) ss)
      (map fi_name (filter (\<lambda>f. fi_default f = None \<and> \<not> is_optional (fi_type f)) shown))"
proof -
  let ?fs = "map struct_field fs"
  have view: "view_of CT (TClass k) = ObjectOf ?fs"
    using assms(1,2) by (intro class_fields_view) simp_all
  have pub: "public ?fs = map struct_field shown"
    by (simp add: public_def shown_def filter_map o_def struct_field_def)
  have "schema_of CT (TClass k) v"
    by (rule after_calls_class [OF _ assms(2,4)]) (simp add: assms(1))
  with schema_of_unfold [of CT "TClass k" v] view obtain ss where
    v: "v = fields_schema ?fs ss" and ss: "list_all2 (\<lambda>f s. schema_of CT (fst (snd f)) s) (public ?fs) ss" by auto
  have "length ss = length shown" using list_all2_lengthD [OF ss] by (simp add: pub)
  moreover have "distinct (map fi_name shown)" using assms(3) by (simp add: shown_def distinct_map_filter)
  ultimately have "dict_of (zip (map fst (public ?fs)) ss) = zip (map fi_name shown) ss"
    unfolding dict_of_def pub by (subst foldl_dset_distinct) (simp_all add: struct_field_def o_def)
  moreover have "required_names ?fs = map fi_name (filter (\<lambda>f. fi_default f = None \<and> \<not> is_optional (fi_type f)) shown)"
    by (simp add: required_names_def pub filter_map o_def struct_field_def)
  ultimately show ?thesis using ss v
    by (intro exI [of _ ss]) (simp add: fields_schema_def pub list_all2_map1 struct_field_def)
qed

subsection \<open>The message classes\<close>

definition message_rank :: "string \<Rightarrow> nat" where
  "message_rank k =
     (if k \<in> {''WorkerRegistration'', ''Heartbeat''} then 2
      else if k \<in> {''Resources'', ''ResourcesUsage'', ''WorkerEventPayload'', ''TaskPayload'', ''TaskResult''} then 1
      else 0)"

lemma message_view:
  "class_view message_classes k =
    (case dget k message_fields of
       Some fs \<Rightarrow> ObjectOf (map struct_field fs)
     | None \<Rightarrow> Fixed (type_schema ''string''))"
  by (cases "dget k message_fields")
    (simp_all add: class_view_def kind_message, simp add: message_classes_def plain_class_def)

lemma message_fields_checked:
  "\<forall>(k, fs)\<in>set message_fields. \<forall>f\<in>set fs.
     \<not> startswith (fi_name f) ''_'' \<and> \<not> fi_factory f \<and> (fi_default f = None \<longrightarrow> \<not> is_optional (fi_type f)) \<and> thashable (fi_type f) \<and>
     (\<forall>k'\<in>refs (fi_type f). message_rank k' < message_rank k)"
  by (simp add: message_fields_def message_field_defs fld_def opt_def startswith_def message_rank_def)

lemma ranked_messages: "ranked message_classes message_rank"
  unfolding ranked_def
proof (intro allI conjI impI)
  fix k fs
  assume "class_view message_classes k = ObjectOf fs"
  then obtain fs' where d: "dget k message_fields = Some fs'" and fs: "fs = map struct_field fs'"
    by (auto simp: message_view split: option.splits)
  from d have "(k, fs') \<in> set message_fields" by (simp add: dget_def map_of_SomeD)
  with message_fields_checked fs
  show "\<forall>f\<in>set (public fs). thashable (fst (snd f)) \<and> (\<forall>k'\<in>refs (fst (snd f)). message_rank k' < message_rank k)"
    by (fastforce simp: public_def struct_field_def)
qed (simp_all add: message_view split: option.split)

lemma message_field:
  assumes "dget k message_fields = Some fs" and "f \<in> set fs"
  shows "\<not> startswith (fi_name f) ''_''" "\<not> fi_factory f" "thashable (fi_type f)"
    "fi_default f = None \<Longrightarrow> \<not> is_optional (fi_type f)"
proof -
  have "(k, fs) \<in> set message_fields" using assms(1) by (simp add: dget_def map_of_SomeD)
  with message_fields_checked assms(2) show "\<not> startswith (fi_name f) ''_''" "\<not> fi_factory f"
    "thashable (fi_type f)" "fi_default f = None \<Longrightarrow> \<not> is_optional (fi_type f)" by fastforce+
qed

lemma message_names_distinct: "dget k message_fields = Some fs \<Longrightarrow> distinct (map fi_name fs)"
proof -
  have "\<forall>(k, fs)\<in>set message_fields. distinct (map fi_name fs)"
    by (simp add: message_fields_def message_field_defs fld_def)
  then show "dget k message_fields = Some fs \<Longrightarrow> distinct (map fi_name fs)"
    by (force simp: dget_def dest: map_of_SomeD)
qed

lemma message_extracts:
  "\<exists>v N. extracted message_classes (TClass k) v \<and>
    (\<forall>n\<ge>N. \<forall>calls. fst (extract_json_schema n message_classes None (TClass k) (after_calls message_classes calls)) = Inr v)"
  by (rule ranked_extracts [OF ranked_messages]) (simp_all add: proper_def)

subsection \<open>Properties\<close>

text \<open>
  C21: On a table of classes whose public fields only refer to classes of lower rank and where
  nothing raises, every extraction ends: with enough stack it returns the schema of the
  specification, whatever extractions came before.
\<close>
theorem extraction_total:
  assumes "ranked CT rk" and "proper t" and "thashable t"
  shows "\<exists>v N. extracted CT t v \<and>
    (\<forall>n\<ge>N. \<forall>calls. fst (extract_json_schema n CT None t (after_calls CT calls)) = Inr v)"
  by (rule ranked_extracts [OF assms])

theorem extraction_total_witness:
  "\<exists>v N. extracted message_classes (TListOf (TClass ''Heartbeat'')) v \<and>
    (\<forall>n\<ge>N. \<forall>calls. fst (extract_json_schema n message_classes None (TListOf (TClass ''Heartbeat''))
      (after_calls message_classes calls)) = Inr v)"
  by (rule extraction_total [OF ranked_messages]) (simp_all add: proper_def)

text \<open>
  C26: Every extracted schema is well formed: each keyword has a value of its form, nested schemas
  are well formed, and every required name is a property (when the classes' own schema methods
  return well-formed schemas).
\<close>
theorem extracted_schema_ok:
  assumes "\<forall>k v. own_schema CT (TClass k) = Some (Inr v) \<longrightarrow> schema_ok v"
    and "proper t" and "fst (extract_json_schema n CT None t (after_calls CT calls)) = Inr v" and "v \<noteq> PNone"
  shows "schema_ok v"
  using assms(1) after_calls_value [OF assms(2-4)] by (rule extracted_ok)

theorem extracted_schema_ok_witness:
  "\<exists>n v. fst (extract_json_schema n message_classes None (TClass ''WorkerRegistration'') (after_calls message_classes [])) = Inr v \<and>
    schema_ok v"
proof -
  from message_extracts [of "''WorkerRegistration''"] obtain v n where
    v: "fst (extract_json_schema n message_classes None (TClass ''WorkerRegistration'') (after_calls message_classes [])) = Inr v"
    and "extracted message_classes (TClass ''WorkerRegistration'') v" by blast
  then have "schema_of message_classes (TClass ''WorkerRegistration'') v" by (simp add: extracted_def)
  then have "v \<noteq> PNone"
    using schema_of_unfold [of message_classes "TClass ''WorkerRegistration''" v]
    by (auto simp: view_of_def message_view type_schema_def fields_schema_def object_schema_def split: option.splits)
  then have "schema_ok v" by (intro extracted_schema_ok [OF _ _ v]) (simp_all add: proper_def)
  with v show ?thesis by blast
qed

text \<open>
  The schema of a Struct lists its public fields in order, each with the schema of its type, and
  requires those that have no default and are not optional.
\<close>
theorem struct_schema_fields:
  assumes "ci_kind (CT k) = StructClass (Inr fs)" and "own_schema CT (TClass k) = None"
    and "distinct (map fi_name fs)"
    and "fst (extract_json_schema n CT None (TClass k) (after_calls CT calls)) = Inr v"
  defines "shown \<equiv> filter (\<lambda>f. \<not> startswith (fi_name f) ''_'') fs"
  shows "\<exists>ss. list_all2 (\<lambda>f s. schema_of CT (fi_type f) s) shown ss \<and>
    v = object_schema (zip (map fi_name shown) ss)
      (map fi_name (filter (\<lambda>f. fi_default f = None \<and> \<not> is_optional (fi_type f)) shown))"
  unfolding shown_def by (rule struct_fields_schema [OF assms(1-4)])

theorem struct_schema_fields_witness:
  "\<exists>n ss. fst (extract_json_schema n message_classes None (TClass ''TaskError'') (after_calls message_classes [])) =
    Inr (object_schema (zip [''code'', ''message'', ''details''] ss) [''code'', ''message''])"
proof -
  have d: "dget ''TaskError'' message_fields = Some TaskError_fields" by (simp add: dget_def message_fields_def)
  from message_extracts [of "''TaskError''"] obtain v n where
    "fst (extract_json_schema n message_classes None (TClass ''TaskError'') (after_calls message_classes [])) = Inr v"
    by blast
  from struct_schema_fields [OF kind_message [OF d] own_message message_names_distinct [OF d] this] this
  show ?thesis by (auto simp: TaskError_fields_def fld_def opt_def startswith_def)
qed

text \<open>
  Every message class of the protocol has a schema: with enough stack, the extraction returns an
  object schema whose properties are the fields in order, each with the schema of its type, and
  whose required names are exactly the fields without a default.
\<close>
theorem message_schema:
  assumes "dget k message_fields = Some fs"
  shows "\<exists>N. \<forall>n\<ge>N. \<forall>calls. \<exists>ss. list_all2 (\<lambda>f s. schema_of message_classes (fi_type f) s) fs ss \<and>
    fst (extract_json_schema n message_classes None (TClass k) (after_calls message_classes calls)) =
      Inr (object_schema (zip (map fi_name fs) ss) (map fi_name (filter (\<lambda>f. fi_default f = None) fs)))"
proof -
  from message_extracts [of k] obtain v N where
    N: "\<forall>n\<ge>N. \<forall>calls. fst (extract_json_schema n message_classes None (TClass k) (after_calls message_classes calls)) = Inr v"
    by blast
  have f1: "filter (\<lambda>f. \<not> startswith (fi_name f) ''_'') fs = fs"
    using message_field [OF assms] by (simp add: filter_id_conv)
  have f2: "filter (\<lambda>f. fi_default f = None \<and> \<not> is_optional (fi_type f)) fs = filter (\<lambda>f. fi_default f = None) fs"
    using message_field(4) [OF assms] by (auto intro: filter_cong)
  show ?thesis
    using struct_fields_schema [OF kind_message [OF assms] own_message message_names_distinct [OF assms] N [rule_format, of _ _]]
      N by (fastforce simp: f1 f2)
qed

theorem message_schema_witness:
  "\<exists>n ss. fst (extract_json_schema n message_classes None (TClass ''TaskPayload'') (after_calls message_classes [])) =
    Inr (object_schema (zip (map fi_name TaskPayload_fields) ss) [''job_id'', ''task_id'', ''type''])"
proof -
  have "dget ''TaskPayload'' message_fields = Some TaskPayload_fields" by (simp add: dget_def message_fields_def)
  moreover have "map fi_name (filter (\<lambda>f. fi_default f = None) TaskPayload_fields) = [''job_id'', ''task_id'', ''type'']"
    by (simp add: TaskPayload_fields_def fld_def)
  ultimately show ?thesis using message_schema [of "''TaskPayload''" TaskPayload_fields] by fastforce
qed

text \<open>
  A Struct with a public field that refers to the Struct itself, directly or inside a union, a
  list or Annotated, has no schema: the extraction raises whatever the stack and whatever
  extractions came before.
\<close>
theorem self_reference_raises:
  assumes "ci_kind (CT k) = StructClass (Inr fs)" and "own_schema CT (TClass k) = None"
    and "f \<in> set fs" and "\<not> startswith (fi_name f) ''_''" and "k \<in> refs (fi_type f)"
  shows "\<exists>e. fst (extract_json_schema n CT None (TClass k) (after_calls CT calls)) = Inl e"
proof (cases "fst (extract_json_schema n CT None (TClass k) (after_calls CT calls))")
  case (Inr v)
  have "class_view CT k = ObjectOf (map struct_field fs)" using assms(1,2) by (simp add: class_view_def)
  moreover have "struct_field f \<in> set (public (map struct_field fs))"
    using assms(3,4) by (auto simp: public_def struct_field_def)
  moreover have "schema_of CT (TClass k) v" by (rule after_calls_class [OF _ assms(2) Inr]) (simp add: assms(1))
  ultimately have "k \<notin> refs (TClass k)"
    using assms(5) by (intro self_reference_no_schema) (auto simp: struct_field_def)
  then show ?thesis by simp
qed simp

definition node_classes :: classes where
  "node_classes k = plain_class (if k = ''Node''
     then StructClass (Inr [fld ''value'' TInt None, fld ''next'' (opt (TClass ''Node'')) (Some PNone)])
     else PlainClass)"

theorem self_reference_raises_witness:
  "\<forall>n calls. \<exists>e. fst (extract_json_schema n node_classes None (TClass ''Node'') (after_calls node_classes calls)) = Inl e"
  by (intro allI self_reference_raises
      [where fs = "[fld ''value'' TInt None, fld ''next'' (opt (TClass ''Node'')) (Some PNone)]"
        and f = "fld ''next'' (opt (TClass ''Node'')) (Some PNone)"])
    (simp_all add: node_classes_def plain_class_def own_schema_def fld_def opt_def startswith_def)

text \<open>The error is the exhausted stack, whatever its size; a list of such objects has no schema.\<close>

lemma node_stack_exhausted:
  "map_of c (TClass ''Node'') = None \<Longrightarrow>
    python_type_to_json_schema n node_classes (TClass ''Node'') c = (Inl stack_exhausted, c)"
proof (induction n rule: less_induct)
  case (less n)
  have view: "class_view node_classes ''Node'' =
      ObjectOf [(''value'', TInt, True), (''next'', opt (TClass ''Node''), False)]"
    by (simp add: class_view_def own_schema_def node_classes_def plain_class_def fld_def struct_field_def)
  have own: "own_schema node_classes (TClass ''Node'') = None"
    by (simp add: own_schema_def node_classes_def plain_class_def)
  have cf: "class_fields node_classes (TClass ''Node'') =
      Some (Inr [(''value'', TInt, True), (''next'', opt (TClass ''Node''), False)])"
    by (simp add: node_classes_def plain_class_def fld_def struct_field_def)
  show ?case
  proof (cases n)
    case (Suc m)
    have loop: "field_loop (python_type_to_json_schema m node_classes)
        [(''value'', TInt, True), (''next'', opt (TClass ''Node''), False)] [] [] c = (Inl stack_exhausted, c)"
    proof (cases m)
      case (Suc i)
      have "python_type_to_json_schema m node_classes TInt c = (Inr (type_schema ''integer''), c)"
        by (simp add: Suc step_other view_of_def)
      moreover have "python_type_to_json_schema m node_classes (opt (TClass ''Node'')) c = (Inl stack_exhausted, c)"
        using less.IH [of i] less.prems \<open>n = Suc m\<close>
        by (simp add: Suc opt_def step_other view_of_def hbind_def)
      ultimately show ?thesis by (simp add: hbind_def startswith_def)
    qed (simp add: hbind_def startswith_def)
    have "extract_with (python_type_to_json_schema m node_classes) node_classes None (TClass ''Node'') c =
        (Inl stack_exhausted, c)"
      using less.prems by (simp add: extract_with_def extract_uncached_def custom_schema_def own cf loop
          del: field_loop.simps class_fields.simps)
    then show ?thesis by (simp add: Suc step_class view hbind_def)
  qed simp
qed

lemma node_list_has_no_schema:
  "fst (extract_json_schema n node_classes None (TListOf (TClass ''Node'')) []) = Inr PNone"
  by (cases n) (simp_all add: extract_json_schema_def extract_with_def extract_uncached_def custom_schema_def
      own_schema_def none_on_error_def step_other view_of_def hbind_def node_stack_exhausted is_exception_def stack_exhausted_def)

text \<open>A Struct field whose default is an empty list is required, as only \<open>default\<close> is looked at.\<close>

lemma factory_field_required:
  "fst (extract_json_schema 2 (\<lambda>k. plain_class (StructClass
      (Inr [(fld ''tags'' (TListOf TStr) None)\<lparr>fi_factory := True\<rparr>]))) None (TClass ''Job'') []) =
    Inr (object_schema [(''tags'', array_schema (type_schema ''string''))] [''tags''])"
  by (simp add: extract_json_schema_def extract_with_def extract_uncached_def custom_schema_def own_schema_def
      plain_class_def fld_def struct_field_def startswith_def hbind_def lift_def numeral_2_eq_2 step_other view_of_def)

end
