(* ===== verification/Rxon_Conformance.thy ===== *)
theory Rxon_Conformance
  imports Rxon_Schema_Laws
begin

text \<open>
  The schema a type is extracted to accepts the wire form of every value of the type.
  \<open>conforms\<close> is the meaning JSON Schema gives the keywords the extraction writes; \<open>typed\<close> says
  which JSON values a serialised value of an annotation can be: a Struct omits fields that have
  a default, and writes nothing but its fields.
\<close>

subsection \<open>The meaning of the keywords\<close>

fun type_accepts :: "string \<Rightarrow> pyval \<Rightarrow> bool" where
  "type_accepts s (PStr _) = (s = ''string'')"
| "type_accepts s (PInt _) = (s = ''integer'' \<or> s = ''number'')"
| "type_accepts s (PFloat f) = (s = ''number'' \<or> s = ''integer'' \<and> (case f of Fin r \<Rightarrow> is_integer r | _ \<Rightarrow> False))"
| "type_accepts s (PBool _) = (s = ''boolean'')"
| "type_accepts s PNone = (s = ''null'')"
| "type_accepts s (PDict _) = (s = ''object'')"
| "type_accepts s (PList _) = (s = ''array'')"
| "type_accepts s _ = False"

definition elements :: "pyval \<Rightarrow> pyval list" where
  "elements v = (case v of PList vs \<Rightarrow> vs | _ \<Rightarrow> [])"

definition has_names :: "pyval \<Rightarrow> pyval \<Rightarrow> bool" where
  "has_names rs v =
     (case v of PDict e \<Rightarrow> list_all (\<lambda>r. case str_of r of Some n \<Rightarrow> n \<in> set (map fst e) | None \<Rightarrow> False) (elements rs)
      | _ \<Rightarrow> True)"

definition no_more_names :: "pyval dict \<Rightarrow> pyval \<Rightarrow> bool" where
  "no_more_names d v =
     (dget ''additionalProperties'' d = Some (PBool False) \<longrightarrow>
       set (names_of v) \<subseteq> (case dget ''properties'' d of Some ps \<Rightarrow> set (names_of ps) | None \<Rightarrow> {}))"

fun conforms :: "pyval \<Rightarrow> pyval \<Rightarrow> bool"
  and keywords_hold :: "pyval dict \<Rightarrow> pyval \<Rightarrow> bool"
  and some_conforms :: "pyval list \<Rightarrow> pyval \<Rightarrow> bool"
  and properties_hold :: "pyval dict \<Rightarrow> pyval \<Rightarrow> bool" where
  "conforms (PDict d) v = (keywords_hold d v \<and> no_more_names d v)"
| "conforms _ v = False"
| "keywords_hold [] v = True"
| "keywords_hold ((k, x) # d) v =
     ((if k = ''type'' then (case str_of x of Some s \<Rightarrow> type_accepts s v | None \<Rightarrow> False)
       else if k = ''enum'' then py_mem v (elements x)
       else if k = ''items'' then list_all (\<lambda>w. conforms x w) (elements v)
       else if k = ''anyOf'' then (case x of PList ss \<Rightarrow> some_conforms ss v | _ \<Rightarrow> False)
       else if k = ''properties'' then (case x of PDict ps \<Rightarrow> properties_hold ps v | _ \<Rightarrow> False)
       else if k = ''required'' then has_names x v
       else True)
      \<and> keywords_hold d v)"
| "some_conforms [] v = False"
| "some_conforms (s # ss) v = (conforms s v \<or> some_conforms ss v)"
| "properties_hold [] v = True"
| "properties_hold ((n, s) # ps) v =
     ((case v of PDict e \<Rightarrow> (case dget n e of Some w \<Rightarrow> conforms s w | None \<Rightarrow> True) | _ \<Rightarrow> True)
      \<and> properties_hold ps v)"

lemma some_conforms_conv: "some_conforms ss v \<longleftrightarrow> (\<exists>s\<in>set ss. conforms s v)"
  by (induction ss) auto

lemma properties_hold_conv:
  "properties_hold ps (PDict e) \<longleftrightarrow> (\<forall>(n, s)\<in>set ps. \<forall>w. dget n e = Some w \<longrightarrow> conforms s w)"
  by (induction ps) (auto split: option.splits)

lemma no_more_names_Nil [simp]: "no_more_names [] v"
  by (simp add: no_more_names_def dget_def)

lemma conforms_simps [simp]:
  "conforms (PDict []) v"
  "conforms (type_schema k) v \<longleftrightarrow> type_accepts k v"
  "conforms (any_of ss) v \<longleftrightarrow> (\<exists>s\<in>set ss. conforms s v)"
  "conforms (array_schema s) v \<longleftrightarrow> type_accepts ''array'' v \<and> (\<forall>w\<in>set (elements v). conforms s w)"
  "conforms (enum_schema vs) v \<longleftrightarrow> type_accepts ''string'' v \<and> py_mem v vs"
  by (simp_all add: no_more_names_def dget_def type_schema_def any_of_def array_schema_def enum_schema_def
      some_conforms_conv list_all_iff elements_def)

lemma conforms_object:
  "conforms (object_schema ps req) (PDict e) \<longleftrightarrow>
    (\<forall>(n, s)\<in>set ps. \<forall>w. dget n e = Some w \<longrightarrow> conforms s w) \<and>
    set req \<subseteq> fst ` set e \<and> fst ` set e \<subseteq> fst ` set ps"
  by (auto simp: object_schema_def no_more_names_def dget_def has_names_def elements_def names_of_def
      properties_hold_conv list_all_iff)

subsection \<open>Values of an annotation on the wire\<close>

inductive typed :: "classes \<Rightarrow> pyval \<Rightarrow> pytype \<Rightarrow> bool" for CT where
  any: "typed CT v TAny"
| none: "typed CT PNone TNoneType"
| str: "typed CT (PStr s) TStr"
| uuid: "typed CT (PStr s) TUUID"
| int: "typed CT (PInt i) TInt"
| float: "typed CT (PFloat (Fin r)) TFloat"
| int_float: "typed CT (PInt i) TFloat"
| bool: "typed CT (PBool b) TBool"
| union_type: "t \<in> set ts \<Longrightarrow> typed CT v t \<Longrightarrow> typed CT v (TUnionType ts)"
| union: "t \<in> set ts \<Longrightarrow> typed CT v t \<Longrightarrow> typed CT v (TUnion ts)"
| list: "typed CT (PList vs) TList"
| list_of: "\<forall>v\<in>set vs. typed CT v t \<Longrightarrow> typed CT (PList vs) (TListOf t)"
| dict: "typed CT (PDict d) TDict"
| dict_of: "\<forall>(n, v)\<in>set d. typed CT v t \<Longrightarrow> typed CT (PDict d) (TDictOf TStr t)"
| annotated: "typed CT v t \<Longrightarrow> typed CT v (TAnnotated t ms)"
| enum: "ci_kind (CT k) = EnumClass vs \<Longrightarrow> PStr s \<in> set vs \<Longrightarrow> typed CT (PStr s) (TClass k)"
| struct: "ci_kind (CT k) = StructClass (Inr fs) \<Longrightarrow> distinct (map fst d) \<Longrightarrow>
    \<forall>(n, v)\<in>set d. \<exists>f\<in>set fs. fi_name f = n \<and> typed CT v (fi_type f) \<Longrightarrow>
    \<forall>f\<in>set fs. fi_default f = None \<and> \<not> fi_factory f \<longrightarrow> fi_name f \<in> fst ` set d \<Longrightarrow>
    typed CT (PDict d) (TClass k)"

text \<open>
  The tables for which the schema of a Struct is that of its wire form: no method that gives
  another schema, no private field, no field with a default factory.
\<close>

definition transparent_structs :: "classes \<Rightarrow> bool" where
  "transparent_structs CT \<longleftrightarrow>
     (\<forall>k fs. ci_kind (CT k) = StructClass (Inr fs) \<longrightarrow>
       own_schema CT (TClass k) = None \<and> distinct (map fi_name fs) \<and>
       (\<forall>f\<in>set fs. \<not> startswith (fi_name f) ''_'' \<and> \<not> fi_factory f))"

lemma thashable_view: "view_of CT t = v \<Longrightarrow> (\<forall>e. v \<noteq> Fails e) \<Longrightarrow> shape CT t = v"
  by (auto simp: view_of_def split: if_splits)

lemma schema_of_shape: "schema_of CT t s \<Longrightarrow> view_of CT t = shape CT t"
  by (auto simp: view_of_def schema_of_unfold [of CT t s] split: if_splits)

lemma struct_schema_shape:
  assumes "transparent_structs CT" and "ci_kind (CT k) = StructClass (Inr fs)" and "schema_of CT (TClass k) s"
  shows "\<exists>ss. list_all2 (\<lambda>f. schema_of CT (fi_type f)) fs ss \<and>
    s = object_schema (zip (map fi_name fs) ss) (map fi_name (filter (\<lambda>f. fi_default f = None \<and> \<not> is_optional (fi_type f)) fs))"
proof -
  let ?fs = "map struct_field fs"
  from assms(1,2) have own: "own_schema CT (TClass k) = None" and dist: "distinct (map fi_name fs)"
    and pub: "\<forall>f\<in>set fs. \<not> startswith (fi_name f) ''_''" by (auto simp: transparent_structs_def)
  from own assms(2) have "view_of CT (TClass k) = ObjectOf ?fs" by (intro class_fields_view) simp_all
  with assms(3) schema_of_unfold [of CT "TClass k" s] obtain ss where
    s: "s = fields_schema ?fs ss" "list_all2 (\<lambda>f s. schema_of CT (fst (snd f)) s) (public ?fs) ss" by auto
  have p: "public ?fs = ?fs" using pub by (auto simp: public_def struct_field_def filter_id_conv)
  then have "length ss = length fs" using list_all2_lengthD [OF s(2)] by simp
  with dist have "dict_of (zip (map fst ?fs) ss) = zip (map fi_name fs) ss"
    unfolding dict_of_def by (subst foldl_dset_distinct) (simp_all add: struct_field_def o_def)
  with s p show ?thesis
    by (auto simp: fields_schema_def required_names_def list_all2_map1 struct_field_def filter_map o_def)
qed

lemma struct_conforms:
  assumes CT: "transparent_structs CT" and k: "ci_kind (CT k) = StructClass (Inr fs)" and s: "schema_of CT (TClass k) s"
    and fields: "\<forall>(n, v)\<in>set d. \<exists>f\<in>set fs. fi_name f = n \<and> (\<forall>s. schema_of CT (fi_type f) s \<longrightarrow> conforms s v)"
    and required: "\<forall>f\<in>set fs. fi_default f = None \<and> \<not> fi_factory f \<longrightarrow> fi_name f \<in> fst ` set d"
  shows "conforms s (PDict d)"
proof -
  from struct_schema_shape [OF CT k s] obtain ss where
    ss: "list_all2 (\<lambda>f. schema_of CT (fi_type f)) fs ss"
    and s: "s = object_schema (zip (map fi_name fs) ss)
      (map fi_name (filter (\<lambda>f. fi_default f = None \<and> \<not> is_optional (fi_type f)) fs))" by blast
  have len: "length ss = length fs" using list_all2_lengthD [OF ss] by simp
  have tr: "distinct (map fi_name fs)" "\<forall>f\<in>set fs. \<not> fi_factory f"
    using CT k by (auto simp: transparent_structs_def)
  have "conforms r w" if n: "(n, r) \<in> set (zip (map fi_name fs) ss)" and w: "dget n d = Some w" for n r w
  proof -
    from n obtain i where i: "i < length fs" "n = fi_name (fs ! i)" "r = ss ! i"
      by (auto simp: in_set_conv_nth len)
    from w have "(n, w) \<in> set d" by (simp add: dget_def map_of_SomeD)
    with fields obtain f where f: "f \<in> set fs" "fi_name f = n"
      "\<And>s. schema_of CT (fi_type f) s \<Longrightarrow> conforms s w" by fastforce
    from f(1,2) i tr(1) have "f = fs ! i"
      by (metis (no_types, lifting) distinct_map in_set_conv_nth inj_on_def nth_mem)
    with f(3) ss i show ?thesis by (auto simp: list_all2_conv_all_nth)
  qed
  moreover have "fst ` set d \<subseteq> fst ` set (zip (map fi_name fs) ss)"
  proof -
    have "fst ` set (zip (map fi_name fs) ss) = fi_name ` set fs"
      using len by (metis length_map list.set_map map_fst_zip)
    then show ?thesis using fields by fastforce
  qed
  ultimately show ?thesis
    unfolding s conforms_object using required tr(2) by auto
qed

lemma typed_conforms:
  assumes "transparent_structs CT"
  shows "typed CT v t \<Longrightarrow> schema_of CT t s \<Longrightarrow> conforms s v"
proof (induction arbitrary: s rule: typed.induct)
  case (union_type t ts v)
  from schema_of_shape [OF union_type.prems] union_type.prems schema_of_unfold [of CT "TUnionType ts" s]
  obtain ss where "s = any_of ss" "list_all2 (schema_of CT) ts ss" by auto
  moreover from list_all2_pick [OF this(2) union_type.hyps(1)] obtain r where "r \<in> set ss" "schema_of CT t r" by blast
  ultimately show ?case using union_type.IH by auto
next
  case (union t ts v)
  from schema_of_shape [OF union.prems] union.prems schema_of_unfold [of CT "TUnion ts" s]
  obtain ss where "s = any_of ss" "list_all2 (schema_of CT) ts ss" by auto
  moreover from list_all2_pick [OF this(2) union.hyps(1)] obtain r where "r \<in> set ss" "schema_of CT t r" by blast
  ultimately show ?case using union.IH by auto
next
  case (list_of vs t)
  from schema_of_shape [OF list_of.prems] list_of.prems schema_of_unfold [of CT "TListOf t" s]
  obtain r where "s = array_schema r" "schema_of CT t r" by auto
  with list_of.IH show ?case by (simp add: elements_def)
next
  case (dict_of d t)
  with schema_of_unfold [of CT "TDictOf TStr t" s] have "s = type_schema ''object''"
    by (simp add: view_of_def split: if_splits)
  then show ?case by simp
next
  case (list vs)
  from schema_of_shape [OF list] list schema_of_unfold [of CT TList s]
  obtain r where "s = array_schema r" "schema_of CT TAny r" by auto
  with schema_of_unfold [of CT TAny r] show ?case by (simp add: view_of_def)
next
  case (annotated v t ms)
  from schema_of_shape [OF annotated.prems] annotated.prems schema_of_unfold [of CT "TAnnotated t ms" s]
  have "schema_of CT t s" by simp
  then show ?case by (rule annotated.IH)
next
  case (enum k vs x)
  then have "s = enum_schema vs"
    using schema_of_unfold [of CT "TClass k" s] by (simp add: view_of_def class_view_def)
  with enum(2) show ?case by (auto simp: py_mem_iff)
next
  case (struct k fs d)
  show ?case
    by (rule struct_conforms [OF assms struct.hyps(1) struct.prems _ struct.hyps(3)]) (use struct.IH in fast)
qed (use schema_of_unfold in \<open>force simp: view_of_def\<close>)+

subsection \<open>Properties\<close>


lemma transparent_messages: "transparent_structs message_classes"
  unfolding transparent_structs_def
proof (intro allI impI)
  fix k fs
  assume "ci_kind (message_classes k) = StructClass (Inr fs)"
  then have d: "dget k message_fields = Some fs"
    by (cases "dget k message_fields") (auto simp: message_classes_def plain_class_def)
  show "own_schema message_classes (TClass k) = None \<and> distinct (map fi_name fs) \<and>
      (\<forall>f\<in>set fs. \<not> startswith (fi_name f) ''_'' \<and> \<not> fi_factory f)"
    using message_field [OF d] message_names_distinct [OF d] by simp
qed

text \<open>
  C16: Every well-typed protocol message, as it is written on the wire with defaults left out,
  conforms to the schema extracted for its class.
\<close>
theorem message_schema_accepts:
  assumes "typed message_classes v (TClass k)"
  shows "\<exists>N. \<forall>n\<ge>N. \<forall>calls. \<exists>s. conforms s v \<and>
    fst (extract_json_schema n message_classes None (TClass k) (after_calls message_classes calls)) = Inr s"
proof -
  from message_extracts [of k] obtain s N where "extracted message_classes (TClass k) s"
    and N: "\<forall>n\<ge>N. \<forall>calls. fst (extract_json_schema n message_classes None (TClass k) (after_calls message_classes calls)) = Inr s"
    by blast
  from this(1) typed_conforms [OF transparent_messages assms] have "conforms s v" by (simp add: extracted_def)
  with N show ?thesis by blast
qed

lemma typed_task_result:
  "typed message_classes (PDict [(''job_id'', PStr ''j''), (''task_id'', PStr ''t''),
     (''error'', PDict [(''code'', PStr ''c''), (''message'', PStr ''m'')])]) (TClass ''TaskResult'')"
proof -
  have e: "typed message_classes (PDict [(''code'', PStr ''c''), (''message'', PStr ''m'')]) (TClass ''TaskError'')"
    by (rule typed.struct [where fs = TaskError_fields])
      (auto simp: kind_message dget_def message_fields_def TaskError_fields_def fld_def intro: typed.str)
  show ?thesis
    by (rule typed.struct [where fs = TaskResult_fields])
      (auto simp: kind_message dget_def message_fields_def TaskResult_fields_def fld_def opt_def
        intro: typed.str typed.union_type [OF _ e])
qed

theorem message_schema_accepts_witness:
  "\<exists>n s. conforms s (PDict [(''job_id'', PStr ''j''), (''task_id'', PStr ''t''),
      (''error'', PDict [(''code'', PStr ''c''), (''message'', PStr ''m'')])]) \<and>
    fst (extract_json_schema n message_classes None (TClass ''TaskResult'') (after_calls message_classes [])) = Inr s"
  using message_schema_accepts [OF typed_task_result] by blast

lemma conforms_object_iff:
  "conforms (object_schema ps req) v \<longleftrightarrow>
    (\<exists>e. v = PDict e \<and> (\<forall>(n, s)\<in>set ps. \<forall>w. dget n e = Some w \<longrightarrow> conforms s w) \<and>
      set req \<subseteq> fst ` set e \<and> fst ` set e \<subseteq> fst ` set ps)"
proof (cases "\<exists>e. v = PDict e")
  case True
  then obtain e where "v = PDict e" ..
  then show ?thesis by (simp only: conforms_object pyval.inject ex_simps) simp
next
  case False
  then show ?thesis by (cases v) (simp_all add: object_schema_def)
qed

lemma zip_fields:
  "list_all2 (\<lambda>f. S (ty f)) fs ss \<Longrightarrow> (\<And>t r r'. S t r \<Longrightarrow> S t r' \<Longrightarrow> r = r') \<Longrightarrow>
    (\<forall>(n, r)\<in>set (zip (map nm fs) ss). Q n r) \<longleftrightarrow> (\<forall>f\<in>set fs. \<forall>r. S (ty f) r \<longrightarrow> Q (nm f) r)"
proof (induction rule: list_all2_induct)
  case (Cons f fs s ss)
  have "Q (nm f) s \<longleftrightarrow> (\<forall>r. S (ty f) r \<longrightarrow> Q (nm f) r)" using Cons.hyps(1) Cons.prems by blast
  with Cons.IH [OF Cons.prems] show ?case by simp
qed simp

text \<open>
  C32: The schema extracted for a message class accepts exactly the JSON objects with no other
  names than the fields of the class, with every field that has no default, and whose values
  conform to the schemas of the field types.
\<close>
theorem message_schema_decides:
  assumes "dget k message_fields = Some fs"
  shows "\<exists>N. \<forall>n\<ge>N. \<forall>calls. \<exists>s.
    fst (extract_json_schema n message_classes None (TClass k) (after_calls message_classes calls)) = Inr s \<and>
    (\<forall>v. conforms s v \<longleftrightarrow> (\<exists>d. v = PDict d \<and>
      fst ` set d \<subseteq> fi_name ` set fs \<and>
      (\<forall>f\<in>set fs. fi_default f = None \<longrightarrow> fi_name f \<in> fst ` set d) \<and>
      (\<forall>f\<in>set fs. \<forall>r. schema_of message_classes (fi_type f) r \<longrightarrow> (\<forall>w. dget (fi_name f) d = Some w \<longrightarrow> conforms r w))))"
proof -
  from message_extracts [of k] obtain s N where ex: "extracted message_classes (TClass k) s"
    and N: "\<forall>n\<ge>N. \<forall>calls. fst (extract_json_schema n message_classes None (TClass k) (after_calls message_classes calls)) = Inr s"
    by blast
  from ex have "schema_of message_classes (TClass k) s" by (simp add: extracted_def)
  from struct_schema_shape [OF transparent_messages kind_message [OF assms] this] obtain ss where
    ss: "list_all2 (\<lambda>f. schema_of message_classes (fi_type f)) fs ss" and
    s: "s = object_schema (zip (map fi_name fs) ss)
      (map fi_name (filter (\<lambda>f. fi_default f = None \<and> \<not> is_optional (fi_type f)) fs))" by blast
  have len: "length ss = length fs" using list_all2_lengthD [OF ss] by simp
  have names: "fst ` set (zip (map fi_name fs) ss) = fi_name ` set fs"
    using len by (metis length_map list.set_map map_fst_zip)
  have fields: "(\<forall>(n, r)\<in>set (zip (map fi_name fs) ss). \<forall>w. dget n d = Some w \<longrightarrow> conforms r w) \<longleftrightarrow>
      (\<forall>f\<in>set fs. \<forall>r. schema_of message_classes (fi_type f) r \<longrightarrow> (\<forall>w. dget (fi_name f) d = Some w \<longrightarrow> conforms r w))" for d
    by (rule zip_fields [where S = "schema_of message_classes" and ty = fi_type, OF ss]) (rule schema_of_det)
  have req: "set (map fi_name (filter (\<lambda>f. fi_default f = None \<and> \<not> is_optional (fi_type f)) fs)) \<subseteq> X \<longleftrightarrow>
      (\<forall>f\<in>set fs. fi_default f = None \<longrightarrow> fi_name f \<in> X)" for X
    using message_field(4) [OF assms] by auto
  have "conforms s v \<longleftrightarrow> (\<exists>d. v = PDict d \<and> fst ` set d \<subseteq> fi_name ` set fs \<and>
      (\<forall>f\<in>set fs. fi_default f = None \<longrightarrow> fi_name f \<in> fst ` set d) \<and>
      (\<forall>f\<in>set fs. \<forall>r. schema_of message_classes (fi_type f) r \<longrightarrow> (\<forall>w. dget (fi_name f) d = Some w \<longrightarrow> conforms r w)))" for v
    unfolding s conforms_object_iff names fields req by (intro iff_exI) (simp only: conj_ac)
  with N show ?thesis by blast
qed

theorem message_schema_decides_witness:
  "\<exists>n s. fst (extract_json_schema n message_classes None (TClass ''TaskPayload'') (after_calls message_classes [])) = Inr s \<and>
    \<not> conforms s (PDict [(''job_id'', PStr ''j''), (''type'', PStr ''t'')])"
proof -
  have "dget ''TaskPayload'' message_fields = Some TaskPayload_fields" by (simp add: dget_def message_fields_def)
  from message_schema_decides [OF this] obtain n s where
    "fst (extract_json_schema n message_classes None (TClass ''TaskPayload'') (after_calls message_classes [])) = Inr s"
    and c: "\<And>v. conforms s v \<Longrightarrow> \<exists>d. v = PDict d \<and> (\<forall>f\<in>set TaskPayload_fields. fi_default f = None \<longrightarrow> fi_name f \<in> fst ` set d)"
    by (metis order_refl)
  moreover have "fld ''task_id'' TStr None \<in> set TaskPayload_fields" by (simp add: TaskPayload_fields_def)
  ultimately show ?thesis by (fastforce simp: fld_def)
qed

subsection \<open>Extraction and validation\<close>







text \<open>An enumeration of integers is described as strings, so that no value conforms.\<close>

lemma int_enum_unsatisfiable: "\<not> conforms (enum_schema (map PInt is)) v"
  by (cases v) (auto simp: py_mem_iff)

end
