(* ===== verification/Rxon_Signature.thy ===== *)
theory Rxon_Signature
  imports Rxon_Conformance
begin

text \<open>
  \<^verbatim>\<open>src/rxon/schema.py\<close>, the contract of a handler: \<open>extract_input_schema_from_func\<close>,
  \<open>extract_schema_from_func\<close>, \<open>extract_output_schema_from_func\<close> and
  \<open>extract_skill_contract\<close>.  A function object is what the code asks of it: whether it is
  callable, its signature and its type hints (or the exceptions of \<open>inspect\<close> and \<open>typing\<close>),
  whether it takes new attributes, and the two attributes that memoise its schemas.
\<close>

subsection \<open>Functions\<close>

datatype param_kind = POSITIONAL_ONLY | POSITIONAL_OR_KEYWORD | VAR_POSITIONAL | KEYWORD_ONLY | VAR_KEYWORD

record param =
  p_kind :: param_kind
  p_annotation :: pytype
  p_default :: "pyval option" \<comment> \<open>\<open>None\<close> is \<open>Parameter.empty\<close>\<close>

record pyfunc =
  fn_callable :: bool
  fn_signature :: "exn + param dict"
  fn_hints :: "bool \<Rightarrow> exn + pytype dict" \<comment> \<open>\<open>get_type_hints\<close>, by \<open>include_extras\<close>\<close>
  fn_attributes :: bool
  fn_input_schema :: "pyval option"
  fn_output_schema :: "pyval option"

definition system_param_names :: "string list" where
  "system_param_names =
     [''ctx'', ''context'', ''task_files'', ''actions'', ''self'', ''cls'', ''job_id'',
      ''current_state'', ''state'', ''data_stores'', ''client'']"

definition resolved_hints :: "pyfunc \<Rightarrow> exn + pytype dict" where
  "resolved_hints f =
     (case fn_hints f True of
        Inr h \<Rightarrow> Inr h
      | Inl e \<Rightarrow> if \<not> is_exception e then Inl e else
          (case fn_hints f False of
             Inr h \<Rightarrow> Inr h
           | Inl e' \<Rightarrow> if is_exception e' then Inr [] else Inl e'))"

definition annotation :: "pytype dict \<Rightarrow> string \<Rightarrow> param \<Rightarrow> pytype" where
  "annotation hints name p = (case dget name hints of Some t \<Rightarrow> t | None \<Rightarrow> p_annotation p)"

definition is_header :: "marker \<Rightarrow> bool" where
  "is_header m \<longleftrightarrow> marker_class m = ''Header'' \<or> marker_is_header m"

fun header_annotated :: "pytype \<Rightarrow> bool" where
  "header_annotated (TAnnotated _ ms) = list_ex is_header ms"
| "header_annotated _ = False"

fun business_params :: "pytype dict \<Rightarrow> param dict \<Rightarrow> (string \<times> param \<times> pytype) list" where
  "business_params hints [] = []"
| "business_params hints ((name, p) # ps) =
     (if name \<in> set system_param_names then business_params hints ps
      else if p_kind p = VAR_POSITIONAL \<or> p_kind p = VAR_KEYWORD then business_params hints ps
      else if header_annotated (annotation hints name p) then business_params hints ps
      else (name, p, annotation hints name p) # business_params hints ps)"

fun actual_type :: "pytype \<Rightarrow> pytype" where
  "actual_type (TAnnotated t _) = t"
| "actual_type t = t"

fun is_structured_model :: "classes \<Rightarrow> pytype \<Rightarrow> bool" where
  "is_structured_model CT (TAnnotated t _) =
     (case t of TClass k \<Rightarrow> class_fields CT t \<noteq> None \<or>
        ci_model_json_schema (CT k) \<noteq> Absent \<or> ci_schema (CT k) \<noteq> Absent | _ \<Rightarrow> False)"
| "is_structured_model CT (TClass k) =
     (class_fields CT (TClass k) \<noteq> None \<or> ci_model_json_schema (CT k) \<noteq> Absent \<or> ci_schema (CT k) \<noteq> Absent)"
| "is_structured_model CT _ = False"

subsection \<open>The input schema\<close>

fun is_dict_type :: "pytype \<Rightarrow> bool" where
  "is_dict_type TDict = True"
| "is_dict_type (TDictOf _ _) = True"
| "is_dict_type _ = False"

definition free_form :: "string \<Rightarrow> pytype \<Rightarrow> bool" where
  "free_form name ann \<longleftrightarrow> name = ''input'' \<and> (ann = TEmpty \<or> ann = TAny \<or> is_dict_type ann)"

definition or_else_schema :: "pyval \<Rightarrow> pyval \<Rightarrow> pyval" where
  "or_else_schema s d = (if truthy s then s else d)"

definition single_param_schema ::
  "nat \<Rightarrow> classes \<Rightarrow> extractor \<Rightarrow> string \<times> param \<times> pytype \<Rightarrow> pyval ext" where
  "single_param_schema n CT X = (\<lambda>(name, p, ann).
     if free_form name ann then lift (Inr PNone)
     else if is_structured_model CT (actual_type ann) then extract_json_schema n CT X (actual_type ann)
     else hbind (extract_json_schema n CT X (actual_type ann)) (\<lambda>s. lift (Inr
       (object_schema [(name, or_else_schema s (type_schema ''string''))]
         (if p_default p = None then [name] else [])))))"

definition param_schema :: "nat \<Rightarrow> classes \<Rightarrow> extractor \<Rightarrow> pytype \<Rightarrow> pyval ext" where
  "param_schema n CT X ann =
     (if actual_type ann = TEmpty \<or> actual_type ann = TAny then lift (Inr (PDict []))
      else hbind (extract_json_schema n CT X (actual_type ann)) (\<lambda>s. lift (Inr (or_else_schema s (PDict [])))))"

fun params_loop ::
  "nat \<Rightarrow> classes \<Rightarrow> extractor \<Rightarrow> (string \<times> param \<times> pytype) list \<Rightarrow> pyval dict \<Rightarrow> string list \<Rightarrow> pyval ext" where
  "params_loop n CT X [] properties required = lift (Inr (object_schema properties required))"
| "params_loop n CT X ((name, p, ann) # ps) properties required =
     hbind (param_schema n CT X ann) (\<lambda>s. params_loop n CT X ps (dset name s properties)
       (if p_default p = None then required @ [name] else required))"

definition params_schema :: "nat \<Rightarrow> classes \<Rightarrow> extractor \<Rightarrow> (string \<times> param \<times> pytype) list \<Rightarrow> pyval ext" where
  "params_schema n CT X ps =
     (case ps of [] \<Rightarrow> lift (Inr PNone) | [p] \<Rightarrow> single_param_schema n CT X p | _ \<Rightarrow> params_loop n CT X ps [] [])"

text \<open>The attribute is written when there is no custom extractor and the function takes it.\<close>

definition remember_input :: "extractor \<Rightarrow> pyval \<Rightarrow> pyfunc \<Rightarrow> pyfunc" where
  "remember_input X s f = (if X = None \<and> fn_attributes f then f\<lparr>fn_input_schema := Some s\<rparr> else f)"

definition extract_input_schema_from_func ::
  "nat \<Rightarrow> classes \<Rightarrow> extractor \<Rightarrow> pyfunc \<Rightarrow> tcache \<Rightarrow> (exn + pyval) \<times> pyfunc \<times> tcache" where
  "extract_input_schema_from_func n CT X f c =
     (if \<not> fn_callable f then (Inr PNone, f, c)
      else case (if X = None then fn_input_schema f else None) of
        Some s \<Rightarrow> (Inr s, f, c)
      | None \<Rightarrow> (case fn_signature f of
          Inl e \<Rightarrow> (if is_exception e then Inr PNone else Inl e, f, c)
        | Inr ps \<Rightarrow> (case resolved_hints f of
            Inl e \<Rightarrow> (Inl e, f, c)
          | Inr hints \<Rightarrow> (case params_schema n CT X (business_params hints ps) c of
              (Inl e, c1) \<Rightarrow> (Inl e, f, c1)
            | (Inr s, c1) \<Rightarrow> (Inr s, remember_input X s f, c1)))))"

definition extract_schema_from_func ::
  "nat \<Rightarrow> classes \<Rightarrow> extractor \<Rightarrow> pyfunc \<Rightarrow> string \<Rightarrow> pyval ext" where
  "extract_schema_from_func n CT X f arg_name = none_on_error
     (hbind (lift (fn_hints f False)) (\<lambda>hints.
       case dget arg_name hints of
         None \<Rightarrow> lift (Inr PNone)
       | Some t \<Rightarrow> extract_json_schema n CT X t))"

subsection \<open>The output schema\<close>

definition return_schema :: "nat \<Rightarrow> classes \<Rightarrow> extractor \<Rightarrow> pyfunc \<Rightarrow> pyval ext" where
  "return_schema n CT X f = none_on_error
     (hbind (lift (fn_hints f False)) (\<lambda>hints.
       case dget ''return'' hints of
         None \<Rightarrow> lift (Inr PNone)
       | Some t \<Rightarrow> if t = TNoneLit \<or> t = TNoneType \<or> is_dict_type t then lift (Inr PNone)
           else extract_json_schema n CT X t))"

definition remember_output :: "extractor \<Rightarrow> pyval \<Rightarrow> pyfunc \<Rightarrow> pyfunc" where
  "remember_output X s f = (if X = None \<and> fn_attributes f then f\<lparr>fn_output_schema := Some s\<rparr> else f)"

definition extract_output_schema_from_func ::
  "nat \<Rightarrow> classes \<Rightarrow> extractor \<Rightarrow> pyfunc \<Rightarrow> tcache \<Rightarrow> (exn + pyval) \<times> pyfunc \<times> tcache" where
  "extract_output_schema_from_func n CT X f c =
     (if \<not> fn_callable f then (Inr PNone, f, c)
      else case (if X = None then fn_output_schema f else None) of
        Some s \<Rightarrow> (Inr s, f, c)
      | None \<Rightarrow> (case return_schema n CT X f c of
          (Inl e, c1) \<Rightarrow> (Inl e, f, c1)
        | (Inr s, c1) \<Rightarrow> (Inr s, remember_output X s f, c1)))"

subsection \<open>The contract of a blueprint\<close>

text \<open>
  A blueprint, with \<open>None\<close> for an attribute it does not have; handlers are references to
  function objects, which several states may share.
\<close>

record blueprint =
  bp_start_state :: "string option"
  bp_handlers :: "nat dict option"
  bp_conditional_handlers :: "(string \<times> nat) list option"
  bp_end_states :: "string list option" \<comment> \<open>in the order the set is traversed\<close>
  bp_has_transitions :: bool
  bp_events_schema :: pyval

type_synonym ext_state = "(nat \<Rightarrow> pyfunc) \<times> tcache"

definition handler_of :: "blueprint \<Rightarrow> string \<Rightarrow> exn + nat option" where
  "handler_of b state =
     (case bp_handlers b of
        None \<Rightarrow> Inl (PyExn AttributeError ''handlers'')
      | Some h \<Rightarrow> Inr (dget state h))"

definition start_handler :: "blueprint \<Rightarrow> exn + nat option" where
  "start_handler b =
     (case bp_start_state b of
        None \<Rightarrow> Inr None
      | Some s \<Rightarrow> if s = [] then Inr None else
          rbind (handler_of b s) (\<lambda>h. Inr (case h of
            Some i \<Rightarrow> Some i
          | None \<Rightarrow> (case bp_conditional_handlers b of None \<Rightarrow> None | Some chs \<Rightarrow> dget s chs))))"

fun end_schema_loop ::
  "nat \<Rightarrow> classes \<Rightarrow> extractor \<Rightarrow> blueprint \<Rightarrow> string list \<Rightarrow> pyval list \<Rightarrow> ext_state \<Rightarrow>
    (exn + pyval list) \<times> ext_state" where
  "end_schema_loop n CT X b [] end_schemas \<sigma> = (Inr end_schemas, \<sigma>)"
| "end_schema_loop n CT X b (state # states) end_schemas \<sigma> =
     (case handler_of b state of
        Inl e \<Rightarrow> (Inl e, \<sigma>)
      | Inr None \<Rightarrow> end_schema_loop n CT X b states end_schemas \<sigma>
      | Inr (Some i) \<Rightarrow>
          (case extract_output_schema_from_func n CT X (fst \<sigma> i) (snd \<sigma>) of
             (Inl e, f, c) \<Rightarrow> (Inl e, (fst \<sigma>)(i := f), c)
           | (Inr s, f, c) \<Rightarrow> end_schema_loop n CT X b states
               (if truthy s \<and> \<not> py_mem s end_schemas then end_schemas @ [s] else end_schemas)
               ((fst \<sigma>)(i := f), c)))"

definition combine_schemas :: "pyval list \<Rightarrow> pyval" where
  "combine_schemas ss = (case ss of [] \<Rightarrow> PNone | [s] \<Rightarrow> s | _ \<Rightarrow> any_of ss)"

fun str_insert :: "string \<Rightarrow> string list \<Rightarrow> string list" where
  "str_insert s [] = [s]"
| "str_insert s (t # ts) = (if str_less t s then t # str_insert s ts else s # t # ts)"

definition sorted_set :: "string list \<Rightarrow> string list" where
  "sorted_set ss = foldr str_insert (remdups ss) []"

definition output_statuses :: "blueprint \<Rightarrow> string list" where
  "output_statuses b =
     (if bp_has_transitions b
      then sorted_set (case bp_end_states b of
          Some (s # ss) \<Rightarrow> s # ss
        | _ \<Rightarrow> [''success'', ''failure''])
      else [''success'', ''failure''])"

definition extract_skill_contract ::
  "nat \<Rightarrow> classes \<Rightarrow> extractor \<Rightarrow> blueprint \<Rightarrow> ext_state \<Rightarrow> (exn + pyval dict) \<times> ext_state" where
  "extract_skill_contract n CT X b \<sigma> =
     (case start_handler b of
        Inl e \<Rightarrow> (Inl e, \<sigma>)
      | Inr h \<Rightarrow>
         (case (case h of
             None \<Rightarrow> (Inr PNone, \<sigma>)
           | Some i \<Rightarrow> (case extract_input_schema_from_func n CT X (fst \<sigma> i) (snd \<sigma>) of
               (r, f, c) \<Rightarrow> (r, (fst \<sigma>)(i := f), c))) of
            (Inl e, \<sigma>1) \<Rightarrow> (Inl e, \<sigma>1)
          | (Inr input_schema, \<sigma>1) \<Rightarrow>
             (case end_schema_loop n CT X b (case bp_end_states b of None \<Rightarrow> [] | Some ss \<Rightarrow> ss) [] \<sigma>1 of
                (Inl e, \<sigma>2) \<Rightarrow> (Inl e, \<sigma>2)
              | (Inr end_schemas, \<sigma>2) \<Rightarrow>
                  (Inr [(''input_schema'', input_schema),
                        (''output_schema'', combine_schemas end_schemas),
                        (''events_schema'', bp_events_schema b),
                        (''output_statuses'', PList (map PStr (output_statuses b)))], \<sigma>2))))"

end
