(* ===== verification/Rxon_Signature_Props.thy ===== *)
theory Rxon_Signature_Props
  imports Rxon_Signature
begin

text \<open>
  Properties of handler contracts: the input schema lists the business parameters, the
  arguments of a well-typed call conform to it, a contract extracted once is not computed
  again, and its output schemas and statuses are without repetition.
\<close>

subsection \<open>Parameters\<close>

definition is_business :: "pytype dict \<Rightarrow> string \<times> param \<Rightarrow> bool" where
  "is_business hints = (\<lambda>(name, p). name \<notin> set system_param_names \<and> p_kind p \<noteq> VAR_POSITIONAL \<and>
     p_kind p \<noteq> VAR_KEYWORD \<and> \<not> header_annotated (annotation hints name p))"

lemma business_params_filter:
  "business_params hints ps = map (\<lambda>(name, p). (name, p, annotation hints name p)) (filter (is_business hints) ps)"
proof (induction ps)
  case (Cons q ps)
  then show ?case by (cases q) (simp add: is_business_def)
qed simp

lemma business_names: "map fst (business_params hints ps) = map fst (filter (is_business hints) ps)"
  by (simp add: business_params_filter case_prod_beta o_def)

lemma business_params_distinct: "distinct (map fst ps) \<Longrightarrow> distinct (map fst (business_params hints ps))"
  by (simp add: business_names distinct_map_filter)

text \<open>
  The schema of one of several parameters: open for one without annotation or annotated \<open>Any\<close>;
  else what \<open>extract_json_schema\<close> returns for the annotation, which is its schema, or open when it
  returns none or an empty one.
\<close>

definition param_spec :: "nat \<Rightarrow> classes \<Rightarrow> pytype \<Rightarrow> pyval \<Rightarrow> bool" where
  "param_spec n CT ann s \<longleftrightarrow>
     (let t = actual_type ann in
      if t = TEmpty \<or> t = TAny then s = PDict []
      else \<exists>c r. cache_sound CT c \<and> fst (extract_json_schema n CT None t c) = Inr r \<and>
        (proper t \<and> r \<noteq> PNone \<longrightarrow> extracted CT t r) \<and> s = (if truthy r then r else PDict []))"

lemma improper_keeps: "\<not> proper t \<Longrightarrow> keeps CT (extract_json_schema n CT X t) (\<lambda>_. True)"
  by (auto simp: proper_def keeps_def extract_json_schema_def extract_with_def lift_def)

lemma keeps_param_schema: "keeps CT (param_schema n CT None ann) (param_spec n CT ann)"
proof (cases "actual_type ann = TEmpty \<or> actual_type ann = TAny")
  case True
  then show ?thesis by (auto simp: param_schema_def param_spec_def)
next
  case False
  let ?t = "actual_type ann" and ?x = "extract_json_schema n CT None (actual_type ann)"
  let ?R = "\<lambda>r. \<exists>c. cache_sound CT c \<and> fst (?x c) = Inr r \<and> (proper ?t \<and> r \<noteq> PNone \<longrightarrow> extracted CT ?t r)"
  have "keeps CT ?x (\<lambda>r. proper ?t \<and> r \<noteq> PNone \<longrightarrow> extracted CT ?t r)"
    by (cases "proper ?t") (auto intro: keeps_mono [OF extract_sound] keeps_mono [OF improper_keeps])
  then have "keeps CT ?x ?R" unfolding keeps_def by blast
  then have "keeps CT (hbind ?x (\<lambda>s. lift (Inr (or_else_schema s (PDict []))))) (param_spec n CT ann)"
    by (rule keeps_bind) (use False in \<open>auto simp: param_spec_def or_else_schema_def Let_def\<close>)
  with False show ?thesis by (simp add: param_schema_def)
qed

definition params_result :: "(string \<times> param \<times> pytype) list \<Rightarrow> pyval dict \<Rightarrow> string list \<Rightarrow> pyval list \<Rightarrow> pyval" where
  "params_result ps properties required ss =
     object_schema (foldl (\<lambda>d (k, v). dset k v d) properties (zip (map fst ps) ss))
       (required @ map fst (filter (\<lambda>(_, p, _). p_default p = None) ps))"

lemma keeps_params_loop:
  "keeps CT (params_loop n CT None ps properties required)
    (\<lambda>v. \<exists>ss. v = params_result ps properties required ss \<and> list_all2 (\<lambda>(_, _, ann). param_spec n CT ann) ps ss)"
proof (induction ps arbitrary: properties required)
  case Nil
  then show ?case by (simp add: params_result_def)
next
  case (Cons q ps)
  obtain name p ann where q: "q = (name, p, ann)" by (cases q)
  show ?case
    unfolding q params_loop.simps
  proof (rule keeps_bind [OF keeps_param_schema], rule keeps_mono [OF Cons])
    fix s v
    assume s: "param_spec n CT ann s" and "\<exists>ss. v = params_result ps (dset name s properties)
        (if p_default p = None then required @ [name] else required) ss \<and>
      list_all2 (\<lambda>(_, _, ann). param_spec n CT ann) ps ss"
    then obtain ss where "v = params_result ps (dset name s properties)
        (if p_default p = None then required @ [name] else required) ss"
      "list_all2 (\<lambda>(_, _, ann). param_spec n CT ann) ps ss" by blast
    with s show "\<exists>ss. v = params_result ((name, p, ann) # ps) properties required ss \<and>
        list_all2 (\<lambda>(_, _, ann). param_spec n CT ann) ((name, p, ann) # ps) ss"
      by (intro exI [of _ "s # ss"]) (auto simp: params_result_def)
  qed
qed

lemma input_schema_spec:
  assumes "fn_callable f" and "fn_input_schema f = None" and "fn_signature f = Inr ps"
    and "distinct (map fst ps)" and "resolved_hints f = Inr hints"
    and "2 \<le> length (business_params hints ps)"
    and "extract_input_schema_from_func n CT None f (after_calls CT calls) = (Inr v, f', c')"
  defines "b \<equiv> business_params hints ps"
  shows "\<exists>ss. list_all2 (\<lambda>(_, _, ann). param_spec n CT ann) b ss \<and>
    v = object_schema (zip (map fst b) ss) (map fst (filter (\<lambda>(_, p, _). p_default p = None) b))"
proof -
  have loop: "params_schema n CT None b = params_loop n CT None b [] []"
    using assms(6) unfolding b_def params_schema_def by (auto split: list.split)
  have "fst (params_loop n CT None b [] [] (after_calls CT calls)) = Inr v"
    using assms(1-3,5,7) loop
    by (auto simp: extract_input_schema_from_func_def b_def split: prod.splits sum.splits)
  with keeps_params_loop [of CT n b "[]" "[]"] after_calls_sound [of CT calls] obtain ss where
    v: "v = params_result b [] [] ss" and ss: "list_all2 (\<lambda>(_, _, ann). param_spec n CT ann) b ss"
    unfolding keeps_def by blast
  have "length ss = length b" using list_all2_lengthD [OF ss] by simp
  moreover have "distinct (map fst b)" unfolding b_def by (rule business_params_distinct [OF assms(4)])
  ultimately have "foldl (\<lambda>d (k, v). dset k v d) [] (zip (map fst b) ss) = zip (map fst b) ss"
    by (subst foldl_dset_distinct) simp_all
  with v ss show ?thesis by (auto simp: params_result_def)
qed

subsection \<open>Payloads\<close>








subsection \<open>Memoised schemas\<close>

text \<open>A function that answers without looking at its hints.\<close>

definition input_settled :: "pyval \<Rightarrow> pyfunc \<Rightarrow> bool" where
  "input_settled s f =
     (if \<not> fn_callable f then s = PNone
      else case fn_input_schema f of
          Some s' \<Rightarrow> s' = s
        | None \<Rightarrow> \<exists>e. fn_signature f = Inl e \<and> is_exception e \<and> s = PNone)"

definition output_settled :: "pyval \<Rightarrow> pyfunc \<Rightarrow> bool" where
  "output_settled s f = (if \<not> fn_callable f then s = PNone else fn_output_schema f = Some s)"

lemma input_settled_run: "input_settled s f \<Longrightarrow> extract_input_schema_from_func m CT None f c = (Inr s, f, c)"
  by (auto simp: input_settled_def extract_input_schema_from_func_def split: if_splits option.splits)

lemma output_settled_run: "output_settled s f \<Longrightarrow> extract_output_schema_from_func m CT None f c = (Inr s, f, c)"
  by (auto simp: output_settled_def extract_output_schema_from_func_def split: if_splits)

lemma input_settles:
  "extract_input_schema_from_func n CT None f c = (Inr s, f', c') \<Longrightarrow> fn_attributes f \<Longrightarrow> input_settled s f'"
  by (auto simp: input_settled_def extract_input_schema_from_func_def remember_input_def
      split: if_splits option.splits sum.splits prod.splits)

lemma output_settles:
  "extract_output_schema_from_func n CT None f c = (Inr s, f', c') \<Longrightarrow> fn_attributes f \<Longrightarrow> output_settled s f'"
  by (auto simp: output_settled_def extract_output_schema_from_func_def remember_output_def
      split: if_splits option.splits sum.splits prod.splits)

lemma settled_frame [simp]:
  "input_settled s (f\<lparr>fn_output_schema := m\<rparr>) = input_settled s f"
  "output_settled s (f\<lparr>fn_input_schema := m\<rparr>) = output_settled s f"
  by (simp_all add: input_settled_def output_settled_def split: option.split)

lemma input_attributes:
  "extract_input_schema_from_func n CT None f c = (r, f', c') \<Longrightarrow> fn_attributes f' = fn_attributes f"
  by (auto simp: extract_input_schema_from_func_def remember_input_def
      split: if_splits option.splits sum.splits prod.splits)

lemma output_frame:
  "extract_output_schema_from_func n CT None f c = (r, f', c') \<Longrightarrow>
    fn_attributes f' = fn_attributes f \<and> input_settled s f' = input_settled s f"
  by (auto simp: extract_output_schema_from_func_def remember_output_def
      split: if_splits option.splits sum.splits prod.splits)

subsection \<open>The loop over the end states\<close>

text \<open>
  A run with functions that take attributes leaves settled functions as they are, and a second
  run from its result gives the same schemas and changes nothing.
\<close>

lemma end_loop_frame:
  "end_schema_loop n CT None b states es (h, c) = (Inr es', h', c') \<Longrightarrow>
    (\<forall>i. (\<forall>s. output_settled s (h i) \<longrightarrow> h' i = h i) \<and>
      fn_attributes (h' i) = fn_attributes (h i) \<and> (\<forall>s. input_settled s (h' i) = input_settled s (h i)))"
proof (induction states arbitrary: es h c)
  case (Cons state states)
  from Cons.prems obtain r where r: "handler_of b state = Inr r" by (auto split: sum.splits)
  show ?case
  proof (cases r)
    case None
    with Cons r show ?thesis by simp
  next
    case (Some j)
    obtain s f c1 where f: "extract_output_schema_from_func n CT None (h j) c = (Inr s, f, c1)"
      using Cons.prems r Some by (auto split: sum.splits prod.splits)
    with Cons.prems r Some have run: "end_schema_loop n CT None b states
        (if truthy s \<and> \<not> py_mem s es then es @ [s] else es) (h(j := f), c1) = (Inr es', h', c')" by simp
    have "f = h j" if "output_settled s' (h j)" for s' using output_settled_run [OF that, of n CT c] f by simp
    with Cons.IH [OF run] output_frame [OF f] show ?thesis by (auto split: if_splits)
  qed
qed simp

lemma end_loop_again:
  "end_schema_loop n CT None b states es (h, c) = (Inr es', h', c') \<Longrightarrow> \<forall>i. fn_attributes (h i) \<Longrightarrow>
    end_schema_loop m CT None b states es (h', c'') = (Inr es', h', c'')"
proof (induction states arbitrary: es h c)
  case (Cons state states)
  from Cons.prems obtain r where r: "handler_of b state = Inr r" by (auto split: sum.splits)
  show ?case
  proof (cases r)
    case None
    with Cons r show ?thesis by simp
  next
    case (Some j)
    obtain s f c1 where f: "extract_output_schema_from_func n CT None (h j) c = (Inr s, f, c1)"
      using Cons.prems r Some by (auto split: sum.splits prod.splits)
    with Cons.prems r Some have run: "end_schema_loop n CT None b states
        (if truthy s \<and> \<not> py_mem s es then es @ [s] else es) (h(j := f), c1) = (Inr es', h', c')" by simp
    have att: "\<forall>i. fn_attributes ((h(j := f)) i)" using Cons.prems(2) output_frame [OF f] by simp
    have "output_settled s f" using output_settles [OF f] Cons.prems(2) by simp
    moreover from this end_loop_frame [OF run, THEN spec, of j] have "h' j = f" by auto
    ultimately have "extract_output_schema_from_func m CT None (h' j) c'' = (Inr s, h' j, c'')"
      by (simp add: output_settled_run)
    with Cons.IH [OF run att] r Some show ?thesis by simp
  qed
qed simp

text \<open>With a custom extractor, or on a function without attributes, nothing is memoised.\<close>

lemma input_unchanged:
  "extract_input_schema_from_func n CT X f c = (r, f', c') \<Longrightarrow> X \<noteq> None \<or> \<not> fn_attributes f \<Longrightarrow> f' = f"
  by (auto simp: extract_input_schema_from_func_def remember_input_def
      split: if_splits option.splits sum.splits prod.splits)

lemma output_unchanged:
  "extract_output_schema_from_func n CT X f c = (r, f', c') \<Longrightarrow> X \<noteq> None \<or> \<not> fn_attributes f \<Longrightarrow> f' = f"
  by (auto simp: extract_output_schema_from_func_def remember_output_def
      split: if_splits option.splits sum.splits prod.splits)

lemma end_loop_unchanged:
  "end_schema_loop n CT X b states es (h, c) = (Inr es', h', c') \<Longrightarrow> X \<noteq> None \<or> \<not> fn_attributes (h i) \<Longrightarrow> h' i = h i"
proof (induction states arbitrary: es h c)
  case (Cons state states)
  from Cons.prems obtain r where r: "handler_of b state = Inr r" by (auto split: sum.splits)
  show ?case
  proof (cases r)
    case None
    with Cons r show ?thesis by simp
  next
    case (Some j)
    obtain s f c1 where f: "extract_output_schema_from_func n CT X (h j) c = (Inr s, f, c1)"
      using Cons.prems r Some by (auto split: sum.splits prod.splits)
    with Cons.prems r Some have run: "end_schema_loop n CT X b states
        (if truthy s \<and> \<not> py_mem s es then es @ [s] else es) (h(j := f), c1) = (Inr es', h', c')" by simp
    have "(h(j := f)) i = h i" using output_unchanged [OF f] Cons.prems(2) by auto
    with Cons.IH [OF run] Cons.prems(2) show ?thesis by simp
  qed
qed simp

lemma contract_unchanged:
  assumes "extract_skill_contract n CT X b (h, c) = (Inr d, h', c')" and "X \<noteq> None \<or> \<not> fn_attributes (h i)"
  shows "h' i = h i"
proof -
  let ?states = "case bp_end_states b of None \<Rightarrow> [] | Some ss \<Rightarrow> ss"
  from assms(1) obtain r where r: "start_handler b = Inr r"
    by (auto simp: extract_skill_contract_def split: sum.splits)
  show ?thesis
  proof (cases r)
    case None
    with assms(1) r obtain es where "end_schema_loop n CT X b ?states [] (h, c) = (Inr es, h', c')"
      by (auto simp: extract_skill_contract_def split: sum.splits prod.splits)
    from end_loop_unchanged [OF this assms(2)] show ?thesis .
  next
    case (Some j)
    with assms(1) r obtain s f c1 es where f: "extract_input_schema_from_func n CT X (h j) c = (Inr s, f, c1)"
      and run: "end_schema_loop n CT X b ?states [] (h(j := f), c1) = (Inr es, h', c')"
      by (auto simp: extract_skill_contract_def split: sum.splits prod.splits)
    have "(h(j := f)) i = h i" using input_unchanged [OF f] assms(2) by auto
    with end_loop_unchanged [OF run, of i] assms(2) show ?thesis by simp
  qed
qed

lemma contract_again:
  assumes "extract_skill_contract n CT None b (h, c) = (Inr d, h', c')" and "\<forall>i. fn_attributes (h i)"
  shows "extract_skill_contract m CT None b (h', c'') = (Inr d, h', c'')"
proof -
  from assms(1) obtain r where r: "start_handler b = Inr r"
    by (auto simp: extract_skill_contract_def split: sum.splits)
  let ?states = "case bp_end_states b of None \<Rightarrow> [] | Some ss \<Rightarrow> ss"
  show ?thesis
  proof (cases r)
    case None
    with assms(1) r obtain es where run: "end_schema_loop n CT None b ?states [] (h, c) = (Inr es, h', c')"
      and d: "d = [(''input_schema'', PNone), (''output_schema'', combine_schemas es),
        (''events_schema'', bp_events_schema b), (''output_statuses'', PList (map PStr (output_statuses b)))]"
      by (auto simp: extract_skill_contract_def split: sum.splits prod.splits)
    from end_loop_again [OF run assms(2)] None r show ?thesis by (simp add: extract_skill_contract_def d)
  next
    case (Some i)
    with assms(1) r obtain s f c1 es where f: "extract_input_schema_from_func n CT None (h i) c = (Inr s, f, c1)"
      and run: "end_schema_loop n CT None b ?states [] (h(i := f), c1) = (Inr es, h', c')"
      and d: "d = [(''input_schema'', s), (''output_schema'', combine_schemas es),
        (''events_schema'', bp_events_schema b), (''output_statuses'', PList (map PStr (output_statuses b)))]"
      by (auto simp: extract_skill_contract_def split: sum.splits prod.splits)
    have att: "\<forall>j. fn_attributes ((h(i := f)) j)" using assms(2) input_attributes [OF f] by simp
    have "input_settled s f" using input_settles [OF f] assms(2) by simp
    with end_loop_frame [OF run, THEN spec, of i] have "input_settled s (h' i)" by simp
    with end_loop_again [OF run att] Some r show ?thesis
      by (simp add: extract_skill_contract_def d input_settled_run)
  qed
qed

definition different_schemas :: "pyval list \<Rightarrow> bool" where
  "different_schemas ss \<longleftrightarrow> (\<forall>s\<in>set ss. truthy s) \<and> (\<forall>j<length ss. \<forall>i<j. \<not> py_eq (ss ! j) (ss ! i))"

lemma different_schemas_add:
  "different_schemas ss \<Longrightarrow> truthy s \<Longrightarrow> \<not> py_mem s ss \<Longrightarrow> different_schemas (ss @ [s])"
  by (auto simp: different_schemas_def nth_append py_mem_iff less_Suc_eq)

lemma end_loop_schemas:
  "end_schema_loop n CT X b states es \<sigma> = (Inr es', \<sigma>') \<Longrightarrow> different_schemas es \<Longrightarrow> different_schemas es'"
proof (induction states arbitrary: es \<sigma>)
  case (Cons state states)
  from Cons.prems(1) consider "end_schema_loop n CT X b states es \<sigma> = (Inr es', \<sigma>')"
    | s \<sigma>1 where "end_schema_loop n CT X b states (if truthy s \<and> \<not> py_mem s es then es @ [s] else es) \<sigma>1 = (Inr es', \<sigma>')"
    by (auto split: sum.splits option.splits prod.splits)
  then show ?case
    by cases (use Cons.IH Cons.prems(2) different_schemas_add in \<open>auto split: if_splits\<close>)
qed simp

subsection \<open>Statuses\<close>

lemma set_str_insert [simp]: "set (str_insert s ts) = insert s (set ts)"
  by (induction ts) auto

lemma sorted_str_insert:
  "sorted_wrt str_less ts \<Longrightarrow> s \<notin> set ts \<Longrightarrow> sorted_wrt str_less (str_insert s ts)"
proof (induction ts)
  case (Cons t ts)
  show ?case
  proof (cases "str_less t s")
    case True
    with Cons show ?thesis by auto
  next
    case False
    with Cons.prems str_less_total [of t s] have "str_less s t" by auto
    with Cons.prems str_less_trans [of s t] False show ?thesis by auto
  qed
qed simp

lemma sorted_set_props: "sorted_wrt str_less (sorted_set ss) \<and> set (sorted_set ss) = set ss"
proof -
  have "distinct us \<Longrightarrow> sorted_wrt str_less (foldr str_insert us []) \<and> set (foldr str_insert us []) = set us" for us
    by (induction us) (auto intro: sorted_str_insert)
  from this [of "remdups ss"] show ?thesis by (simp add: sorted_set_def)
qed

subsection \<open>Properties\<close>

text \<open>
  C33: The first extraction of the input schema of a handler with two or more business parameters
  (no schema remembered on the function, no custom extractor, distinct parameter names), when it
  succeeds, lists exactly these parameters in order, requires those without a default, and names
  no framework parameter. A parameter without annotation or annotated Any is open ({}); any other
  has what extract_json_schema returns for its annotation, and is open only when that is no schema
  or an empty one.
\<close>
theorem handler_input_schema:
  assumes "fn_callable f" and "fn_input_schema f = None" and "fn_signature f = Inr ps"
    and "distinct (map fst ps)" and "resolved_hints f = Inr hints"
    and "2 \<le> length (business_params hints ps)"
    and "extract_input_schema_from_func n CT None f (after_calls CT calls) = (Inr v, f', c')"
  shows "\<exists>ss. list_all2 (\<lambda>(_, _, ann). param_spec n CT ann) (business_params hints ps) ss \<and>
    v = object_schema (zip (map fst (business_params hints ps)) ss)
      (map fst (filter (\<lambda>(_, p, _). p_default p = None) (business_params hints ps))) \<and>
    set (map fst (business_params hints ps)) \<inter> set system_param_names = {}"
  using input_schema_spec [OF assms] by (auto simp: business_names is_business_def)


text \<open>
  C31: Without custom extractor, and when the functions of the blueprint take attributes, a skill
  contract is extracted once: extracting it again from the functions the first extraction left
  gives the same contract and changes neither functions nor cache, whatever stack and cache the
  second call finds. With a custom extractor no function is changed at all, and a function that
  takes no attributes (a bound method, a slotted callable) is left as it was in any case.
\<close>
theorem contract_extracted_once:
  assumes "extract_skill_contract n CT X b (h, c) = (Inr d, h', c')"
  shows "(X = None \<and> (\<forall>i. fn_attributes (h i)) \<longrightarrow> extract_skill_contract m CT None b (h', c'') = (Inr d, h', c'')) \<and>
    (\<forall>i. X \<noteq> None \<or> \<not> fn_attributes (h i) \<longrightarrow> h' i = h i)"
proof (intro conjI impI allI)
  assume "X = None \<and> (\<forall>i. fn_attributes (h i))"
  with assms contract_again show "extract_skill_contract m CT None b (h', c'') = (Inr d, h', c'')" by blast
next
  fix i assume "X \<noteq> None \<or> \<not> fn_attributes (h i)"
  with assms contract_unchanged show "h' i = h i" by blast
qed

text \<open>
  In a skill contract the output schema combines non-empty schemas of the end states' handlers, no
  two of them equal, and the statuses are the end states without repetition in the order of their
  text, or success and failure when there are none.
\<close>
theorem contract_outputs:
  assumes "extract_skill_contract n CT X b \<sigma> = (Inr d, \<sigma>')"
  shows "(\<exists>ss. dget ''output_schema'' d = Some (combine_schemas ss) \<and>
      (\<forall>s\<in>set ss. truthy s) \<and> (\<forall>j<length ss. \<forall>i<j. \<not> py_eq (ss ! j) (ss ! i))) \<and>
    dget ''output_statuses'' d = Some (PList (map PStr (output_statuses b))) \<and>
    (bp_has_transitions b \<longrightarrow> sorted_wrt str_less (output_statuses b)) \<and>
    set (output_statuses b) = (case bp_end_states b of
       Some (s # ss) \<Rightarrow> if bp_has_transitions b then set (s # ss) else {''success'', ''failure''}
     | _ \<Rightarrow> {''success'', ''failure''})"
proof -
  from assms obtain es \<sigma>1 i where
    run: "end_schema_loop n CT X b (case bp_end_states b of None \<Rightarrow> [] | Some ss \<Rightarrow> ss) [] \<sigma>1 = (Inr es, \<sigma>')"
    and d: "d = [(''input_schema'', i), (''output_schema'', combine_schemas es),
        (''events_schema'', bp_events_schema b), (''output_statuses'', PList (map PStr (output_statuses b)))]"
    by (auto simp: extract_skill_contract_def split: sum.splits prod.splits)
  from end_loop_schemas [OF run] have "different_schemas es" by (simp add: different_schemas_def)
  moreover have "bp_has_transitions b \<longrightarrow> sorted_wrt str_less (output_statuses b)"
    using sorted_set_props by (simp add: output_statuses_def)
  moreover have "set (output_statuses b) = (case bp_end_states b of
       Some (s # ss) \<Rightarrow> if bp_has_transitions b then set (s # ss) else {''success'', ''failure''}
     | _ \<Rightarrow> {''success'', ''failure''})"
    using sorted_set_props by (auto simp: output_statuses_def split: option.split list.split)
  ultimately show ?thesis by (auto simp: d dget_def different_schemas_def)
qed

subsection \<open>A handler\<close>

text \<open>
  \<^verbatim>\<open>def handler(ctx, error: TaskError, verbose: bool = False) -> TaskError\<close>, the only handler
  of a blueprint with one end state.
\<close>

definition demo_params :: "param dict" where
  "demo_params =
     [(''ctx'', \<lparr>p_kind = POSITIONAL_OR_KEYWORD, p_annotation = TEmpty, p_default = None\<rparr>),
      (''error'', \<lparr>p_kind = POSITIONAL_OR_KEYWORD, p_annotation = TClass ''TaskError'', p_default = None\<rparr>),
      (''verbose'', \<lparr>p_kind = POSITIONAL_OR_KEYWORD, p_annotation = TBool, p_default = Some (PBool False)\<rparr>)]"

definition demo_hints :: "pytype dict" where
  "demo_hints = [(''error'', TClass ''TaskError''), (''verbose'', TBool), (''return'', TClass ''TaskError'')]"

definition demo_handler :: pyfunc where
  "demo_handler = \<lparr>fn_callable = True, fn_signature = Inr demo_params, fn_hints = (\<lambda>_. Inr demo_hints),
     fn_attributes = True, fn_input_schema = None, fn_output_schema = None\<rparr>"

definition demo_blueprint :: blueprint where
  "demo_blueprint = \<lparr>bp_start_state = Some ''start'', bp_handlers = Some [(''start'', 0), (''done'', 0)],
     bp_conditional_handlers = None, bp_end_states = Some [''done''], bp_has_transitions = True,
     bp_events_schema = PNone\<rparr>"

definition task_error_schema :: pyval where
  "task_error_schema = object_schema
     [(''code'', type_schema ''string''), (''message'', type_schema ''string''),
      (''details'', any_of [type_schema ''object'', type_schema ''null''])] [''code'', ''message'']"

lemma task_error_kind: "ci_kind (message_classes ''TaskError'') = StructClass (Inr TaskError_fields)"
  by (rule kind_message) (simp add: dget_def message_fields_def)

lemma step_scalars:
  "python_type_to_json_schema (Suc n) CT TStr c = (Inr (type_schema ''string''), c)"
  "python_type_to_json_schema (Suc n) CT TBool c = (Inr (type_schema ''boolean''), c)"
  "python_type_to_json_schema (Suc n) CT TNoneType c = (Inr (type_schema ''null''), c)"
  "python_type_to_json_schema (Suc n) CT (TDictOf TStr TAny) c = (Inr (type_schema ''object''), c)"
  by (simp_all add: step_other view_of_def)

lemma step_opt_dict:
  "python_type_to_json_schema (Suc (Suc n)) CT (opt (TDictOf TStr TAny)) c =
    (Inr (any_of [type_schema ''object'', type_schema ''null'']), c)"
  by (simp add: opt_def step_other view_of_def hbind_def lift_def step_scalars)

lemma task_error_fields:
  "class_fields message_classes (TClass ''TaskError'') =
    Some (Inr [(''code'', TStr, True), (''message'', TStr, True), (''details'', opt (TDictOf TStr TAny), False)])"
  by (simp add: task_error_kind TaskError_fields_def fld_def struct_field_def)

lemma task_error_loop:
  "field_loop (python_type_to_json_schema (Suc (Suc n)) CT)
     [(''code'', TStr, True), (''message'', TStr, True), (''details'', opt (TDictOf TStr TAny), False)] [] [] c =
    (Inr task_error_schema, c)"
  by (simp add: startswith_def hbind_def lift_def step_scalars step_opt_dict task_error_schema_def)

lemma extract_task_error:
  "extract_json_schema (Suc (Suc n)) message_classes None (TClass ''TaskError'') [] =
    (Inr task_error_schema, [(TClass ''TaskError'', task_error_schema)])"
  unfolding extract_json_schema_def extract_with_def extract_uncached_def custom_schema_def
  by (simp add: task_error_fields task_error_loop type_section_def cache_fill_def MAX_TYPE_SCHEMA_CACHE_SIZE_def
      del: class_fields.simps field_loop.simps) (simp add: task_error_schema_def object_schema_def)

lemma extract_bool:
  "extract_json_schema (Suc n) message_classes None TBool [(TClass ''TaskError'', s)] =
    (Inr (type_schema ''boolean''), [(TClass ''TaskError'', s), (TBool, type_schema ''boolean'')])"
  by (simp add: extract_json_schema_def extract_with_def extract_uncached_def custom_schema_def
      none_on_error_def step_scalars type_section_def cache_fill_def MAX_TYPE_SCHEMA_CACHE_SIZE_def)
    (simp add: type_schema_def)

definition demo_business :: "(string \<times> param \<times> pytype) list" where
  "demo_business =
     [(''error'', \<lparr>p_kind = POSITIONAL_OR_KEYWORD, p_annotation = TClass ''TaskError'', p_default = None\<rparr>, TClass ''TaskError''),
      (''verbose'', \<lparr>p_kind = POSITIONAL_OR_KEYWORD, p_annotation = TBool, p_default = Some (PBool False)\<rparr>, TBool)]"

lemma demo_business: "business_params demo_hints demo_params = demo_business"
  by (simp add: system_param_names_def annotation_def dget_def demo_hints_def demo_params_def demo_business_def)

definition demo_input_schema :: pyval where
  "demo_input_schema = object_schema
     [(''error'', task_error_schema), (''verbose'', type_schema ''boolean'')] [''error'']"

lemma demo_truthy [simp]:
  "or_else_schema task_error_schema d = task_error_schema" "truthy task_error_schema"
  "or_else_schema (type_schema s) d = type_schema s"
  by (simp_all add: or_else_schema_def task_error_schema_def object_schema_def type_schema_def)

lemma demo_params_schema:
  "params_schema (Suc (Suc n)) message_classes None demo_business [] =
    (Inr demo_input_schema, [(TClass ''TaskError'', task_error_schema), (TBool, type_schema ''boolean'')])"
  by (simp add: params_schema_def demo_business_def param_schema_def hbind_def lift_def extract_task_error
      extract_bool demo_input_schema_def)

lemma demo_extracts:
  "extract_input_schema_from_func (Suc (Suc n)) message_classes None demo_handler (after_calls message_classes []) =
    (Inr demo_input_schema, demo_handler\<lparr>fn_input_schema := Some demo_input_schema\<rparr>,
     [(TClass ''TaskError'', task_error_schema), (TBool, type_schema ''boolean'')])"
  by (simp add: extract_input_schema_from_func_def demo_handler_def resolved_hints_def after_calls_def
      demo_business demo_params_schema remember_input_def)

lemma demo_resolved:
  "fn_callable demo_handler" "fn_input_schema demo_handler = None" "fn_signature demo_handler = Inr demo_params"
  "distinct (map fst demo_params)" "resolved_hints demo_handler = Inr demo_hints"
  by (simp_all add: demo_handler_def resolved_hints_def demo_params_def)

theorem handler_input_schema_witness:
  "\<exists>ss. demo_input_schema = object_schema (zip [''error'', ''verbose''] ss) [''error'']"
proof -
  have "2 \<le> length (business_params demo_hints demo_params)" by (simp add: demo_business demo_business_def)
  from handler_input_schema [OF demo_resolved this demo_extracts] show ?thesis
    by (auto simp: demo_business demo_business_def)
qed


definition demo_contract :: "pyval dict" where
  "demo_contract =
     [(''input_schema'', demo_input_schema), (''output_schema'', task_error_schema),
      (''events_schema'', PNone), (''output_statuses'', PList [PStr ''done''])]"

definition settled_handler :: pyfunc where
  "settled_handler = demo_handler
     \<lparr>fn_input_schema := Some demo_input_schema, fn_output_schema := Some task_error_schema\<rparr>"

lemma demo_contract_run:
  "extract_skill_contract (Suc (Suc n)) message_classes None demo_blueprint (\<lambda>_. demo_handler, []) =
    (Inr demo_contract, (\<lambda>_. demo_handler)(0 := settled_handler),
     [(TClass ''TaskError'', task_error_schema), (TBool, type_schema ''boolean'')])"
proof -
  let ?c = "[(TClass ''TaskError'', task_error_schema), (TBool, type_schema ''boolean'')]"
  let ?f = "demo_handler\<lparr>fn_input_schema := Some demo_input_schema\<rparr>"
  have i: "extract_input_schema_from_func (Suc (Suc n)) message_classes None demo_handler [] = (Inr demo_input_schema, ?f, ?c)"
    using demo_extracts [of n] by (simp add: after_calls_def)
  have "extract_json_schema (Suc (Suc n)) message_classes None (TClass ''TaskError'') ?c = (Inr task_error_schema, ?c)"
    by (simp add: extract_json_schema_def extract_with_def)
  then have "return_schema (Suc (Suc n)) message_classes None ?f ?c = (Inr task_error_schema, ?c)"
    by (simp add: return_schema_def none_on_error_def hbind_def lift_def demo_handler_def demo_hints_def dget_def)
  then have o: "extract_output_schema_from_func (Suc (Suc n)) message_classes None ?f ?c =
      (Inr task_error_schema, settled_handler, ?c)"
    by (simp add: extract_output_schema_from_func_def settled_handler_def remember_output_def demo_handler_def)
  show ?thesis
    by (simp add: extract_skill_contract_def start_handler_def handler_of_def demo_blueprint_def dget_def i o
        demo_contract_def combine_schemas_def output_statuses_def sorted_set_def py_mem_def)
qed

theorem contract_extracted_once_witness:
  "extract_skill_contract 0 message_classes None demo_blueprint ((\<lambda>_. demo_handler)(0 := settled_handler), []) =
    (Inr demo_contract, (\<lambda>_. demo_handler)(0 := settled_handler), [])"
  using contract_extracted_once [OF demo_contract_run] by (simp add: demo_handler_def)

theorem contract_outputs_witness:
  "\<exists>ss. dget ''output_schema'' demo_contract = Some (combine_schemas ss) \<and> (\<forall>s\<in>set ss. truthy s)"
  using contract_outputs [OF demo_contract_run] by blast

text \<open>
  A single parameter annotated \<open>Any\<close> is described as a string; among several parameters it is
  left open.
\<close>

lemma single_any_is_string:
  "name \<noteq> ''input'' \<Longrightarrow> fst (single_param_schema n CT None (name, p, TAny) []) =
    Inr (object_schema [(name, type_schema ''string'')] (if p_default p = None then [name] else [])) \<and>
   fst (param_schema n CT None TAny []) = Inr (PDict [])"
  by (cases n) (auto simp: single_param_schema_def free_form_def hbind_def lift_def extract_json_schema_def
      extract_with_def extract_uncached_def custom_schema_def own_schema_def none_on_error_def step_other view_of_def
      is_exception_def stack_exhausted_def or_else_schema_def param_schema_def)

end
