(* ===== verification/Rxon_Concurrent.thy ===== *)
theory Rxon_Concurrent
  imports Rxon_Client_Props
begin

text \<open>
  Several coroutines on one \<open>HttpTransport\<close> (\<^verbatim>\<open>transports/http.py\<close>): a worker polls, sends
  heartbeats and results at the same time on one object.  A coroutine gives way where the source
  awaits the answer to a request; between these points \<open>_request\<close> and \<open>refresh_token\<close> run
  without interruption.  A task is a call with a program counter; a step of the system lets a
  task begin, or gives it the outcome of what it waits for, in any order, while the transport is
  connected or closed in between.  The body of an answer is read at a second \<open>await\<close>; between
  the two the code only notes the version warning, so the model lets the body arrive with the
  status.  A run of one task alone is \<open>http_request_call\<close>
  (\<open>solo_run\<close>); what holds under every interleaving is an invariant of the step relation.
\<close>

subsection \<open>Tasks\<close>

datatype pc = Ready | Waiting nat | Refreshing | Finished "exn + pyval"

record task =
  t_call :: call
  t_register :: bool \<comment> \<open>the call comes from \<open>register\<close>, which installs a token\<close>
  t_pc :: pc

text \<open>A step gives the task, the object and the requests it sends.\<close>

type_synonym task_result = "task \<times> http_transport \<times> http_request list"

definition task_end :: "'b http_env \<Rightarrow> task \<Rightarrow> exn + pyval \<Rightarrow> http_transport \<Rightarrow> task_result" where
  "task_end E t r s =
     (case r of
        Inr resp \<Rightarrow>
          if t_register t \<and> has_access_token resp then
            (case parse_token E resp of
               Inl e \<Rightarrow> (t\<lparr>t_pc := Finished (if is_exception e then Inr resp else Inl e)\<rparr>, s, [])
             | Inr res \<Rightarrow> (t\<lparr>t_pc := Finished (Inr resp)\<rparr>, set_token res s, []))
          else (t\<lparr>t_pc := Finished (Inr resp)\<rparr>, s, [])
      | Inl e \<Rightarrow> (t\<lparr>t_pc := Finished (Inl e)\<rparr>, s, []))"

definition attempt :: "task \<Rightarrow> nat \<Rightarrow> http_transport \<Rightarrow> task_result" where
  "attempt t k s = (t\<lparr>t_pc := Waiting k\<rparr>, s, [call_request (t_call t) s (headers s)])"

definition task_begin :: "'b http_env \<Rightarrow> task \<Rightarrow> http_transport \<Rightarrow> task_result" where
  "task_begin E t s =
     (if session_closed s = None then task_end E t (Inl not_connected) s else attempt t 0 s)"

text \<open>What \<open>refresh_token\<close> makes of the outcome of its request.\<close>

definition refresh_outcome :: "'b http_env \<Rightarrow> exn + http_response \<Rightarrow> exn + token_response option" where
  "refresh_outcome E outcome =
     (case rbind outcome (\<lambda>resp. if rs_status resp = 200
         then rbind (rs_json resp) (\<lambda>data. rbind (parse_token E data) (\<lambda>res. Inr (Some res)))
         else Inr None) of
        Inl e \<Rightarrow> if is_exception e then Inr None else Inl e
      | Inr r \<Rightarrow> Inr r)"

definition task_answer :: "'b http_env \<Rightarrow> task \<Rightarrow> exn + http_response \<Rightarrow> http_transport \<Rightarrow> task_result" where
  "task_answer E t outcome s =
     (let wrap = wrap_exn E (c_method (t_call t)) (c_endpoint (t_call t));
          unauthorized = Inl (auth_error (c_endpoint (t_call t)))
      in case t_pc t of
        Waiting k \<Rightarrow>
          (case outcome of
             Inl e \<Rightarrow> task_end E t (Inl (wrap e)) s
           | Inr resp \<Rightarrow>
               (let s1 = note_version resp s in
                if rs_status resp = 401 then
                  (if k = 0 \<and> session_closed s1 \<noteq> None
                   then (t\<lparr>t_pc := Refreshing\<rparr>, s1, [refresh_request s1])
                   else task_end E t unauthorized s1)
                else task_end E t (map_err wrap (handle_status E resp)) s1))
      | Refreshing \<Rightarrow>
          (case refresh_outcome E outcome of
             Inl e \<Rightarrow> task_end E t (Inl (wrap e)) s
           | Inr None \<Rightarrow> task_end E t unauthorized s
           | Inr (Some res) \<Rightarrow> attempt t 1 (set_token res s))
      | _ \<Rightarrow> (t, s, []))"

subsection \<open>The system\<close>

record system =
  y_obj :: http_transport
  y_tasks :: "task list"
  y_log :: "(nat \<times> http_request) list"

definition put :: "nat \<Rightarrow> task_result \<Rightarrow> system \<Rightarrow> system" where
  "put i = (\<lambda>(t, s, rqs) y. y\<lparr>y_obj := s, y_tasks := (y_tasks y)[i := t], y_log := y_log y @ map (Pair i) rqs\<rparr>)"

fun awaiting :: "pc \<Rightarrow> bool" where
  "awaiting (Waiting k) = True"
| "awaiting Refreshing = True"
| "awaiting _ = False"

inductive task_step :: "'b http_env \<Rightarrow> system \<Rightarrow> system \<Rightarrow> bool" for E where
  begin_task: "i < length (y_tasks y) \<Longrightarrow> t_pc (y_tasks y ! i) = Ready \<Longrightarrow>
    task_step E y (put i (task_begin E (y_tasks y ! i) (y_obj y)) y)"
| answer_task: "i < length (y_tasks y) \<Longrightarrow> awaiting (t_pc (y_tasks y ! i)) \<Longrightarrow>
    task_step E y (put i (task_answer E (y_tasks y ! i) outcome (y_obj y)) y)"

inductive sys_step :: "'b http_env \<Rightarrow> system \<Rightarrow> system \<Rightarrow> bool" for E where
  by_task: "task_step E y y' \<Longrightarrow> sys_step E y y'"
| by_connect: "sys_step E y (y\<lparr>y_obj := http_connect (y_obj y)\<rparr>)"
| by_close: "sys_step E y (y\<lparr>y_obj := http_close (y_obj y)\<rparr>)"

definition sys_start :: "http_transport \<Rightarrow> (call \<times> bool) list \<Rightarrow> system" where
  "sys_start s calls = \<lparr>y_obj = s,
     y_tasks = map (\<lambda>(c, r). \<lparr>t_call = c, t_register = r, t_pc = Ready\<rparr>) calls, y_log = []\<rparr>"

inductive_cases task_stepE: "task_step E y y'"
inductive_cases sys_stepE: "sys_step E y y'"

text \<open>The requests a task has sent, in order.\<close>

definition sent_by :: "nat \<Rightarrow> system \<Rightarrow> http_request list" where
  "sent_by i y = map snd (filter (\<lambda>e. fst e = i) (y_log y))"

lemma put_sel [simp]:
  "y_obj (put i (t, s, rqs) y) = s" "y_tasks (put i (t, s, rqs) y) = (y_tasks y)[i := t]"
  "y_log (put i (t, s, rqs) y) = y_log y @ map (Pair i) rqs"
  by (simp_all add: put_def)

lemma sent_by_put: "sent_by j (put i (t, s, rqs) y) = (if j = i then sent_by i y @ rqs else sent_by j y)"
  by (auto simp: sent_by_def filter_map o_def)

lemma put_put: "put i r' (put i (t, s, rqs) y) = (case r' of (t', s', rqs') \<Rightarrow> put i (t', s', rqs @ rqs') y)"
  by (auto simp: put_def split: prod.split)

subsection \<open>What one step does\<close>

lemma task_end_effect:
  "task_end E t r s = (t', s', rqs) \<Longrightarrow>
    rqs = [] \<and> t_call t' = t_call t \<and> t_register t' = t_register t \<and> (\<exists>r'. t_pc t' = Finished r') \<and>
    (s' = s \<or> (\<exists>res. s' = set_token res s))"
  by (auto simp: task_end_def split: sum.splits if_splits)

text \<open>
  One step of a task: what it does to the object, the request it sends, and where it is then.
\<close>

definition moved :: "task \<Rightarrow> http_transport \<Rightarrow> task_result \<Rightarrow> bool" where
  "moved t s = (\<lambda>(t', s', rqs).
     t_call t' = t_call t \<and> t_register t' = t_register t \<and>
     (coherent s \<longrightarrow> coherent s') \<and> same_frame s s' \<and>
     (case t_pc t' of
        Waiting k \<Rightarrow> rqs = [call_request (t_call t) s' (headers s')] \<and>
          (t_pc t = Ready \<and> k = 0 \<or> t_pc t = Refreshing \<and> k = 1)
      | Refreshing \<Rightarrow> t_pc t = Waiting 0 \<and> rqs = [refresh_request s']
      | Finished r \<Rightarrow> rqs = []
      | Ready \<Rightarrow> False))"

lemma task_end_moved: "same_frame s0' s \<Longrightarrow> (coherent s0' \<longrightarrow> coherent s) \<Longrightarrow> moved t s0' (task_end E t r s)"
  using task_end_effect [of E t r s]
  by (cases "task_end E t r s")
    (auto simp: moved_def intro: same_frame_trans [OF _ same_frame_set_token])

lemma task_begin_moved: "t_pc t = Ready \<Longrightarrow> moved t s (task_begin E t s)"
  by (auto simp: task_begin_def attempt_def task_end_moved) (simp add: moved_def)

lemma attempt_moved:
  "t_pc t = Refreshing \<Longrightarrow> moved t s (attempt t (Suc 0) (set_token res s))"
  by (auto simp: attempt_def moved_def)

lemma task_answer_moved:
  assumes "awaiting (t_pc t)"
  shows "moved t s (task_answer E t outcome s)"
proof (cases "t_pc t")
  case (Waiting k)
  then show ?thesis
    by (auto simp: task_answer_def Let_def task_end_moved split: sum.split) (simp add: moved_def)
next
  case Refreshing
  then show ?thesis
    by (auto simp: task_answer_def Let_def task_end_moved attempt_moved split: sum.split option.split)
qed (use assms in auto)

lemma task_step_moved:
  assumes "task_step E y y'"
  obtains i t' s' rqs where "i < length (y_tasks y)" and "y' = put i (t', s', rqs) y"
    and "moved (y_tasks y ! i) (y_obj y) (t', s', rqs)" and "\<not> (\<exists>r. t_pc (y_tasks y ! i) = Finished r)"
  using assms(1)
proof cases
  case (begin_task i)
  then show ?thesis
    using that [of i] task_begin_moved [of "y_tasks y ! i" "y_obj y" E]
    by (cases "task_begin E (y_tasks y ! i) (y_obj y)") auto
next
  case (answer_task i outcome)
  then have "\<not> (\<exists>r. t_pc (y_tasks y ! i) = Finished r)" by auto
  then show ?thesis
    using answer_task that [of i] task_answer_moved [of "y_tasks y ! i" "y_obj y" E outcome]
    by (cases "task_answer E (y_tasks y ! i) outcome (y_obj y)") auto
qed

subsection \<open>The invariant\<close>

text \<open>
  Which requests a task has sent when it is at a point: its call, the refresh of the token, and
  its call again.  Each was made from a coherent state of the object.
\<close>

definition is_attempt :: "string \<Rightarrow> call \<Rightarrow> http_request \<Rightarrow> bool" where
  "is_attempt wid c rq \<longleftrightarrow> (\<exists>s. coherent s \<and> worker_id s = wid \<and> rq = call_request c s (headers s))"

definition is_refresh :: "string \<Rightarrow> http_request \<Rightarrow> bool" where
  "is_refresh wid rq \<longleftrightarrow> (\<exists>s. coherent s \<and> worker_id s = wid \<and> rq = refresh_request s)"

fun sent_at :: "string \<Rightarrow> call \<Rightarrow> pc \<Rightarrow> http_request list \<Rightarrow> bool" where
  "sent_at wid c Ready rqs = (rqs = [])"
| "sent_at wid c (Waiting k) rqs =
     (if k = 0 then \<exists>a. rqs = [a] \<and> is_attempt wid c a
      else k = 1 \<and> (\<exists>a r b. rqs = [a, r, b] \<and> is_attempt wid c a \<and> is_refresh wid r \<and> is_attempt wid c b))"
| "sent_at wid c Refreshing rqs = (\<exists>a r. rqs = [a, r] \<and> is_attempt wid c a \<and> is_refresh wid r)"
| "sent_at wid c (Finished res) rqs =
     (\<exists>a r b. is_attempt wid c a \<and> is_refresh wid r \<and> is_attempt wid c b \<and>
       (rqs = [] \<or> rqs = [a] \<or> rqs = [a, r] \<or> rqs = [a, r, b]))"

definition sys_inv :: "string \<Rightarrow> system \<Rightarrow> bool" where
  "sys_inv wid y \<longleftrightarrow> coherent (y_obj y) \<and> worker_id (y_obj y) = wid \<and>
     (\<forall>i < length (y_tasks y). sent_at wid (t_call (y_tasks y ! i)) (t_pc (y_tasks y ! i)) (sent_by i y)) \<and>
     (\<forall>e \<in> set (y_log y). fst e < length (y_tasks y))"

lemma moved_sent_at:
  assumes "moved t s (t', s', rqs)" and "coherent s" and "worker_id s = wid"
    and "sent_at wid (t_call t) (t_pc t) old"
  shows "sent_at wid (t_call t') (t_pc t') (old @ rqs)"
proof -
  from assms(1-3) have s': "coherent s'" "worker_id s' = wid" and c: "t_call t' = t_call t"
    by (auto simp: moved_def same_frame_def)
  then have att: "is_attempt wid (t_call t) (call_request (t_call t) s' (headers s'))"
    and ref: "is_refresh wid (refresh_request s')"
    unfolding is_attempt_def is_refresh_def by blast+
  show ?thesis
  proof (cases "t_pc t'")
    case (Waiting k)
    with assms(1,4) att c show ?thesis by (auto simp: moved_def)
  next
    case Refreshing
    with assms(1,4) ref c show ?thesis by (auto simp: moved_def)
  next
    case (Finished r)
    with assms(1) have "rqs = []" by (simp add: moved_def)
    with Finished assms(4) att ref c show ?thesis
      by (cases "t_pc t") (auto split: if_splits)
  qed (use assms(1) in \<open>simp add: moved_def\<close>)
qed

lemma task_step_inv:
  assumes "task_step E y y'" and "sys_inv wid y"
  shows "sys_inv wid y'"
proof -
  from assms(1) obtain i t' s' rqs where i: "i < length (y_tasks y)" and y': "y' = put i (t', s', rqs) y"
    and m: "moved (y_tasks y ! i) (y_obj y) (t', s', rqs)"
    by (rule task_step_moved)
  have s': "coherent s'" "worker_id s' = wid"
    using m assms(2) by (auto simp: moved_def sys_inv_def same_frame_def)
  have "sent_at wid (t_call t') (t_pc t') (sent_by i y @ rqs)"
    using assms(2) i by (intro moved_sent_at [OF m]) (auto simp: sys_inv_def)
  with s' i y' assms(2) show ?thesis
    by (auto simp: sys_inv_def sent_by_put nth_list_update)
qed

lemma sys_step_inv: "sys_step E y y' \<Longrightarrow> sys_inv wid y \<Longrightarrow> sys_inv wid y'"
proof (induction rule: sys_step.induct)
  case (by_task y y')
  then show ?case by (blast intro: task_step_inv)
qed (auto simp: sys_inv_def coherent_def sent_by_def http_connect_def http_close_def Let_def)

lemma sys_start_inv: "coherent s \<Longrightarrow> sys_inv (worker_id s) (sys_start s calls)"
  by (auto simp: sys_inv_def sys_start_def sent_by_def split: prod.splits)

lemma sys_run_inv: "(sys_step E)\<^sup>*\<^sup>* y y' \<Longrightarrow> sys_inv wid y \<Longrightarrow> sys_inv wid y'"
  by (induction rule: rtranclp_induct) (auto intro: sys_step_inv)

lemma attempt_identified: "is_attempt wid c rq \<Longrightarrow> identified wid (rq_headers rq)"
  by (auto simp: is_attempt_def coherent_def call_request_def)

lemma refresh_identified: "is_refresh wid rq \<Longrightarrow> identified wid (rq_headers rq)"
  by (auto simp: is_refresh_def dest: refresh_request_identified)

lemma sent_at_requests:
  "sent_at wid c p rqs \<Longrightarrow> length rqs \<le> 3 \<and> (\<forall>rq\<in>set rqs. identified wid (rq_headers rq))"
  by (cases p) (auto split: if_splits dest: attempt_identified refresh_identified)

lemma logged_sent_by: "(i, rq) \<in> set (y_log y) \<Longrightarrow> rq \<in> set (sent_by i y)"
  by (force simp: sent_by_def)

text \<open>
  C2: However the coroutines of one transport are interleaved, with connect and close in between:
  the authentication header holds the current token, each request has sent what its place in the
  code says (one attempt, a refresh only after it, a second attempt only after the refresh), so at
  most three HTTP requests, and every one of them carries the worker's identity.
\<close>
theorem concurrent_requests:
  assumes "(sys_step E)\<^sup>*\<^sup>* (sys_start (HttpTransport_init url wid tok session retries delay) calls) y"
  shows "dget AUTH_HEADER_WORKER (headers (y_obj y)) = Some (token (y_obj y)) \<and>
    (\<forall>i < length (y_tasks y). sent_at wid (t_call (y_tasks y ! i)) (t_pc (y_tasks y ! i)) (sent_by i y) \<and>
       length (sent_by i y) \<le> 3) \<and>
    (\<forall>(i, rq) \<in> set (y_log y). identified wid (rq_headers rq))"
proof -
  let ?s = "HttpTransport_init url wid tok session retries delay"
  have "coherent ?s" "worker_id ?s = wid"
    by (simp_all add: coherent_def identified_def HttpTransport_init_def dget_def)
  with sys_run_inv [OF assms sys_start_inv] have inv: "sys_inv wid y" by metis
  then have at: "sent_at wid (t_call (y_tasks y ! i)) (t_pc (y_tasks y ! i)) (sent_by i y)"
    if "i < length (y_tasks y)" for i using that by (simp add: sys_inv_def)
  have "identified wid (rq_headers rq)" if "(i, rq) \<in> set (y_log y)" for i rq
    using inv that sent_at_requests [OF at [of i]] logged_sent_by [OF that] by (auto simp: sys_inv_def)
  with inv sent_at_requests [OF at] at show ?thesis by (auto simp: sys_inv_def coherent_def)
qed

subsection \<open>Every task ends\<close>

fun steps_left :: "pc \<Rightarrow> nat" where
  "steps_left Ready = 4"
| "steps_left (Waiting k) = (if k = 0 then 3 else 1)"
| "steps_left Refreshing = 2"
| "steps_left (Finished r) = 0"

definition work_left :: "system \<Rightarrow> nat" where
  "work_left y = sum_list (map (\<lambda>t. steps_left (t_pc t)) (y_tasks y))"

lemma moved_steps_left:
  "moved t s (t', s', rqs) \<Longrightarrow> \<not> (\<exists>r. t_pc t = Finished r) \<Longrightarrow> steps_left (t_pc t') < steps_left (t_pc t)"
  by (cases "t_pc t'"; cases "t_pc t") (auto simp: moved_def)

lemma task_step_work: "task_step E y y' \<Longrightarrow> work_left y' < work_left y \<and> length (y_tasks y') = length (y_tasks y)"
proof -
  assume "task_step E y y'"
  then obtain i t' s' rqs where i: "i < length (y_tasks y)" and y': "y' = put i (t', s', rqs) y"
    and "moved (y_tasks y ! i) (y_obj y) (t', s', rqs)" "\<not> (\<exists>r. t_pc (y_tasks y ! i) = Finished r)"
    by (rule task_step_moved)
  then have "steps_left (t_pc t') < steps_left (t_pc (y_tasks y ! i))" by (blast intro: moved_steps_left)
  with i y' show ?thesis by (simp add: work_left_def map_update sum_list_less)
qed

text \<open>A run with the number of steps its tasks have made.\<close>

inductive sys_run :: "'b http_env \<Rightarrow> nat \<Rightarrow> system \<Rightarrow> system \<Rightarrow> bool" for E where
  run_none: "sys_run E 0 y y"
| run_task: "sys_run E n y y' \<Longrightarrow> task_step E y' y'' \<Longrightarrow> sys_run E (Suc n) y y''"
| run_connect: "sys_run E n y y' \<Longrightarrow> sys_run E n y (y'\<lparr>y_obj := http_connect (y_obj y')\<rparr>)"
| run_close: "sys_run E n y y' \<Longrightarrow> sys_run E n y (y'\<lparr>y_obj := http_close (y_obj y')\<rparr>)"

lemma sys_run_work: "sys_run E n y y' \<Longrightarrow> n + work_left y' \<le> work_left y"
proof (induction rule: sys_run.induct)
  case (run_task n y y' y'')
  from task_step_work [OF run_task.hyps(2)] run_task.IH show ?case by simp
qed (simp_all add: work_left_def)

lemma unfinished_step:
  assumes "t \<in> set (y_tasks y)" and "\<not> (\<exists>r. t_pc t = Finished r)"
  shows "\<exists>y'. task_step E y y'"
proof -
  from assms(1) obtain i where i: "i < length (y_tasks y)" "y_tasks y ! i = t" by (auto simp: in_set_conv_nth)
  with assms(2) have "t_pc (y_tasks y ! i) = Ready \<or> awaiting (t_pc (y_tasks y ! i))"
    by (cases "t_pc t") auto
  with i(1) show ?thesis by (blast intro: begin_task answer_task)
qed

lemma concurrent_requests_witness:
  "\<exists>y. (sys_step plain_env)\<^sup>*\<^sup>* (sys_start (HttpTransport_init ''http://h'' ''w1'' ''t0'' (Some False) 3 0)
        [(ping, False), (ping, False)]) y \<and>
    length (y_log y) = 2 \<and> (\<forall>(i, rq) \<in> set (y_log y). identified ''w1'' (rq_headers rq))"
proof -
  let ?s = "HttpTransport_init ''http://h'' ''w1'' ''t0'' (Some False) 3 0"
  let ?y0 = "sys_start ?s [(ping, False), (ping, False)]"
  let ?y1 = "put 0 (task_begin plain_env (y_tasks ?y0 ! 0) (y_obj ?y0)) ?y0"
  let ?y2 = "put 1 (task_begin plain_env (y_tasks ?y1 ! 1) (y_obj ?y1)) ?y1"
  have "task_step plain_env ?y0 ?y1" by (rule begin_task) (simp_all add: sys_start_def)
  moreover have s: "session_closed ?s = Some False" by (simp add: HttpTransport_init_def)
  then have y1: "?y1 = put 0 (attempt (y_tasks ?y0 ! 0) 0 ?s) ?y0" by (simp add: task_begin_def sys_start_def)
  then have "task_step plain_env ?y1 ?y2" by (intro begin_task) (simp_all add: sys_start_def attempt_def)
  ultimately have run: "(sys_step plain_env)\<^sup>*\<^sup>* ?y0 ?y2"
    by (meson by_task r_into_rtranclp rtranclp.rtrancl_into_rtrancl)
  have "length (y_log ?y2) = 2" unfolding y1 using s by (simp add: task_begin_def sys_start_def attempt_def)
  with run concurrent_requests [OF run] show ?thesis by blast
qed

text \<open>
  C19: Concurrent requests cannot run for ever, whatever the peer answers: a run of n requests has
  at most 4n steps of tasks, and a state from which no task can move is one in which every request
  has its result.
\<close>
theorem concurrent_termination:
  assumes "sys_run E n (sys_start s calls) y"
  shows "n \<le> 4 * length calls \<and>
    ((\<nexists>y'. task_step E y y') \<longleftrightarrow> (\<forall>t \<in> set (y_tasks y). \<exists>r. t_pc t = Finished r))"
proof
  have "work_left (sys_start s calls) = 4 * length calls"
    by (induction calls) (auto simp: work_left_def sys_start_def)
  with sys_run_work [OF assms] show "n \<le> 4 * length calls" by simp
  show "(\<nexists>y'. task_step E y y') \<longleftrightarrow> (\<forall>t \<in> set (y_tasks y). \<exists>r. t_pc t = Finished r)"
  proof
    assume "\<nexists>y'. task_step E y y'"
    with unfinished_step show "\<forall>t \<in> set (y_tasks y). \<exists>r. t_pc t = Finished r" by blast
  next
    assume fin: "\<forall>t \<in> set (y_tasks y). \<exists>r. t_pc t = Finished r"
    show "\<nexists>y'. task_step E y y'"
    proof
      assume "\<exists>y'. task_step E y y'"
      then obtain y' where "task_step E y y'" ..
      then show False by (rule task_step_moved) (use fin nth_mem in blast)
    qed
  qed
qed

lemma concurrent_termination_witness:
  "\<exists>y. sys_run plain_env 1 (sys_start (HttpTransport_init ''http://h'' ''w1'' ''t0'' None 3 0) [(ping, False)]) y \<and>
    (\<nexists>y'. task_step plain_env y y')"
proof -
  let ?y0 = "sys_start (HttpTransport_init ''http://h'' ''w1'' ''t0'' None 3 0) [(ping, False)]"
  let ?y1 = "put 0 (task_begin plain_env (y_tasks ?y0 ! 0) (y_obj ?y0)) ?y0"
  have "task_step plain_env ?y0 ?y1" by (rule begin_task) (simp_all add: sys_start_def)
  from run_task [OF run_none this] have run: "sys_run plain_env 1 ?y0 ?y1" by simp
  have "\<forall>t \<in> set (y_tasks ?y1). \<exists>r. t_pc t = Finished r"
    by (simp add: task_begin_def task_end_def sys_start_def HttpTransport_init_def)
  with run concurrent_termination [OF run] show ?thesis by blast
qed

subsection \<open>One task alone\<close>

lemma http_refresh_outcome:
  "session_closed s \<noteq> None \<Longrightarrow> http_refresh_token E s w =
    (let r = refresh_outcome E (w_peer w (w_log w) (refresh_request s))
     in (r, case r of Inr (Some res) \<Rightarrow> set_token res s | _ \<Rightarrow> s, world_after w [Sent (refresh_request s)]))"
  by (auto simp: http_refresh_token_def refresh_outcome_def exchange_eq Let_def split: sum.split option.split)

text \<open>The answers of the world, given to a task that waits.\<close>

lemma answer_step:
  assumes "i < length (y_tasks y)" and "awaiting (t_pc t)"
    and "task_answer E t outcome s = (t', s', rqs')"
  shows "task_step E (put i (t, s, rqs) y) (put i (t', s', rqs @ rqs') y)"
proof -
  have "task_step E (put i (t, s, rqs) y)
      (put i (task_answer E (y_tasks (put i (t, s, rqs) y) ! i) outcome (y_obj (put i (t, s, rqs) y))) (put i (t, s, rqs) y))"
    by (rule answer_task) (use assms in simp_all)
  with assms show ?thesis by (simp add: put_put)
qed

text \<open>
  A task that runs without interruption, with the answers the world gives, ends with what
  \<open>http_request_call\<close> returns, the same object and the same requests.
\<close>

lemma task_end_pc [simp]: "task_end E (t\<lparr>t_pc := p\<rparr>) r s = task_end E t r s"
  by (cases t) (auto simp: task_end_def split: sum.split)

lemma session_note_version [simp]: "session_closed (note_version resp s) = session_closed s"
  by (simp add: note_version_def split: option.split)

text \<open>An attempt that is not followed by a refresh.\<close>

lemma attempt_ends:
  assumes "request_loop E (t_call t) (k # as) hdrs s w = (r, s1, w1)"
    and "outcome = w_peer w (w_log w) (call_request (t_call t) s hdrs)"
    and "\<And>resp. outcome = Inr resp \<Longrightarrow> rs_status resp = 401 \<Longrightarrow> k \<noteq> 0"
  shows "w1 = world_after w [Sent (call_request (t_call t) s hdrs)] \<and>
    task_answer E (t\<lparr>t_pc := Waiting k\<rparr>) outcome s = task_end E t r s1"
proof (cases outcome)
  case (Inl e)
  with assms(1) assms(2) [symmetric] show ?thesis
    by (auto simp: request_loop.simps exchange_eq task_answer_def)
next
  case (Inr resp)
  with assms(1,3) assms(2) [symmetric] show ?thesis
    by (auto simp: request_loop.simps exchange_eq task_answer_def Let_def split: if_splits)
qed

lemma solo_last:
  assumes i: "i < length (y_tasks y)"
    and run: "request_loop E (t_call t) [1] (headers s) s w = (r, s1, w1)"
    and fin: "task_end E t r s1 = (t', s', [])"
  shows "w1 = world_after w [Sent (call_request (t_call t) s (headers s))] \<and>
    (task_step E)\<^sup>*\<^sup>* (put i (t\<lparr>t_pc := Waiting 1\<rparr>, s, rqs) y) (put i (t', s', rqs) y)"
proof -
  let ?o = "w_peer w (w_log w) (call_request (t_call t) s (headers s))"
  have *: "w1 = world_after w [Sent (call_request (t_call t) s (headers s))] \<and>
      task_answer E (t\<lparr>t_pc := Waiting 1\<rparr>) ?o s = task_end E t r s1"
    using attempt_ends [OF run refl] by simp
  with fin have "task_answer E (t\<lparr>t_pc := Waiting 1\<rparr>) ?o s = (t', s', [])" by simp
  from answer_step [OF i _ this, of rqs] * show ?thesis by auto
qed

lemma solo_first:
  assumes i: "i < length (y_tasks y)" and sess: "session_closed s \<noteq> None"
    and run: "request_loop E (t_call t) [0, 1] (headers s) s w = (r, s1, w1)"
    and fin: "task_end E t r s1 = (t', s', [])"
  defines "rq \<equiv> call_request (t_call t) s (headers s)"
  shows "\<exists>rqs. w1 = world_after w (map Sent (rq # rqs)) \<and>
    (task_step E)\<^sup>*\<^sup>* (put i (t\<lparr>t_pc := Waiting 0\<rparr>, s, [rq]) y) (put i (t', s', rq # rqs) y)"
proof -
  let ?o = "w_peer w (w_log w) rq" and ?t0 = "t\<lparr>t_pc := Waiting 0\<rparr>"
  show ?thesis
  proof (cases "\<exists>resp. ?o = Inr resp \<and> rs_status resp = 401")
    case False
    with attempt_ends [OF run refl] rq_def
    have *: "w1 = world_after w [Sent rq] \<and> task_answer E ?t0 ?o s = task_end E t r s1" by auto
    with fin have "task_answer E ?t0 ?o s = (t', s', [])" by simp
    from answer_step [OF i _ this, of "[rq]"] * show ?thesis by (auto intro!: exI [of _ "[]"])
  next
    case True
    then obtain resp where o: "?o = Inr resp" and 401: "rs_status resp = 401" by blast
    let ?n = "note_version resp s" and ?w = "world_after w [Sent rq]"
    let ?ref = "refresh_request ?n" and ?tr = "t\<lparr>t_pc := Refreshing\<rparr>"
    let ?ro = "refresh_outcome E (w_peer ?w (w_log ?w) ?ref)" and ?w2 = "world_after w [Sent rq, Sent ?ref]"
    have "task_answer E ?t0 ?o s = (?tr, ?n, [?ref])"
      using o 401 sess by (simp add: task_answer_def Let_def)
    from answer_step [OF i _ this, of "[rq]"]
    have first: "task_step E (put i (?t0, s, [rq]) y) (put i (?tr, ?n, [rq, ?ref]) y)" by simp
    have second: "task_step E (put i (?tr, ?n, [rq, ?ref]) y) (put i (t2, s2, [rq, ?ref] @ rqs2) y)"
      if "task_answer E ?tr (w_peer ?w (w_log ?w) ?ref) ?n = (t2, s2, rqs2)" for t2 s2 rqs2
      using answer_step [OF i _ that, of "[rq, ?ref]"] by simp
    note run' = run [unfolded request_loop.simps(2) [of E "t_call t" 0 "[1]"] exchange_eq rq_def [symmetric]]
    show ?thesis
    proof (cases ?ro)
      case (Inl e)
      with run' o 401 sess fin have "w1 = ?w2" "task_answer E ?tr (w_peer ?w (w_log ?w) ?ref) ?n = (t', s', [])"
        by (auto simp: http_refresh_outcome Let_def task_answer_def)
      with first second [of t' s' "[]"] show ?thesis by (auto intro!: exI [of _ "[?ref]"])
    next
      case (Inr res)
      show ?thesis
      proof (cases res)
        case None
        with Inr run' o 401 sess fin have "w1 = ?w2" "task_answer E ?tr (w_peer ?w (w_log ?w) ?ref) ?n = (t', s', [])"
          by (auto simp: http_refresh_outcome Let_def task_answer_def)
        with first second [of t' s' "[]"] show ?thesis by (auto intro!: exI [of _ "[?ref]"])
      next
        case (Some tok)
        let ?s2 = "set_token tok ?n"
        let ?rq2 = "call_request (t_call t) ?s2 (headers ?s2)"
        have "task_answer E ?tr (w_peer ?w (w_log ?w) ?ref) ?n = (t\<lparr>t_pc := Waiting 1\<rparr>, ?s2, [?rq2])"
          using Some Inr by (cases t) (simp add: task_answer_def Let_def attempt_def)
        from second [OF this] first have steps: "(task_step E)\<^sup>*\<^sup>* (put i (?t0, s, [rq]) y)
            (put i (t\<lparr>t_pc := Waiting 1\<rparr>, ?s2, [rq, ?ref, ?rq2]) y)"
          by (auto intro: converse_rtranclp_into_rtranclp)
        have "request_loop E (t_call t) [1] (headers ?s2) ?s2 ?w2 = (r, s1, w1)"
          using Inr Some run' o 401 sess by (simp add: http_refresh_outcome Let_def)
        from solo_last [OF i this fin, of "[rq, ?ref, ?rq2]"] steps show ?thesis
          by (auto intro!: exI [of _ "[?ref, ?rq2]"])
      qed
    qed
  qed
qed

lemma solo_run:
  assumes i: "i < length (y_tasks y)" and t: "y_tasks y ! i = t" "t_pc t = Ready"
    and run: "http_request_call E (t_call t) (y_obj y) w = (r, s1, w1)"
    and fin: "task_end E t r s1 = (t', s', [])"
  shows "\<exists>rqs. w1 = world_after w (map Sent rqs) \<and> (task_step E)\<^sup>*\<^sup>* y (put i (t', s', rqs) y)"
proof -
  have first: "task_step E y (put i (task_begin E t (y_obj y)) y)"
    using begin_task [of i y E] i t by simp
  let ?rq = "call_request (t_call t) (y_obj y) (headers (y_obj y))"
  show ?thesis
  proof (cases "session_closed (y_obj y) = None")
    case True
    with run have "r = Inl not_connected" "s1 = y_obj y" "w1 = world_after w []" by (auto simp: http_request_call_def)
    with first True fin show ?thesis by (auto simp: task_begin_def intro!: exI [of _ "[]"])
  next
    case False
    with run have "request_loop E (t_call t) [0, 1] (headers (y_obj y)) (y_obj y) w = (r, s1, w1)"
      by (simp add: http_request_call_def)
    then obtain rqs where "w1 = world_after w (map Sent (?rq # rqs))"
      and "(task_step E)\<^sup>*\<^sup>* (put i (t\<lparr>t_pc := Waiting 0\<rparr>, y_obj y, [?rq]) y) (put i (t', s', ?rq # rqs) y)"
      using solo_first [OF i False _ fin] by blast
    with first False show ?thesis
      by (intro exI [of _ "?rq # rqs"]) (auto simp: task_begin_def attempt_def intro: converse_rtranclp_into_rtranclp)
  qed
qed

lemma sys_steps: "(task_step E)\<^sup>*\<^sup>* y y' \<Longrightarrow> (sys_step E)\<^sup>*\<^sup>* y y'"
  by (induction rule: rtranclp_induct) (auto intro: by_task rtranclp.rtrancl_into_rtrancl)

text \<open>
  The request of the sequential model is one of the interleavings: what http_request_call returns,
  sends and leaves of the object is reached by steps of the concurrent system in which the other
  tasks stand still.
\<close>
lemma request_is_a_run:
  assumes "i < length (y_tasks y)" and "y_tasks y ! i = \<lparr>t_call = c, t_register = False, t_pc = Ready\<rparr>"
    and run: "http_request_call E c (y_obj y) w = (r, s', w')"
  shows "\<exists>rqs. w' = world_after w (map Sent rqs) \<and>
    (sys_step E)\<^sup>*\<^sup>* y (put i (\<lparr>t_call = c, t_register = False, t_pc = Finished r\<rparr>, s', rqs) y)"
proof -
  let ?t = "\<lparr>t_call = c, t_register = False, t_pc = Ready\<rparr>"
  have "task_end E ?t r s' = (\<lparr>t_call = c, t_register = False, t_pc = Finished r\<rparr>, s', [])"
    by (simp add: task_end_def split: sum.split)
  with solo_run [OF assms(1,2) _ _ this, of w w'] run obtain rqs where "w' = world_after w (map Sent rqs)"
    and "(task_step E)\<^sup>*\<^sup>* y (put i (\<lparr>t_call = c, t_register = False, t_pc = Finished r\<rparr>, s', rqs) y)"
    by auto
  then show ?thesis by (blast intro: sys_steps)
qed

lemma request_is_a_run_witness:
  "\<exists>s' rqs. (sys_step plain_env)\<^sup>*\<^sup>* (sys_start s0 [(ping, False)])
    (put 0 (\<lparr>t_call = ping, t_register = False, t_pc = Finished (Inr (PStr ''ok''))\<rparr>, s', rqs)
      (sys_start s0 [(ping, False)]))"
proof -
  obtain r s' w' where run: "http_request_call plain_env ping s0 (w_of expired_peer) = (r, s', w')"
    by (cases "http_request_call plain_env ping s0 (w_of expired_peer)")
  have "fst (http_request_call plain_env ping s0 (w_of expired_peer)) = Inr (PStr ''ok'')"
    by (simp add: http_request_call_def request_loop.simps client_eval map_err_def handle_status_def)
  with run have "r = Inr (PStr ''ok'')" by simp
  with request_is_a_run [of 0 "sys_start s0 [(ping, False)]" ping plain_env] run show ?thesis
    by (fastforce simp: sys_start_def)
qed

text \<open>A task of \<open>register\<close> alone is \<open>http_register\<close>.\<close>

lemma register_is_a_run:
  assumes "i < length (y_tasks y)" and "y_tasks y ! i = \<lparr>t_call = register_call reg, t_register = True, t_pc = Ready\<rparr>"
    and run: "http_register E reg (y_obj y) w = (r, s', w')"
  shows "\<exists>rqs. w' = world_after w (map Sent rqs) \<and> (sys_step E)\<^sup>*\<^sup>* y
    (put i (\<lparr>t_call = register_call reg, t_register = True, t_pc = Finished r\<rparr>, s', rqs) y)"
proof -
  let ?t = "\<lparr>t_call = register_call reg, t_register = True, t_pc = Ready\<rparr>"
  obtain r1 s1 w1 where rq: "http_request_call E (register_call reg) (y_obj y) w = (r1, s1, w1)"
    by (cases "http_request_call E (register_call reg) (y_obj y) w")
  with run have w': "w' = w1"
    and fin: "task_end E ?t r1 s1 = (\<lparr>t_call = register_call reg, t_register = True, t_pc = Finished r\<rparr>, s', [])"
    by (auto simp: http_register_def task_end_def split: sum.splits if_splits)
  from solo_run [OF assms(1,2) _ _ fin, of w w1] rq obtain rqs where "w1 = world_after w (map Sent rqs)"
    and "(task_step E)\<^sup>*\<^sup>* y
      (put i (\<lparr>t_call = register_call reg, t_register = True, t_pc = Finished r\<rparr>, s', rqs) y)"
    by auto
  then show ?thesis unfolding w' by (blast intro: sys_steps)
qed

subsection \<open>Schedules, and two refreshes at once\<close>

datatype turn = Begin nat | Answer nat "exn + http_response"

fun take_turn :: "'b http_env \<Rightarrow> system \<Rightarrow> turn \<Rightarrow> system option" where
  "take_turn E y (Begin i) =
     (if i < length (y_tasks y) \<and> t_pc (y_tasks y ! i) = Ready
      then Some (put i (task_begin E (y_tasks y ! i) (y_obj y)) y) else None)"
| "take_turn E y (Answer i outcome) =
     (if i < length (y_tasks y) \<and> awaiting (t_pc (y_tasks y ! i))
      then Some (put i (task_answer E (y_tasks y ! i) outcome (y_obj y)) y) else None)"

fun take_turns :: "'b http_env \<Rightarrow> system \<Rightarrow> turn list \<Rightarrow> system option" where
  "take_turns E y [] = Some y"
| "take_turns E y (x # xs) = (case take_turn E y x of None \<Rightarrow> None | Some y' \<Rightarrow> take_turns E y' xs)"

lemma take_turns_run: "take_turns E y xs = Some y' \<Longrightarrow> (sys_step E)\<^sup>*\<^sup>* y y'"
proof (induction xs arbitrary: y)
  case (Cons x xs)
  then obtain u where u: "take_turn E y x = Some u" and rest: "take_turns E u xs = Some y'"
    by (auto split: option.splits)
  from u have "sys_step E y u" by (cases x) (auto intro: by_task task_step.intros split: if_splits)
  from this Cons.IH [OF rest] show ?case by (rule converse_rtranclp_into_rtranclp)
qed simp

text \<open>
  A worker with a refresh token, two requests at once, and a token that has expired: both
  requests are refused, both tasks refresh, with the same refresh token, which the orchestrator
  accepts once.
\<close>

definition race_transport :: http_transport where
  "race_transport = s0\<lparr>refresh_token_value := Some ''r0''\<rparr>"

definition fresh_token :: pyval where
  "fresh_token = PDict [(''access_token'', PStr ''t1''), (''expires_in'', PInt 300), (''worker_id'', PStr ''w1''),
     (''refresh_token'', PStr ''r1'')]"

definition race_turns :: "turn list" where
  "race_turns = [Begin 0, Begin 1, Answer 0 (Inr (reply 401 PNone)), Answer 1 (Inr (reply 401 PNone)),
     Answer 0 (Inr (reply 200 fresh_token)), Answer 1 (Inr (reply 401 PNone))]"

lemma race_refreshes:
  "refresh_outcome plain_env (Inr (reply 401 PNone)) = Inr None"
  "refresh_outcome plain_env (Inr (reply 200 fresh_token)) =
     Inr (Some \<lparr>access_token = ''t1'', expires_in = 300, tr_worker_id = ''w1'', refresh_token = Some ''r1''\<rparr>)"
  by (simp_all add: refresh_outcome_def fresh_token_def client_eval)

lemma race_transport_facts:
  "session_closed race_transport = Some False" "note_version (reply n v) s = s"
  "rq_json (refresh_request race_transport) = Some (PDict [(''refresh_token'', PStr ''r0'')])"
  "c_endpoint ping = ''/x''"
  by (simp_all add: race_transport_def note_version_def refresh_request_def ping_def)

text \<open>
  Nothing keeps two coroutines from refreshing at the same time: two requests answered with 401
  both send the same refresh token, and when the service refuses to take it twice, the second
  request fails with RxonAuthError although the transport holds a fresh token.
\<close>
theorem concurrent_refresh_race:
  "\<exists>y. (sys_step plain_env)\<^sup>*\<^sup>* (sys_start race_transport [(ping, False), (ping, False)]) y \<and>
    rq_json (sent_by 0 y ! 1) = Some (PDict [(''refresh_token'', PStr ''r0'')]) \<and>
    rq_json (sent_by 1 y ! 1) = Some (PDict [(''refresh_token'', PStr ''r0'')]) \<and>
    t_pc (y_tasks y ! 1) = Finished (Inl (auth_error ''/x'')) \<and>
    t_pc (y_tasks y ! 0) = Waiting 1 \<and> token (y_obj y) = ''t1''"
proof -
  have "\<exists>y. take_turns plain_env (sys_start race_transport [(ping, False), (ping, False)]) race_turns = Some y \<and>
    rq_json (sent_by 0 y ! 1) = Some (PDict [(''refresh_token'', PStr ''r0'')]) \<and>
    rq_json (sent_by 1 y ! 1) = Some (PDict [(''refresh_token'', PStr ''r0'')]) \<and>
    t_pc (y_tasks y ! 1) = Finished (Inl (auth_error ''/x'')) \<and>
    t_pc (y_tasks y ! 0) = Waiting 1 \<and> token (y_obj y) = ''t1''"
    by (simp add: race_turns_def sys_start_def task_begin_def attempt_def task_answer_def task_end_def
        sent_by_def race_refreshes race_transport_facts set_token_def, blast)
  then show ?thesis using take_turns_run by blast
qed

end
