(* ===== verification/Rxon_Threads.thy ===== *)
theory Rxon_Threads
  imports Rxon_Validation
begin

text \<open>
  \<open>get_compiled_validator\<close> (\<^verbatim>\<open>schema.py\<close>) run by several threads on one cache: the read
  without the lock, the lock, the second read, the compilation, the eviction, the store and the
  release are separate steps, between which other threads run.  Under every interleaving one
  thread at a time is in the locked part, the cache is what executions of \<open>validator_section\<close>
  one after the other leave (so that part is atomic to the rest of the development), nobody
  waits for ever, and every answer is the validator of the schema.
\<close>

subsection \<open>Threads\<close>

datatype stage =
    Enter | First_read | Acquire | Second_read | Compile | Evict validator | Store validator
  | Release "validator option" | Returned "validator option"

record 'b cache_sys =
  v_cache :: "'b vcache"
  v_lock :: "nat option" \<comment> \<open>\<open>_cache_lock\<close> and the thread that holds it\<close>
  v_threads :: "(pyval \<times> stage) list"

definition shrink :: "'b vcache \<Rightarrow> 'b vcache" where
  "shrink c = (if MAX_VALIDATOR_CACHE_SIZE \<le> length c then tl c else c)"

text \<open>One step of thread \<open>i\<close>; None when it waits for the lock or has returned.\<close>

fun thread_step :: "'b schema_env \<Rightarrow> nat \<Rightarrow> pyval \<Rightarrow> stage \<Rightarrow> 'b vcache \<Rightarrow> nat option \<Rightarrow>
    (stage \<times> 'b vcache \<times> nat option) option" where
  "thread_step E i schema Enter c l = Some (if \<not> truthy schema then Returned None else First_read, c, l)"
| "thread_step E i schema First_read c l =
     Some (case map_of c (schema_key E schema) of Some v \<Rightarrow> Returned (Some v) | None \<Rightarrow> Acquire, c, l)"
| "thread_step E i schema Acquire c l = (if l = None then Some (Second_read, c, Some i) else None)"
| "thread_step E i schema Second_read c l =
     Some (case map_of c (schema_key E schema) of Some v \<Rightarrow> Release (Some v) | None \<Rightarrow> Compile, c, l)"
| "thread_step E i schema Compile c l =
     Some (case compiled E schema of None \<Rightarrow> Release None | Some v \<Rightarrow> Evict v, c, l)"
| "thread_step E i schema (Evict v) c l = Some (Store v, shrink c, l)"
| "thread_step E i schema (Store v) c l = Some (Release (Some v), dset (schema_key E schema) v c, l)"
| "thread_step E i schema (Release r) c l = Some (Returned r, c, None)"
| "thread_step E i schema (Returned r) c l = None"

inductive cache_step :: "'b schema_env \<Rightarrow> 'b cache_sys \<Rightarrow> 'b cache_sys \<Rightarrow> bool" for E where
  "i < length (v_threads y) \<Longrightarrow> v_threads y ! i = (schema, st) \<Longrightarrow>
   thread_step E i schema st (v_cache y) (v_lock y) = Some (st', c', l') \<Longrightarrow>
   cache_step E y \<lparr>v_cache = c', v_lock = l', v_threads = (v_threads y)[i := (schema, st')]\<rparr>"

definition cache_start :: "pyval list \<Rightarrow> 'b cache_sys" where
  "cache_start schemas = \<lparr>v_cache = [], v_lock = None, v_threads = map (\<lambda>s. (s, Enter)) schemas\<rparr>"

fun in_section :: "stage \<Rightarrow> bool" where
  "in_section Second_read = True" | "in_section Compile = True" | "in_section (Evict v) = True"
| "in_section (Store v) = True" | "in_section (Release r) = True"
| "in_section Enter = False" | "in_section First_read = False" | "in_section Acquire = False"
| "in_section (Returned r) = False"

subsection \<open>The invariant\<close>

definition sections :: "'b schema_env \<Rightarrow> pyval list \<Rightarrow> 'b vcache" where
  "sections E ss = foldl (\<lambda>c s. snd (validator_section E s c)) [] ss"

text \<open>What a thread may answer: what some schema with the key compiles to.\<close>

definition right_answer :: "'b schema_env \<Rightarrow> pyval \<Rightarrow> validator option \<Rightarrow> bool" where
  "right_answer E schema r \<longleftrightarrow>
     (if truthy schema then \<exists>s. schema_key E s = schema_key E schema \<and> compiled E s = r else r = None)"

fun stage_ok :: "'b schema_env \<Rightarrow> pyval \<Rightarrow> stage \<Rightarrow> bool" where
  "stage_ok E schema Enter = True"
| "stage_ok E schema (Returned r) = right_answer E schema r"
| "stage_ok E schema (Release r) = (truthy schema \<and> right_answer E schema r)"
| "stage_ok E schema (Evict v) = (truthy schema \<and> compiled E schema = Some v)"
| "stage_ok E schema (Store v) = (truthy schema \<and> compiled E schema = Some v)"
| "stage_ok E schema st = truthy schema"

text \<open>
  How far the thread in the locked part is: the cache before its section is what the completed
  ones left.
\<close>

fun between :: "'b schema_env \<Rightarrow> pyval \<Rightarrow> stage \<Rightarrow> 'b vcache \<Rightarrow> 'b vcache \<Rightarrow> bool" where
  "between E schema Compile c a = (c = a \<and> map_of a (schema_key E schema) = None)"
| "between E schema (Evict v) c a = (c = a \<and> map_of a (schema_key E schema) = None)"
| "between E schema (Store v) c a = (c = shrink a \<and> map_of a (schema_key E schema) = None)"
| "between E schema st c a = (c = a)"

definition cache_inv :: "'b schema_env \<Rightarrow> 'b cache_sys \<Rightarrow> bool" where
  "cache_inv E y \<longleftrightarrow>
     (\<forall>i < length (v_threads y). (in_section (snd (v_threads y ! i)) \<longleftrightarrow> v_lock y = Some i) \<and>
        stage_ok E (fst (v_threads y ! i)) (snd (v_threads y ! i))) \<and>
     (\<exists>ss. set ss \<subseteq> fst ` set (v_threads y) \<and>
       (case v_lock y of
          None \<Rightarrow> v_cache y = sections E ss
        | Some i \<Rightarrow> i < length (v_threads y) \<and>
            between E (fst (v_threads y ! i)) (snd (v_threads y ! i)) (v_cache y) (sections E ss)))"

lemma sections_snoc: "sections E (ss @ [s]) = snd (validator_section E s (sections E ss))"
  by (simp add: sections_def)

lemma sections_ok: "vcache.cache_ok E (sections E ss)"
  unfolding sections_def by (rule vcache.cache_ok_run [OF vcache.cache_ok_Nil])

lemma shrink_ok: "vcache.cache_ok E c \<Longrightarrow> vcache.cache_ok E (shrink c)"
  by (cases c) (auto simp: shrink_def vcache.cache_ok_def)

lemma set_shrink: "set (shrink c) \<subseteq> set c"
  by (cases c) (auto simp: shrink_def)

lemma between_ok: "between E schema st c (sections E ss) \<Longrightarrow> vcache.cache_ok E c"
  using sections_ok [of E ss] by (cases st) (auto intro: shrink_ok)

lemma inv_cache_ok: "cache_inv E y \<Longrightarrow> vcache.cache_ok E (v_cache y)"
  using sections_ok by (fastforce simp: cache_inv_def intro: between_ok split: option.splits)

lemma read_answer:
  "vcache.cache_ok E c \<Longrightarrow> map_of c (schema_key E schema) = Some v \<Longrightarrow> truthy schema \<Longrightarrow>
    right_answer E schema (Some v)"
  by (fastforce simp: right_answer_def vcache.cache_ok_def dest: map_of_SomeD)

lemma own_answer: "truthy schema \<Longrightarrow> compiled E schema = r \<Longrightarrow> right_answer E schema r"
  by (auto simp: right_answer_def)

lemma no_answer: "\<not> truthy schema \<Longrightarrow> right_answer E schema None"
  by (simp add: right_answer_def)

lemma step_stage_ok:
  assumes "thread_step E i schema st c l = Some (st', c', l')" and "stage_ok E schema st"
    and "vcache.cache_ok E c"
  shows "stage_ok E schema st'"
  using assms by (cases st) (auto intro: read_answer own_answer no_answer split: option.splits if_splits)

lemma step_section:
  "thread_step E i schema st c l = Some (st', c', l') \<Longrightarrow> (in_section st \<longleftrightarrow> l = Some i) \<Longrightarrow>
    (in_section st' \<longleftrightarrow> l' = Some i) \<and> (if in_section st \<or> in_section st' then l = None \<or> l = Some i else c' = c \<and> l' = l)"
  by (cases st) (auto split: option.splits if_splits)

lemma stored_section:
  assumes "map_of a (schema_key E schema) = None" and "compiled E schema = Some v"
  shows "dset (schema_key E schema) v (shrink a) = snd (validator_section E schema a)"
proof -
  have "schema_key E schema \<notin> fst ` set (shrink a)"
    using assms(1) set_shrink [of a] by (auto simp: map_of_eq_None_iff)
  with assms show ?thesis
    by (simp add: dset_fresh validator_section_def cache_fill_def shrink_def)
qed

text \<open>A step inside the locked part; the store is the moment at which the section counts as done.\<close>

lemma section_step:
  assumes "thread_step E i schema st c l = Some (st', c', l')" and "stage_ok E schema st"
    and "in_section st" and "between E schema st c (sections E ss)"
  shows "\<exists>ss'. set ss' \<subseteq> insert schema (set ss) \<and> between E schema st' c' (sections E ss')"
proof (cases st)
  case (Store v)
  with assms have "c' = snd (validator_section E schema (sections E ss))" and "st' = Release (Some v)"
    using stored_section [of "sections E ss" E schema v] by auto
  then show ?thesis by (intro exI [of _ "ss @ [schema]"]) (auto simp: sections_snoc)
qed (use assms in \<open>auto intro!: exI [of _ ss] split: option.splits\<close>)

lemma cache_step_inv:
  assumes "cache_step E y y'" and inv: "cache_inv E y"
  shows "cache_inv E y'"
  using assms(1)
proof cases
  case (1 i schema st st' c' l')
  from inv 1 have sec: "in_section st \<longleftrightarrow> v_lock y = Some i" and ok: "stage_ok E schema st"
    by (auto simp: cache_inv_def)
  from inv obtain ss where ss: "set ss \<subseteq> fst ` set (v_threads y)"
    and lock: "case v_lock y of None \<Rightarrow> v_cache y = sections E ss
      | Some j \<Rightarrow> j < length (v_threads y) \<and>
          between E (fst (v_threads y ! j)) (snd (v_threads y ! j)) (v_cache y) (sections E ss)"
    by (auto simp: cache_inv_def)
  note step = 1(4) and y' = 1(1)
  from step_stage_ok [OF step ok inv_cache_ok [OF inv]] have ok': "stage_ok E schema st'" .
  from step_section [OF step sec] have sec': "in_section st' \<longleftrightarrow> l' = Some i"
    and frame: "if in_section st \<or> in_section st' then v_lock y = None \<or> v_lock y = Some i
      else c' = v_cache y \<and> l' = v_lock y" by auto
  have schema: "schema \<in> fst ` set (v_threads y)" using 1(2,3) by (metis fst_conv image_eqI nth_mem)
  have others: "in_section (snd (v_threads y ! j)) \<longleftrightarrow> l' = Some j" if "j < length (v_threads y)" "j \<noteq> i" for j
    using that inv frame sec sec' step by (cases st) (auto simp: cache_inv_def split: option.splits if_splits)
  have threads': "fst ` set (v_threads y') = fst ` set (v_threads y)"
    unfolding y' using 1(2,3) by (simp add: set_map [symmetric] map_update del: set_map) (metis fst_conv list_update_id nth_map)
  have "\<exists>ss'. set ss' \<subseteq> fst ` set (v_threads y) \<and>
    (case l' of None \<Rightarrow> c' = sections E ss'
     | Some j \<Rightarrow> j < length (v_threads y) \<and>
         between E (fst ((v_threads y)[i := (schema, st')] ! j)) (snd ((v_threads y)[i := (schema, st')] ! j)) c'
           (sections E ss'))"
  proof (cases "in_section st")
    case True
    with lock sec 1(3) have "between E schema st (v_cache y) (sections E ss)" by simp
    from section_step [OF step ok True this] obtain ss' where ss': "set ss' \<subseteq> insert schema (set ss)"
      and b: "between E schema st' c' (sections E ss')" by blast
    from True step have "l' = Some i \<or> l' = None \<and> (\<exists>r. st' = Returned r)"
      using sec by (cases st) (auto split: option.splits)
    with ss' ss schema b 1(2) show ?thesis by (intro exI [of _ ss']) auto
  next
    case False
    show ?thesis
    proof (cases "in_section st'")
      case True
      with False step have "v_lock y = None" "l' = Some i" "c' = v_cache y" "st' = Second_read"
        by (cases st; auto split: option.splits if_splits)+
      with ss lock 1(2) show ?thesis by auto
    next
      case False': False
      with False frame have same: "c' = v_cache y" "l' = v_lock y" by auto
      with sec False have "l' \<noteq> Some i" by simp
      with same ss lock show ?thesis by (auto split: option.splits simp: nth_list_update)
    qed
  qed
  moreover have "(in_section (snd ((v_threads y)[i := (schema, st')] ! j)) \<longleftrightarrow> l' = Some j) \<and>
      stage_ok E (fst ((v_threads y)[i := (schema, st')] ! j)) (snd ((v_threads y)[i := (schema, st')] ! j))"
    if "j < length (v_threads y)" for j
    using that ok' sec' others [of j] inv by (cases "j = i") (simp_all add: cache_inv_def)
  ultimately show ?thesis
    unfolding cache_inv_def threads' by (simp add: y' cong: option.case_cong)
qed

lemma cache_start_inv: "cache_inv E (cache_start schemas)"
  by (auto simp: cache_inv_def cache_start_def sections_def intro: exI [of _ "[]"])

lemma cache_run_inv: "(cache_step E)\<^sup>*\<^sup>* (cache_start schemas) y \<Longrightarrow> cache_inv E y"
  by (induction rule: rtranclp_induct) (auto intro: cache_start_inv cache_step_inv)

lemma cache_step_schemas: "cache_step E y y' \<Longrightarrow> map fst (v_threads y') = map fst (v_threads y)"
  by (erule cache_step.cases) (simp add: map_update, metis fst_conv list_update_id nth_map length_map)

lemma cache_run_schemas: "(cache_step E)\<^sup>*\<^sup>* (cache_start schemas) y \<Longrightarrow> map fst (v_threads y) = schemas"
  by (induction rule: rtranclp_induct) (auto simp: cache_step_schemas cache_start_def o_def)

subsection \<open>Schedules\<close>

definition thread_turn :: "'b schema_env \<Rightarrow> nat \<Rightarrow> 'b cache_sys \<Rightarrow> 'b cache_sys option" where
  "thread_turn E i y =
     (if i < length (v_threads y) then
        (case v_threads y ! i of (schema, st) \<Rightarrow>
           (case thread_step E i schema st (v_cache y) (v_lock y) of
              None \<Rightarrow> None
            | Some (st', c', l') \<Rightarrow>
                Some \<lparr>v_cache = c', v_lock = l', v_threads = (v_threads y)[i := (schema, st')]\<rparr>))
      else None)"

fun thread_turns :: "'b schema_env \<Rightarrow> nat list \<Rightarrow> 'b cache_sys \<Rightarrow> 'b cache_sys option" where
  "thread_turns E [] y = Some y"
| "thread_turns E (i # is) y = (case thread_turn E i y of None \<Rightarrow> None | Some y' \<Rightarrow> thread_turns E is y')"

lemma thread_turn_step: "thread_turn E i y = Some y' \<Longrightarrow> cache_step E y y'"
  by (auto simp: thread_turn_def intro: cache_step.intros split: if_splits prod.splits option.splits)

lemma thread_turns_run: "thread_turns E is y = Some y' \<Longrightarrow> (cache_step E ^^ length is) y y'"
proof (induction "is" arbitrary: y)
  case (Cons i "is")
  then obtain u where "thread_turn E i y = Some u" and "thread_turns E is u = Some y'"
    by (auto split: option.splits)
  with Cons.IH have "cache_step E y u" "(cache_step E ^^ length is) u y'" by (auto intro: thread_turn_step)
  then show ?case by (simp add: relpowp_Suc_I2 del: relpowp.simps)
qed simp

text \<open>
  Two threads with one schema, both past the first read when the first takes the lock: the
  second finds the validator on its second read.
\<close>

definition one_schema :: pyval where
  "one_schema = PDict [(''type'', PStr ''object'')]"

definition two_readers :: "nat list" where
  "two_readers = [0, 0, 1, 1, 0, 0, 0, 0, 0, 0, 1, 1, 1]"

lemma two_readers_run:
  "\<exists>y v. thread_turns plain_schema_env two_readers (cache_start [one_schema, one_schema]) = Some y \<and>
    v_cache y = [(schema_key plain_schema_env one_schema, v)] \<and> v_lock y = None \<and>
    v_threads y = [(one_schema, Returned (Some v)), (one_schema, Returned (Some v))]"
proof -
  obtain v where v: "compiled plain_schema_env one_schema = Some v"
    by (auto simp: compiled_def plain_schema_env_def one_schema_def dget_def)
  have t: "truthy one_schema" by (simp add: one_schema_def)
  show ?thesis
    by (rule exI [of _ "\<lparr>v_cache = [(schema_key plain_schema_env one_schema, v)], v_lock = None,
          v_threads = [(one_schema, Returned (Some v)), (one_schema, Returned (Some v))]\<rparr>"], rule exI [of _ v])
      (simp add: two_readers_def cache_start_def thread_turn_def shrink_def v t MAX_VALIDATOR_CACHE_SIZE_def)
qed

subsection \<open>Properties\<close>

text \<open>
  C6: Under every interleaving of threads on the validator cache: the cache holds at most 1024
  entries with distinct keys, at most one thread is inside the lock, and every thread returns the
  validator of its schema (when cache keys determine what is compiled).
\<close>
theorem threads_share_cache:
  assumes "(cache_step E)\<^sup>*\<^sup>* (cache_start schemas) y" and "keys_faithful E"
  shows "length (v_cache y) \<le> 1024 \<and> distinct (map fst (v_cache y)) \<and>
    (\<forall>i < length (v_threads y). \<forall>j < length (v_threads y).
       in_section (snd (v_threads y ! i)) \<and> in_section (snd (v_threads y ! j)) \<longrightarrow> i = j) \<and>
    (\<forall>(schema, st) \<in> set (v_threads y). \<forall>r. st = Returned r \<longrightarrow>
       r = (if truthy schema then compiled E schema else None))"
proof -
  note inv = cache_run_inv [OF assms(1)]
  have "r = (if truthy schema then compiled E schema else None)"
    if "(schema, Returned r) \<in> set (v_threads y)" for schema r
  proof -
    from that obtain i where "i < length (v_threads y)" "v_threads y ! i = (schema, Returned r)"
      by (auto simp: in_set_conv_nth)
    moreover from this(1) inv have "stage_ok E (fst (v_threads y ! i)) (snd (v_threads y ! i))"
      by (simp add: cache_inv_def)
    ultimately have answer: "right_answer E schema r" by simp
    show ?thesis
    proof (cases "truthy schema")
      case True
      with answer obtain s where "schema_key E s = schema_key E schema" "compiled E s = r"
        by (auto simp: right_answer_def)
      moreover from this(1) assms(2) have "compiled E s = compiled E schema"
        unfolding keys_faithful_def by blast
      ultimately show ?thesis using True by simp
    qed (use answer in \<open>simp add: right_answer_def\<close>)
  qed
  moreover have "i = j" if "i < length (v_threads y)" "j < length (v_threads y)"
      "in_section (snd (v_threads y ! i))" "in_section (snd (v_threads y ! j))" for i j
    using inv that by (auto simp: cache_inv_def)
  moreover have "length (v_cache y) \<le> MAX_VALIDATOR_CACHE_SIZE \<and> distinct (map fst (v_cache y))"
    using inv_cache_ok [OF inv] by (simp add: vcache.cache_ok_def)
  ultimately show ?thesis
    unfolding MAX_VALIDATOR_CACHE_SIZE_def by blast
qed

lemma threads_share_cache_witness:
  "\<exists>y. (cache_step plain_schema_env)\<^sup>*\<^sup>* (cache_start [one_schema, one_schema]) y \<and> length (v_cache y) = 1 \<and>
    (\<forall>(schema, st) \<in> set (v_threads y). \<exists>v. compiled plain_schema_env schema = Some v \<and> st = Returned (Some v))"
proof -
  obtain y v where y: "thread_turns plain_schema_env two_readers (cache_start [one_schema, one_schema]) = Some y"
    and res: "v_cache y = [(schema_key plain_schema_env one_schema, v)]"
      "v_threads y = [(one_schema, Returned (Some v)), (one_schema, Returned (Some v))]"
    using two_readers_run by blast
  from thread_turns_run [OF y] have run: "(cache_step plain_schema_env)\<^sup>*\<^sup>* (cache_start [one_schema, one_schema]) y"
    by (rule relpowp_imp_rtranclp)
  have "truthy one_schema" by (simp add: one_schema_def)
  with threads_share_cache [OF run plain_keys_faithful] res
  have "compiled plain_schema_env one_schema = Some v" by auto
  with run res show ?thesis by (intro exI [of _ y]) simp
qed

text \<open>
  C15: Whenever the lock is free, the shared cache is what executions of the locked part one after
  the other would have left: the threads' steps refine the atomic section of the sequential model.
\<close>
theorem section_is_atomic:
  assumes "(cache_step E)\<^sup>*\<^sup>* (cache_start schemas) y" and "v_lock y = None"
  shows "\<exists>ss. set ss \<subseteq> set schemas \<and> v_cache y = foldl (\<lambda>c s. snd (validator_section E s c)) [] ss"
proof -
  from cache_run_inv [OF assms(1)] assms(2) obtain ss where "set ss \<subseteq> fst ` set (v_threads y)"
    and "v_cache y = sections E ss"
    by (auto simp: cache_inv_def)
  moreover have "set schemas = fst ` set (v_threads y)"
    unfolding cache_run_schemas [OF assms(1), symmetric] by simp
  ultimately show ?thesis by (auto simp: sections_def)
qed

lemma section_is_atomic_witness:
  "\<exists>y ss. (cache_step plain_schema_env)\<^sup>*\<^sup>* (cache_start [one_schema, one_schema]) y \<and> length (v_cache y) = 1 \<and>
    set ss \<subseteq> {one_schema} \<and> v_cache y = foldl (\<lambda>c s. snd (validator_section plain_schema_env s c)) [] ss"
proof -
  obtain y v where y: "thread_turns plain_schema_env two_readers (cache_start [one_schema, one_schema]) = Some y"
    and res: "v_cache y = [(schema_key plain_schema_env one_schema, v)]" "v_lock y = None"
    using two_readers_run by blast
  from thread_turns_run [OF y] have run: "(cache_step plain_schema_env)\<^sup>*\<^sup>* (cache_start [one_schema, one_schema]) y"
    by (rule relpowp_imp_rtranclp)
  from section_is_atomic [OF run res(2)] run res(1) show ?thesis by fastforce
qed

subsection \<open>Nobody waits for ever\<close>

fun stages_left :: "stage \<Rightarrow> nat" where
  "stages_left Enter = 8" | "stages_left First_read = 7" | "stages_left Acquire = 6"
| "stages_left Second_read = 5" | "stages_left Compile = 4" | "stages_left (Evict v) = 3"
| "stages_left (Store v) = 2" | "stages_left (Release r) = 1" | "stages_left (Returned r) = 0"

definition stages_of :: "'b cache_sys \<Rightarrow> nat" where
  "stages_of y = sum_list (map (\<lambda>t. stages_left (snd t)) (v_threads y))"

lemma step_decreases: "thread_step E i schema st c l = Some (st', c', l') \<Longrightarrow> stages_left st' < stages_left st"
  by (cases st) (auto split: option.splits if_splits)

lemma cache_step_decreases: "cache_step E y y' \<Longrightarrow> stages_of y' < stages_of y"
proof (erule cache_step.cases)
  fix i yy schema st st' c' l'
  assume a: "y = yy" "y' = \<lparr>v_cache = c', v_lock = l', v_threads = (v_threads yy)[i := (schema, st')]\<rparr>"
    "i < length (v_threads yy)" "v_threads yy ! i = (schema, st)"
    "thread_step E i schema st (v_cache yy) (v_lock yy) = Some (st', c', l')"
  from step_decreases [OF a(5)] a(3,4) show "stages_of y' < stages_of y"
    unfolding a(1,2) stages_of_def by (simp add: map_update sum_list_less)
qed

lemma cache_run_length: "(cache_step E ^^ n) y y' \<Longrightarrow> n + stages_of y' \<le> stages_of y"
proof (induction n arbitrary: y')
  case (Suc n)
  then obtain u where "(cache_step E ^^ n) y u" and "cache_step E u y'" by auto
  with Suc.IH cache_step_decreases show ?case by fastforce
qed simp

lemma thread_can_step:
  assumes "i < length (v_threads y)" and "\<not> (\<exists>r. snd (v_threads y ! i) = Returned r)"
    and "snd (v_threads y ! i) = Acquire \<Longrightarrow> v_lock y = None"
  shows "\<exists>y'. cache_step E y y'"
proof -
  obtain schema st where t: "v_threads y ! i = (schema, st)" by (cases "v_threads y ! i")
  with assms(2,3) have "thread_step E i schema st (v_cache y) (v_lock y) \<noteq> None" by (cases st) auto
  then obtain st' c' l' where "thread_step E i schema st (v_cache y) (v_lock y) = Some (st', c', l')" by auto
  from cache_step.intros [OF assms(1) t this] show ?thesis by blast
qed

text \<open>
  C20: The threads cannot deadlock: n threads take at most 8n steps, and when no thread can move,
  all have returned.
\<close>
theorem threads_all_return:
  assumes "(cache_step E ^^ n) (cache_start schemas) y"
  shows "n \<le> 8 * length schemas \<and>
    ((\<nexists>y'. cache_step E y y') \<longleftrightarrow> (\<forall>(schema, st) \<in> set (v_threads y). \<exists>r. st = Returned r))"
proof
  have "stages_of (cache_start schemas :: 'a cache_sys) = 8 * length schemas"
    by (induction schemas) (auto simp: stages_of_def cache_start_def)
  with cache_run_length [OF assms] show "n \<le> 8 * length schemas" by simp
  from assms have inv: "cache_inv E y" by (intro cache_run_inv relpowp_imp_rtranclp)
  show "(\<nexists>y'. cache_step E y y') \<longleftrightarrow> (\<forall>(schema, st) \<in> set (v_threads y). \<exists>r. st = Returned r)"
  proof
    assume stuck: "\<nexists>y'. cache_step E y y'"
    have free: "v_lock y = None"
    proof (rule ccontr)
      assume "v_lock y \<noteq> None"
      then obtain i where i: "v_lock y = Some i" by auto
      with inv have "i < length (v_threads y)" "in_section (snd (v_threads y ! i))"
        by (auto simp: cache_inv_def)
      with stuck thread_can_step [of i y E] show False by fastforce
    qed
    show "\<forall>(schema, st) \<in> set (v_threads y). \<exists>r. st = Returned r"
    proof safe
      fix schema st assume "(schema, st) \<in> set (v_threads y)"
      then obtain i where "i < length (v_threads y)" "v_threads y ! i = (schema, st)"
        by (auto simp: in_set_conv_nth)
      with stuck free thread_can_step [of i y E] show "\<exists>r. st = Returned r" by fastforce
    qed
  next
    assume fin: "\<forall>(schema, st) \<in> set (v_threads y). \<exists>r. st = Returned r"
    show "\<nexists>y'. cache_step E y y'"
    proof
      assume "\<exists>y'. cache_step E y y'"
      then obtain y' where "cache_step E y y'" ..
      then show False by cases (use fin nth_mem in fastforce)
    qed
  qed
qed

lemma threads_all_return_witness:
  "\<exists>y. (cache_step plain_schema_env ^^ 13) (cache_start [one_schema, one_schema]) y \<and>
    (\<nexists>y'. cache_step plain_schema_env y y')"
proof -
  obtain y v where y: "thread_turns plain_schema_env two_readers (cache_start [one_schema, one_schema]) = Some y"
    and res: "v_threads y = [(one_schema, Returned (Some v)), (one_schema, Returned (Some v))]"
    using two_readers_run by blast
  have "length two_readers = 13" by (simp add: two_readers_def)
  with thread_turns_run [OF y] have run: "(cache_step plain_schema_env ^^ 13) (cache_start [one_schema, one_schema]) y"
    by (simp del: relpowp.simps)
  with threads_all_return [OF run] res show ?thesis by auto
qed

end
