(* ===== verification/Rxon_Imports.thy ===== *)
theory Rxon_Imports
  imports Py_Prelude
begin

text \<open>
  What Python does when modules of a package import each other: the table of loaded modules, the
  execution of a module's top-level statements, the import of the parents of a module, relative
  names, circular imports and star imports.  A program is a table of module bodies; what is
  installed outside of it is a predicate on names.  The nesting of imports is bounded by a
  number, and a bound that suffices can be raised (\<open>import_module_mono\<close>).
\<close>

subsection \<open>Programs\<close>

type_synonym mpath = "string list"

text \<open>
  A binding refers to the object a module of the program defines, to one of an installed library,
  to a module, or to a list of exported names.
\<close>

datatype pyobj = Defined mpath string | Library mpath string | Module_object mpath | Export_list "string list"

text \<open>
  Top-level statements: \<open>from p import n as a, ...\<close> with the number of leading dots; a class,
  function or assignment that binds a name after it has read others (bases, decorators,
  annotations, default values); a name bound to the object of another one; \<open>__all__\<close>.
\<close>

datatype stmt =
    From_import nat mpath "(string \<times> string) list"
  | Bind string "string list"
  | Copy string string
  | Set_all "string list"

definition same :: "string list \<Rightarrow> (string \<times> string) list" where
  "same ns = map (\<lambda>n. (n, n)) ns"

datatype import_error = No_module mpath | No_name mpath string | Unbound_name mpath string | Too_deep

record program =
  pbody :: "mpath \<Rightarrow> stmt list option"
  is_package :: "mpath \<Rightarrow> bool"

text \<open>The loaded modules with their namespaces, in the order in which they were started.\<close>

type_synonym modules = "(mpath \<times> pyobj dict) list"

definition namespace :: "modules \<Rightarrow> mpath \<Rightarrow> pyobj dict" where
  "namespace ms p = (case map_of ms p of Some d \<Rightarrow> d | None \<Rightarrow> [])"

definition assign :: "mpath \<Rightarrow> string \<Rightarrow> pyobj \<Rightarrow> modules \<Rightarrow> modules" where
  "assign p n v ms = dset p (dset n v (namespace ms p)) ms"

definition loaded :: "modules \<Rightarrow> mpath \<Rightarrow> bool" where
  "loaded ms p \<longleftrightarrow> p \<in> set (map fst ms)"

lemma loaded_assign [simp]: "loaded (assign p n v ms) q' \<longleftrightarrow> q' = p \<or> loaded ms q'"
  by (auto simp: loaded_def assign_def)

lemma loaded_dset [simp]: "loaded (dset p d ms) q' \<longleftrightarrow> q' = p \<or> loaded ms q'"
  by (auto simp: loaded_def)

subsection \<open>Execution of a module\<close>

definition package_of :: "program \<Rightarrow> mpath \<Rightarrow> mpath" where
  "package_of P here = (if is_package P here then here else butlast here)"

definition resolve_name :: "program \<Rightarrow> mpath \<Rightarrow> nat \<Rightarrow> mpath \<Rightarrow> mpath" where
  "resolve_name P here level p =
     (if level = 0 then p
      else (let pkg = package_of P here in take (length pkg - (level - 1)) pkg @ p))"

definition internal :: "program \<Rightarrow> mpath \<Rightarrow> bool" where
  "internal P p \<longleftrightarrow> p \<noteq> [] \<and> pbody P [hd p] \<noteq> None"

fun foldl_res :: "('s \<Rightarrow> 'a \<Rightarrow> 'e + 's) \<Rightarrow> 's \<Rightarrow> 'a list \<Rightarrow> 'e + 's" where
  "foldl_res f s [] = Inr s"
| "foldl_res f s (x # xs) = rbind (f s x) (\<lambda>s'. foldl_res f s' xs)"

definition take_name :: "mpath \<Rightarrow> mpath \<Rightarrow> modules \<Rightarrow> string \<times> string \<Rightarrow> import_error + modules" where
  "take_name from here ms na =
     (case dget (fst na) (namespace ms from) of
        Some v \<Rightarrow> Inr (assign here (snd na) v ms)
      | None \<Rightarrow> if loaded ms (from @ [fst na])
          then Inr (assign here (snd na) (Module_object (from @ [fst na])) ms)
          else Inl (No_name from (fst na)))"

definition take_library :: "(mpath \<Rightarrow> string \<Rightarrow> bool) \<Rightarrow> mpath \<Rightarrow> mpath \<Rightarrow> modules \<Rightarrow> string \<times> string \<Rightarrow> import_error + modules" where
  "take_library provides lib here ms na =
     (if provides lib (fst na) then Inr (assign here (snd na) (Library lib (fst na)) ms)
      else Inl (No_name lib (fst na)))"

fun exec_stmt :: "(mpath \<Rightarrow> string \<Rightarrow> bool) \<Rightarrow> program \<Rightarrow> (mpath \<Rightarrow> modules \<Rightarrow> import_error + modules) \<Rightarrow>
    mpath \<Rightarrow> modules \<Rightarrow> stmt \<Rightarrow> import_error + modules" where
  "exec_stmt provides P imp here ms (From_import level p names) =
     (let from = resolve_name P here level p
      in if internal P from then rbind (imp from ms) (\<lambda>ms'. foldl_res (take_name from here) ms' names)
         else foldl_res (take_library provides from here) ms names)"
| "exec_stmt provides P imp here ms (Bind n uses) =
     (case filter (\<lambda>u. dget u (namespace ms here) = None) uses of
        [] \<Rightarrow> Inr (assign here n (Defined here n) ms)
      | u # us \<Rightarrow> Inl (Unbound_name here u))"
| "exec_stmt provides P imp here ms (Copy n m) =
     (case dget m (namespace ms here) of
        Some v \<Rightarrow> Inr (assign here n v ms) | None \<Rightarrow> Inl (Unbound_name here m))"
| "exec_stmt provides P imp here ms (Set_all ns) = Inr (assign here ''__all__'' (Export_list ns) ms)"

text \<open>A module is in the table before its body runs, so a circular import sees it half done.\<close>

definition run_module :: "(mpath \<Rightarrow> string \<Rightarrow> bool) \<Rightarrow> program \<Rightarrow> (mpath \<Rightarrow> modules \<Rightarrow> import_error + modules) \<Rightarrow>
    mpath \<Rightarrow> modules \<Rightarrow> import_error + modules" where
  "run_module provides P imp p ms =
     (case pbody P p of
        None \<Rightarrow> Inl (No_module p)
      | Some body \<Rightarrow>
          foldl_res (exec_stmt provides P imp p) (dset p [(''__name__'', Defined p ''__name__'')] ms) body)"

text \<open>The parents of a module are imported before it; a loaded submodule is bound in its parent.\<close>

fun load_parts :: "(mpath \<Rightarrow> modules \<Rightarrow> import_error + modules) \<Rightarrow> mpath \<Rightarrow> string list \<Rightarrow> modules \<Rightarrow> import_error + modules" where
  "load_parts run parent [] ms = Inr ms"
| "load_parts run parent (n # ns) ms =
     (let p = parent @ [n]
      in rbind
           (if loaded ms p then Inr ms
            else rbind (run p ms)
              (\<lambda>ms'. Inr (if parent = [] then ms' else assign parent n (Module_object p) ms')))
           (load_parts run p ns))"

primrec import_module :: "(mpath \<Rightarrow> string \<Rightarrow> bool) \<Rightarrow> program \<Rightarrow> nat \<Rightarrow> mpath \<Rightarrow> modules \<Rightarrow> import_error + modules" where
  "import_module provides P 0 p ms = Inl Too_deep"
| "import_module provides P (Suc k) p ms = load_parts (run_module provides P (import_module provides P k)) [] p ms"

text \<open>\<open>from p import *\<close> takes the names of \<open>__all__\<close>, or all that do not start with an underscore.\<close>

definition star_names :: "pyobj dict \<Rightarrow> string list" where
  "star_names d =
     (case dget ''__all__'' d of
        Some (Export_list ns) \<Rightarrow> ns
      | _ \<Rightarrow> filter (\<lambda>n. \<not> startswith n ''_'') (map fst d))"

fun star_import :: "pyobj dict \<Rightarrow> string list \<Rightarrow> pyobj dict \<Rightarrow> string + pyobj dict" where
  "star_import d [] here = Inr here"
| "star_import d (n # ns) here =
     (case dget n d of None \<Rightarrow> Inl n | Some v \<Rightarrow> star_import d ns (dset n v here))"


subsection \<open>Laws\<close>

text \<open>Two runs of which the first may fail with an error that the relation excuses.\<close>

definition agrees :: "('e \<Rightarrow> bool) \<Rightarrow> 'e + 'a \<Rightarrow> 'e + 'a \<Rightarrow> bool" where
  "agrees excuse r r' \<longleftrightarrow> r = r' \<or> (\<exists>e. r = Inl e \<and> excuse e)"

lemma agrees_refl [simp, intro]: "agrees ex r r"
  by (simp add: agrees_def)

lemma agrees_rbind:
  "agrees ex r r' \<Longrightarrow> (\<And>x. agrees ex (f x) (f' x)) \<Longrightarrow> agrees ex (rbind r f) (rbind r' f')"
  by (cases r; cases r') (auto simp: agrees_def)

lemma agrees_foldl_res:
  "(\<And>s x. x \<in> set xs \<Longrightarrow> agrees ex (f s x) (f' s x)) \<Longrightarrow> agrees ex (foldl_res f s xs) (foldl_res f' s xs)"
  by (induction xs arbitrary: s) (auto intro!: agrees_rbind)

lemma agrees_load_parts:
  "(\<And>p ms. agrees ex (run p ms) (run' p ms)) \<Longrightarrow> agrees ex (load_parts run parent ns ms) (load_parts run' parent ns ms)"
  by (induction ns arbitrary: parent ms) (auto simp: Let_def intro!: agrees_rbind)

lemma agrees_exec_stmt:
  assumes "\<And>p ms. agrees ex (imp p ms) (imp' p ms)"
    and "\<And>from ms na. agrees ex (take_library provides from here ms na) (take_library provides' from here ms na)"
  shows "agrees ex (exec_stmt provides P imp here ms s) (exec_stmt provides' P imp' here ms s)"
  by (cases s) (auto simp: Let_def intro!: agrees_rbind agrees_foldl_res assms)

lemma agrees_import:
  assumes "\<And>from here ms na. agrees ex (take_library provides from here ms na) (take_library provides' from here ms na)"
    and "\<And>p ms. agrees ex (import_module provides P i p ms) (import_module provides' P j p ms)"
  shows "agrees ex (import_module provides P (Suc i) p ms) (import_module provides' P (Suc j) p ms)"
  unfolding import_module.simps
  by (rule agrees_load_parts)
    (auto simp: run_module_def split: option.split intro!: agrees_foldl_res agrees_exec_stmt assms)

lemma import_module_step:
  "agrees (\<lambda>e. e = Too_deep) (import_module provides P k p ms) (import_module provides P (Suc k) p ms)"
proof (induction k arbitrary: p ms)
  case 0
  show ?case by (simp add: agrees_def)
next
  case (Suc k)
  show ?case by (rule agrees_import) (simp_all add: Suc del: import_module.simps)
qed

lemma import_module_mono:
  assumes "import_module provides P k p ms = Inr ms'" and "k \<le> n"
  shows "import_module provides P n p ms = Inr ms'"
  using assms(2)
proof (induction n rule: dec_induct)
  case base
  show ?case by (rule assms(1))
next
  case (step n)
  with import_module_step [of provides P n p ms] show ?case
    by (auto simp: agrees_def simp del: import_module.simps)
qed

text \<open>Installing more never changes an import that succeeds.\<close>

lemma import_module_provides_mono:
  assumes "\<And>p n. provides p n \<Longrightarrow> provides' p n" and "import_module provides P k p ms = Inr ms'"
  shows "import_module provides' P k p ms = Inr ms'"
proof -
  have "agrees (\<lambda>e. True) (import_module provides P k p ms) (import_module provides' P k p ms)"
  proof (induction k arbitrary: p ms)
    case 0
    show ?case by simp
  next
    case (Suc k)
    have "agrees (\<lambda>e. True) (take_library provides from here ms na) (take_library provides' from here ms na)"
      for "from" here ms na
      by (auto simp: take_library_def agrees_def assms(1))
    then show ?case by (rule agrees_import [OF _ Suc])
  qed
  with assms(2) show ?thesis by (auto simp: agrees_def)
qed

text \<open>
  What the statements of a module ask for: names of libraries, modules of the program, and the
  names they bind.
\<close>

fun stmt_requires :: "program \<Rightarrow> mpath \<Rightarrow> stmt \<Rightarrow> (mpath \<times> string) list" where
  "stmt_requires P here (From_import level p names) =
     (let from = resolve_name P here level p
      in if internal P from then [] else map (\<lambda>na. (from, fst na)) names)"
| "stmt_requires P here _ = []"

fun stmt_targets :: "program \<Rightarrow> mpath \<Rightarrow> stmt \<Rightarrow> mpath list" where
  "stmt_targets P here (From_import level p names) =
     (let from = resolve_name P here level p in if internal P from then [from] else [])"
| "stmt_targets P here _ = []"

fun stmt_binds :: "stmt \<Rightarrow> string list" where
  "stmt_binds (From_import level p names) = map snd names"
| "stmt_binds (Bind n uses) = [n]"
| "stmt_binds (Copy n m) = [n]"
| "stmt_binds (Set_all ns) = [''__all__'']"

definition module_stmts :: "program \<Rightarrow> mpath \<Rightarrow> stmt list" where
  "module_stmts P p = (case pbody P p of None \<Rightarrow> [] | Some body \<Rightarrow> body)"

definition requires :: "program \<Rightarrow> mpath \<Rightarrow> (mpath \<times> string) list" where
  "requires P p = concat (map (stmt_requires P p) (module_stmts P p))"

definition satisfied :: "(mpath \<Rightarrow> string \<Rightarrow> bool) \<Rightarrow> program \<Rightarrow> mpath \<Rightarrow> bool" where
  "satisfied provides P p \<longleftrightarrow> (\<forall>(l, n) \<in> set (requires P p). provides l n)"

definition bound :: "modules \<Rightarrow> mpath \<Rightarrow> string \<Rightarrow> bool" where
  "bound ms p n \<longleftrightarrow> dget n (namespace ms p) \<noteq> None"

definition stmt_finished :: "(mpath \<Rightarrow> string \<Rightarrow> bool) \<Rightarrow> program \<Rightarrow> mpath \<Rightarrow> modules \<Rightarrow> stmt \<Rightarrow> bool" where
  "stmt_finished provides P p ms s \<longleftrightarrow>
     (\<forall>(l, n) \<in> set (stmt_requires P p s). provides l n) \<and>
     (\<forall>t \<in> set (stmt_targets P p s). loaded ms t) \<and>
     (\<forall>n \<in> set (stmt_binds s). bound ms p n)"

definition finished :: "(mpath \<Rightarrow> string \<Rightarrow> bool) \<Rightarrow> program \<Rightarrow> modules \<Rightarrow> mpath \<Rightarrow> bool" where
  "finished provides P ms p \<longleftrightarrow> (\<forall>s \<in> set (module_stmts P p). stmt_finished provides P p ms s)"

text \<open>
  An import never unloads or unbinds, and every module it has loaded has run to its end.
\<close>

definition extends :: "(mpath \<Rightarrow> string \<Rightarrow> bool) \<Rightarrow> program \<Rightarrow> modules \<Rightarrow> modules \<Rightarrow> bool" where
  "extends provides P ms ms' \<longleftrightarrow>
     (\<forall>p. loaded ms p \<longrightarrow> loaded ms' p) \<and> (\<forall>p n. bound ms p n \<longrightarrow> bound ms' p n) \<and>
     (\<forall>p. loaded ms' p \<longrightarrow> loaded ms p \<or> finished provides P ms' p)"

lemma bound_assign [simp]: "bound (assign p n v ms) p' n' \<longleftrightarrow> p' = p \<and> n' = n \<or> bound ms p' n'"
  by (auto simp: bound_def assign_def namespace_def)

lemma bound_dset [simp]: "bound (dset p d ms) p' n \<longleftrightarrow> (if p' = p then dget n d \<noteq> None else bound ms p' n)"
  by (auto simp: bound_def namespace_def)

lemma bound_loaded: "bound ms p n \<Longrightarrow> loaded ms p"
  by (auto simp: bound_def loaded_def namespace_def dget_def map_of_eq_None_iff split: option.splits)
     (metis image_eqI map_of_SomeD fst_conv)

lemma stmt_finished_mono:
  "extends provides P a b \<Longrightarrow> stmt_finished provides P p a s \<Longrightarrow> stmt_finished provides P p b s"
  by (auto simp: stmt_finished_def extends_def)

lemma finished_mono: "extends provides P a b \<Longrightarrow> finished provides P a p \<Longrightarrow> finished provides P b p"
  by (auto simp: finished_def intro: stmt_finished_mono)

lemma extends_refl [intro]: "extends provides P ms ms"
  by (simp add: extends_def)

lemma extends_trans [trans]:
  assumes "extends provides P a b" and "extends provides P b c"
  shows "extends provides P a c"
  using assms finished_mono [OF assms(2)] unfolding extends_def by blast

lemma extends_assign: "loaded ms p \<Longrightarrow> extends provides P ms (assign p n v ms)"
  by (auto simp: extends_def)

lemma extends_loaded: "extends provides P ms ms' \<Longrightarrow> loaded ms p \<Longrightarrow> loaded ms' p"
  by (simp add: extends_def)

text \<open>A loop whose steps extend the table, and establish a fact that later steps keep.\<close>

lemma foldl_res_extends:
  assumes "\<And>x a b. extends provides P a b \<Longrightarrow> Q x a \<Longrightarrow> Q x b"
  shows "foldl_res f s xs = Inr s' \<Longrightarrow> loaded s here \<Longrightarrow>
   (\<And>s x s'. x \<in> set xs \<Longrightarrow> f s x = Inr s' \<Longrightarrow> loaded s here \<Longrightarrow> extends provides P s s' \<and> Q x s') \<Longrightarrow>
   extends provides P s s' \<and> (\<forall>x\<in>set xs. Q x s')"
proof (induction xs arbitrary: s)
  case Nil
  then show ?case by auto
next
  case (Cons x xs)
  from Cons.prems(1) obtain t where x: "f s x = Inr t" and xs: "foldl_res f t xs = Inr s'" by auto
  from Cons.prems(3) [OF _ x Cons.prems(2)] have e: "extends provides P s t" and q: "Q x t" by auto
  from Cons.IH [OF xs extends_loaded [OF e Cons.prems(2)]] Cons.prems(3)
  have *: "extends provides P t s' \<and> (\<forall>x\<in>set xs. Q x s')" by auto
  with assms q have "Q x s'" by blast
  with e * show ?case by (auto intro: extends_trans)
qed

lemma exec_stmt_extends:
  assumes imp: "\<And>p ms ms'. imp p ms = Inr ms' \<Longrightarrow> p \<noteq> [] \<Longrightarrow> extends provides P ms ms' \<and> loaded ms' p"
    and "exec_stmt provides P imp here ms s = Inr ms'" and here: "loaded ms here"
  shows "extends provides P ms ms' \<and> stmt_finished provides P here ms' s"
proof (cases s)
  case (From_import level p names)
  let ?from = "resolve_name P here level p"
  show ?thesis
  proof (cases "internal P ?from")
    case True
    with assms(2) From_import obtain t where t: "imp ?from ms = Inr t"
      and names: "foldl_res (take_name ?from here) t names = Inr ms'"
      by (auto simp: Let_def)
    from True have "?from \<noteq> []" by (simp add: internal_def)
    with imp [OF t] have e: "extends provides P ms t" "loaded t ?from" by auto
    have "extends provides P t ms' \<and> (\<forall>x\<in>set names. bound ms' here (snd x))"
      by (rule foldl_res_extends [where Q="\<lambda>x ms. bound ms here (snd x)", OF _ names extends_loaded [OF e(1) here]])
        (auto simp: take_name_def extends_def split: option.splits if_splits)
    with e True From_import show ?thesis
      by (auto simp: Let_def stmt_finished_def intro: extends_trans extends_loaded)
  next
    case False
    with assms(2) From_import have names: "foldl_res (take_library provides ?from here) ms names = Inr ms'"
      by (simp add: Let_def)
    have "extends provides P ms ms' \<and> (\<forall>x\<in>set names. provides ?from (fst x) \<and> bound ms' here (snd x))"
      by (rule foldl_res_extends [where Q="\<lambda>x ms. provides ?from (fst x) \<and> bound ms here (snd x)", OF _ names here])
        (auto simp: take_library_def extends_def split: if_splits)
    with False From_import show ?thesis by (auto simp: Let_def stmt_finished_def)
  qed
qed (use assms(2) here in \<open>auto simp: stmt_finished_def intro: extends_assign split: list.splits option.splits\<close>)

lemma extends_start:
  assumes "\<not> loaded ms p" and e: "extends provides P (dset p d ms) ms'" and f: "finished provides P ms' p"
  shows "extends provides P ms ms' \<and> loaded ms' p"
proof -
  have "bound ms' q n" if "bound ms q n" for q n
  proof -
    from that assms(1) have "q \<noteq> p" by (auto dest: bound_loaded)
    with that e show ?thesis by (simp add: extends_def)
  qed
  with e f show ?thesis by (auto simp: extends_def)
qed

lemma run_module_extends:
  assumes imp: "\<And>p ms ms'. imp p ms = Inr ms' \<Longrightarrow> p \<noteq> [] \<Longrightarrow> extends provides P ms ms' \<and> loaded ms' p"
    and run: "run_module provides P imp p ms = Inr ms'" and "\<not> loaded ms p"
  shows "extends provides P ms ms' \<and> loaded ms' p"
proof -
  let ?s = "dset p [(''__name__'', Defined p ''__name__'')] ms"
  from run obtain body where body: "pbody P p = Some body"
    and f: "foldl_res (exec_stmt provides P imp p) ?s body = Inr ms'"
    by (auto simp: run_module_def split: option.splits)
  have "extends provides P ?s ms' \<and> (\<forall>s\<in>set body. stmt_finished provides P p ms' s)"
  proof (rule foldl_res_extends [OF _ f])
    show "loaded ?s p" by simp
    fix s x s' assume "exec_stmt provides P imp p s x = Inr s'" and "loaded s p"
    with imp show "extends provides P s s' \<and> stmt_finished provides P p s' x"
      by (rule exec_stmt_extends)
  qed (rule stmt_finished_mono)
  with assms(3) show ?thesis
    by (intro extends_start) (auto simp: finished_def module_stmts_def body)
qed

lemma load_parts_extends:
  assumes "\<And>p ms ms'. run p ms = Inr ms' \<Longrightarrow> \<not> loaded ms p \<Longrightarrow> extends provides P ms ms' \<and> loaded ms' p"
    and "load_parts run parent ns ms = Inr ms'" and "parent = [] \<or> loaded ms parent"
  shows "extends provides P ms ms' \<and> (ns = [] \<or> loaded ms' (parent @ ns))"
  using assms(2,3)
proof (induction ns arbitrary: parent ms)
  case Nil
  then show ?case by auto
next
  case (Cons n ns)
  let ?p = "parent @ [n]"
  from Cons.prems(1) obtain t where rest: "load_parts run ?p ns t = Inr ms'"
    and t: "(if loaded ms ?p then Inr ms else rbind (run ?p ms)
              (\<lambda>ms'. Inr (if parent = [] then ms' else assign parent n (Module_object ?p) ms'))) = Inr t"
    by (auto simp: Let_def)
  have "extends provides P ms t \<and> loaded t ?p"
  proof (cases "loaded ms ?p")
    case True
    with t show ?thesis by auto
  next
    case False
    with t obtain u where u: "run ?p ms = Inr u"
      and tu: "t = (if parent = [] then u else assign parent n (Module_object ?p) u)" by auto
    from assms(1) [OF u False] have e: "extends provides P ms u" "loaded u ?p" by auto
    with Cons.prems(2) tu show ?thesis
      by (auto intro: extends_trans extends_assign extends_loaded)
  qed
  with Cons.IH [OF rest] show ?case by (auto intro: extends_trans extends_loaded)
qed

lemma import_module_extends:
  "import_module provides P k p ms = Inr ms' \<Longrightarrow> p \<noteq> [] \<Longrightarrow> extends provides P ms ms' \<and> loaded ms' p"
proof (induction k arbitrary: p ms ms')
  case 0
  then show ?case by simp
next
  case (Suc k)
  from Suc.prems(1) have "load_parts (run_module provides P (import_module provides P k)) [] p ms = Inr ms'"
    by simp
  then have "extends provides P ms ms' \<and> (p = [] \<or> loaded ms' ([] @ p))"
  proof (rule load_parts_extends [rotated])
    fix q' ms ms'
    assume "run_module provides P (import_module provides P k) q' ms = Inr ms'" and "\<not> loaded ms q'"
    with Suc.IH show "extends provides P ms ms' \<and> loaded ms' q'" by (rule run_module_extends)
  qed simp
  with Suc.prems(2) show ?case by simp
qed

text \<open>Nothing but a missing library name distinguishes two installations.\<close>

lemma foldl_res_cong [fundef_cong]:
  "xs = ys \<Longrightarrow> (\<And>s x. x \<in> set ys \<Longrightarrow> f s x = g s x) \<Longrightarrow> foldl_res f s xs = foldl_res g s ys"
  by (induction xs arbitrary: s ys) (auto cong: rbind_cong)

lemma import_module_same:
  assumes "\<And>p. satisfied provides P p" and "\<And>p. satisfied provides' P p"
  shows "import_module provides P k p ms = import_module provides' P k p ms"
proof (induction k arbitrary: p ms)
  case 0
  show ?case by simp
next
  case (Suc k)
  then have imp: "import_module provides P k = import_module provides' P k" by (intro ext)
  have stmt: "exec_stmt provides P imp here ms s = exec_stmt provides' P imp here ms s"
    if "pbody P here = Some body" "s \<in> set body" for imp here ms s body
  proof (cases s)
    case (From_import level p names)
    have "provides (resolve_name P here level p) n \<and> provides' (resolve_name P here level p) n"
      if "(n, a) \<in> set names" "\<not> internal P (resolve_name P here level p)" for n a
      using that \<open>pbody P here = Some body\<close> \<open>s \<in> set body\<close> From_import
        assms(1) [of here, unfolded satisfied_def requires_def module_stmts_def]
        assms(2) [of here, unfolded satisfied_def requires_def module_stmts_def]
      by (fastforce simp: Let_def)
    with From_import show ?thesis
      by (auto simp: Let_def take_library_def intro!: foldl_res_cong)
  qed auto
  have "run_module provides P imp = run_module provides' P imp" for imp
    by (intro ext) (auto simp: run_module_def split: option.split intro!: foldl_res_cong stmt)
  then show ?case by (simp add: imp)
qed

end
