(* ===== verification/Rxon_Import_Order.thy ===== *)
theory Rxon_Import_Order
  imports Rxon_Imports
begin

text \<open>
  When an import of a package cannot fail: a rank on modules such that each imports names of
  modules of smaller rank only, and binds a name before it reads it (\<open>ordered_program\<close>, a test
  that runs on the text of the modules).  Then an import succeeds exactly when every library
  name that the modules ask for is installed (\<open>ordered_import\<close>), whatever module is imported
  first.  The relation \<open>binds\<close> says which object a name of a module stands for; namespaces hold
  nothing else (\<open>import_module_sound\<close>).
\<close>

subsection \<open>The order\<close>

fun parts :: "mpath \<Rightarrow> string list \<Rightarrow> mpath list" where
  "parts parent [] = []"
| "parts parent (n # ns) = (parent @ [n]) # parts (parent @ [n]) ns"

definition module_binds :: "program \<Rightarrow> mpath \<Rightarrow> string list" where
  "module_binds P p = concat (map stmt_binds (module_stmts P p))"

definition reachable_target :: "program \<Rightarrow> mpath \<Rightarrow> (mpath \<Rightarrow> nat) \<Rightarrow> nat \<Rightarrow> mpath \<Rightarrow> bool" where
  "reachable_target P pkg rank r t \<longleftrightarrow>
     rank t < r \<and> (\<forall>p \<in> set (parts [] t). pbody P p \<noteq> None \<and> (p = pkg \<or> rank p < r))"

fun stmt_ordered :: "program \<Rightarrow> mpath \<Rightarrow> (mpath \<Rightarrow> nat) \<Rightarrow> mpath \<Rightarrow> string list \<Rightarrow> stmt \<Rightarrow> bool" where
  "stmt_ordered P pkg rank p bs (From_import level q' names) =
     (let from = resolve_name P p level q'
      in internal P from \<longrightarrow>
           reachable_target P pkg rank (rank p) from \<and> set (map fst names) \<subseteq> set (module_binds P from))"
| "stmt_ordered P pkg rank p bs (Bind n uses) = (set uses \<subseteq> set bs)"
| "stmt_ordered P pkg rank p bs (Copy n m) = (m \<in> set bs)"
| "stmt_ordered P pkg rank p bs (Set_all ns) = True"

fun stmts_ordered :: "program \<Rightarrow> mpath \<Rightarrow> (mpath \<Rightarrow> nat) \<Rightarrow> mpath \<Rightarrow> string list \<Rightarrow> stmt list \<Rightarrow> bool" where
  "stmts_ordered P pkg rank p bs [] = True"
| "stmts_ordered P pkg rank p bs (s # ss) =
     (stmt_ordered P pkg rank p bs s \<and> stmts_ordered P pkg rank p (stmt_binds s @ bs) ss)"

definition ordered_program :: "program \<Rightarrow> mpath \<Rightarrow> (mpath \<Rightarrow> nat) \<Rightarrow> bool" where
  "ordered_program P pkg rank \<longleftrightarrow>
     (\<forall>p. pbody P p \<noteq> None \<longrightarrow> stmts_ordered P pkg rank p [''__name__''] (module_stmts P p))"

subsection \<open>An ordered program can be imported\<close>

text \<open>The loaded modules of small rank are complete; those being loaded have a larger one.\<close>

definition settled :: "(mpath \<Rightarrow> string \<Rightarrow> bool) \<Rightarrow> program \<Rightarrow> (mpath \<Rightarrow> nat) \<Rightarrow> nat \<Rightarrow> modules \<Rightarrow> bool" where
  "settled provides P rank r ms \<longleftrightarrow> (\<forall>p. loaded ms p \<and> rank p < r \<longrightarrow> finished provides P ms p)"

lemma settled_extends: "extends provides P ms ms' \<Longrightarrow> settled provides P rank r ms \<Longrightarrow> settled provides P rank r ms'"
  using finished_mono [of provides P ms ms'] unfolding settled_def extends_def by blast

lemma settled_less: "settled provides P rank r ms \<Longrightarrow> r' \<le> r \<Longrightarrow> settled provides P rank r' ms"
  by (auto simp: settled_def)

lemma finished_bound: "finished provides P ms p \<Longrightarrow> n \<in> set (module_binds P p) \<Longrightarrow> bound ms p n"
  by (auto simp: finished_def stmt_finished_def module_binds_def)

lemma take_names_progress:
  "(\<And>na. na \<in> set names \<Longrightarrow> bound ms from (fst na)) \<Longrightarrow> \<exists>ms'. foldl_res (take_name from here) ms names = Inr ms'"
proof (induction names arbitrary: ms)
  case Nil
  then show ?case by simp
next
  case (Cons na names)
  from Cons.prems [of na] obtain v where "dget (fst na) (namespace ms from) = Some v"
    by (auto simp: bound_def)
  then have "take_name from here ms na = Inr (assign here (snd na) v ms)" by (simp add: take_name_def)
  with Cons show ?case by simp
qed

lemma take_libraries_progress:
  "(\<And>na. na \<in> set names \<Longrightarrow> provides lib (fst na)) \<Longrightarrow> \<exists>ms'. foldl_res (take_library provides lib here) ms names = Inr ms'"
  by (induction names arbitrary: ms) (auto simp: take_library_def)

lemma exec_stmt_progress:
  assumes imp: "\<And>t ms. reachable_target P pkg rank (rank p) t \<Longrightarrow> settled provides P rank (rank p) ms \<Longrightarrow>
      loaded ms pkg \<Longrightarrow> \<exists>ms'. imp t ms = Inr ms'"
    and ext: "\<And>p ms ms'. imp p ms = Inr ms' \<Longrightarrow> p \<noteq> [] \<Longrightarrow> extends provides P ms ms' \<and> loaded ms' p"
    and ord: "stmt_ordered P pkg rank p bs s" and bs: "\<forall>n\<in>set bs. bound ms p n"
    and inv: "settled provides P rank (rank p) ms" "loaded ms pkg"
    and lib: "\<forall>(l, n) \<in> set (stmt_requires P p s). provides l n"
  shows "\<exists>ms'. exec_stmt provides P imp p ms s = Inr ms'"
proof (cases s)
  case (From_import level q' names)
  let ?from = "resolve_name P p level q'"
  show ?thesis
  proof (cases "internal P ?from")
    case True
    with ord From_import have t: "reachable_target P pkg rank (rank p) ?from"
      and sub: "set (map fst names) \<subseteq> set (module_binds P ?from)" by (simp_all add: Let_def)
    from imp [OF t inv] obtain u where u: "imp ?from ms = Inr u" ..
    from True ext [OF u] have e: "extends provides P ms u" "loaded u ?from" by (auto simp: internal_def)
    from settled_extends [OF e(1) inv(1)] e(2) t have "finished provides P u ?from"
      by (auto simp: settled_def reachable_target_def)
    with sub have "bound u ?from (fst na)" if "na \<in> set names" for na
      using that by (auto intro!: finished_bound)
    then obtain ms' where "foldl_res (take_name ?from p) u names = Inr ms'"
      using take_names_progress by blast
    with True From_import u show ?thesis by (simp add: Let_def)
  next
    case False
    with lib From_import have "provides ?from (fst na)" if "na \<in> set names" for na
      using that by (auto simp: Let_def)
    then obtain ms' where "foldl_res (take_library provides ?from p) ms names = Inr ms'"
      using take_libraries_progress by blast
    with False From_import show ?thesis by (simp add: Let_def)
  qed
next
  case (Bind n uses)
  with ord bs have "filter (\<lambda>u. dget u (namespace ms p) = None) uses = []"
    by (auto simp: bound_def filter_empty_conv)
  with Bind show ?thesis by simp
next
  case (Copy n m)
  with ord bs show ?thesis by (auto simp: bound_def)
qed simp

lemma body_progress:
  assumes imp: "\<And>t ms. reachable_target P pkg rank (rank p) t \<Longrightarrow> settled provides P rank (rank p) ms \<Longrightarrow>
      loaded ms pkg \<Longrightarrow> \<exists>ms'. imp t ms = Inr ms'"
    and ext: "\<And>p ms ms'. imp p ms = Inr ms' \<Longrightarrow> p \<noteq> [] \<Longrightarrow> extends provides P ms ms' \<and> loaded ms' p"
  shows "stmts_ordered P pkg rank p bs ss \<Longrightarrow> \<forall>n\<in>set bs. bound ms p n \<Longrightarrow> loaded ms p \<Longrightarrow>
    settled provides P rank (rank p) ms \<Longrightarrow> loaded ms pkg \<Longrightarrow>
    \<forall>s\<in>set ss. \<forall>(l, n) \<in> set (stmt_requires P p s). provides l n \<Longrightarrow>
    \<exists>ms'. foldl_res (exec_stmt provides P imp p) ms ss = Inr ms'"
proof (induction ss arbitrary: bs ms)
  case Nil
  then show ?case by simp
next
  case (Cons s ss)
  have "\<exists>u. exec_stmt provides P imp p ms s = Inr u"
    by (rule exec_stmt_progress [where pkg=pkg and rank=rank and bs=bs, OF imp ext]) (use Cons.prems in auto)
  then obtain u where u: "exec_stmt provides P imp p ms s = Inr u" ..
  from exec_stmt_extends [OF ext u Cons.prems(3)]
  have e: "extends provides P ms u" and f: "stmt_finished provides P p u s" by auto
  have "\<exists>ms'. foldl_res (exec_stmt provides P imp p) u ss = Inr ms'"
  proof (rule Cons.IH [where bs="stmt_binds s @ bs"])
    show "\<forall>n\<in>set (stmt_binds s @ bs). bound u p n"
      using e f Cons.prems(2) by (auto simp: extends_def stmt_finished_def)
  qed (use Cons.prems e in \<open>auto intro: extends_loaded settled_extends\<close>)
  with u show ?case by simp
qed

lemma load_parts_progress:
  assumes run: "\<And>p ms. p \<in> set (parts parent ns) \<Longrightarrow> I ms \<Longrightarrow> \<not> loaded ms p \<Longrightarrow> \<exists>ms'. run p ms = Inr ms'"
    and ext: "\<And>p ms ms'. run p ms = Inr ms' \<Longrightarrow> \<not> loaded ms p \<Longrightarrow> extends provides P ms ms' \<and> loaded ms' p"
    and inv: "\<And>ms ms'. extends provides P ms ms' \<Longrightarrow> I ms \<Longrightarrow> I ms'"
    and "I ms" and "parent = [] \<or> loaded ms parent"
  shows "\<exists>ms'. load_parts run parent ns ms = Inr ms'"
  using assms(1,4,5)
proof (induction ns arbitrary: parent ms)
  case Nil
  then show ?case by simp
next
  case (Cons n ns)
  let ?p = "parent @ [n]"
  show ?case
  proof (cases "loaded ms ?p")
    case True
    with Cons.IH [of ?p ms] Cons.prems show ?thesis by simp
  next
    case False
    with Cons.prems obtain u where u: "run ?p ms = Inr u" by auto
    let ?v = "if parent = [] then u else assign parent n (Module_object ?p) u"
    from ext [OF u False] have e: "extends provides P ms u" "loaded u ?p" by auto
    with Cons.prems(3) have "extends provides P ms ?v"
      by (auto intro: extends_trans extends_assign extends_loaded)
    then have "\<exists>ms'. load_parts run ?p ns ?v = Inr ms'"
      using Cons.IH [of ?p ?v] Cons.prems(1,2) inv e(2) by auto
    with False u show ?thesis by (simp add: Let_def)
  qed
qed

lemma run_module_import_extends:
  "run_module provides P (import_module provides P k) p ms = Inr ms' \<Longrightarrow> \<not> loaded ms p \<Longrightarrow>
    extends provides P ms ms' \<and> loaded ms' p"
  by (rule run_module_extends [OF import_module_extends])

lemma finished_grows:
  "(\<And>q'. loaded a q' \<Longrightarrow> loaded b q') \<Longrightarrow> (\<And>q' n. bound a q' n \<Longrightarrow> bound b q' n) \<Longrightarrow>
    finished provides P a p \<Longrightarrow> finished provides P b p"
  by (auto simp: finished_def stmt_finished_def)

lemma run_module_progress:
  assumes ord: "ordered_program P pkg rank" and lib: "\<And>p. satisfied provides P p"
  shows "rank p \<le> k \<Longrightarrow> pbody P p \<noteq> None \<Longrightarrow> \<not> loaded ms p \<Longrightarrow> settled provides P rank (rank p) ms \<Longrightarrow>
    loaded ms pkg \<or> p = pkg \<Longrightarrow> \<exists>ms'. run_module provides P (import_module provides P k) p ms = Inr ms'"
proof (induction k arbitrary: p ms rule: less_induct)
  case (less k)
  let ?s = "dset p [(''__name__'', Defined p ''__name__'')] ms"
  let ?I = "\<lambda>ms. settled provides P rank (rank p) ms \<and> loaded ms pkg"
  from less.prems(2) obtain body where body: "pbody P p = Some body" by auto
  have imp: "\<exists>ms'. import_module provides P k t u = Inr ms'"
    if t: "reachable_target P pkg rank (rank p) t" and u: "settled provides P rank (rank p) u" "loaded u pkg" for t u
  proof -
    from t less.prems(1) obtain j where k: "k = Suc j" by (cases k) (auto simp: reachable_target_def)
    have "\<exists>ms'. load_parts (run_module provides P (import_module provides P j)) [] t u = Inr ms'"
    proof (rule load_parts_progress [where I="?I"])
      fix q' v assume q': "q' \<in> set (parts [] t)" and v: "?I v" "\<not> loaded v q'"
      with t have "pbody P q' \<noteq> None" "rank q' < rank p" by (auto simp: reachable_target_def)
      with v k less.prems(1)
      show "\<exists>ms'. run_module provides P (import_module provides P j) q' v = Inr ms'"
        by (intro less.IH) (auto intro: settled_less)
    qed (use u in \<open>auto intro: settled_extends extends_loaded dest: run_module_import_extends\<close>)
    with k show ?thesis by simp
  qed
  have start: "settled provides P rank (rank p) ?s"
    unfolding settled_def
  proof (intro allI impI)
    fix q' assume q': "loaded ?s q' \<and> rank q' < rank p"
    with less.prems(4) have "finished provides P ms q'" by (auto simp: settled_def)
    then show "finished provides P ?s q'"
      by (rule finished_grows [rotated 2]) (use less.prems(3) in \<open>auto dest: bound_loaded\<close>)
  qed
  have "\<exists>ms'. foldl_res (exec_stmt provides P (import_module provides P k) p) ?s body = Inr ms'"
  proof (rule body_progress [where pkg=pkg and rank=rank and bs="[''__name__'']", OF imp import_module_extends])
    show "stmts_ordered P pkg rank p [''__name__''] body"
      using ord body by (auto simp: ordered_program_def module_stmts_def split: option.splits)
    show "\<forall>s\<in>set body. \<forall>(l, n) \<in> set (stmt_requires P p s). provides l n"
      using lib [of p] body by (auto simp: satisfied_def requires_def module_stmts_def)
  qed (use less.prems(5) start in \<open>auto simp: dget_def\<close>)
  with body show ?case by (simp add: run_module_def)
qed

lemma ordered_import_progress:
  assumes "ordered_program P [r] rank" and "\<And>p. satisfied provides P p"
    and "\<forall>p \<in> set (parts [] (r # t)). pbody P p \<noteq> None \<and> rank p \<le> rank [r]" and "rank [r] < k"
  shows "\<exists>ms. import_module provides P k (r # t) [] = Inr ms"
proof -
  from assms(4) obtain j where k: "k = Suc j" by (cases k) auto
  let ?run = "run_module provides P (import_module provides P j)"
  have "\<exists>ms. ?run [r] [] = Inr ms"
    by (rule run_module_progress [OF assms(1,2)]) (use assms(3,4) k in \<open>auto simp: loaded_def settled_def\<close>)
  then obtain u where u: "?run [r] [] = Inr u" ..
  from run_module_import_extends [OF u] have e: "extends provides P [] u" "loaded u [r]"
    by (auto simp: loaded_def)
  have "\<exists>ms. load_parts ?run [r] t u = Inr ms"
  proof (rule load_parts_progress [where I="\<lambda>ms. settled provides P rank (Suc (rank [r])) ms \<and> loaded ms [r]"])
    fix p v
    assume p: "p \<in> set (parts [r] t)"
      and v: "settled provides P rank (Suc (rank [r])) v \<and> loaded v [r]" "\<not> loaded v p"
    from p assms(3) have "pbody P p \<noteq> None" "rank p \<le> rank [r]" by auto
    with v k assms(4) show "\<exists>ms'. ?run p v = Inr ms'"
      by (intro run_module_progress [OF assms(1,2)]) (auto intro: settled_less)
  next
    show "settled provides P rank (Suc (rank [r])) u \<and> loaded u [r]"
      using e by (auto simp: settled_def extends_def loaded_def)
  qed (use e in \<open>auto intro: settled_extends extends_loaded dest: run_module_import_extends\<close>)
  with u k show ?thesis by (simp add: loaded_def)
qed

lemma import_finished:
  assumes "import_module provides P k p [] = Inr ms" and "p \<noteq> []"
  shows "loaded ms p" and "loaded ms q' \<Longrightarrow> finished provides P ms q'"
  using import_module_extends [OF assms] by (auto simp: extends_def loaded_def)

lemma import_root_loaded:
  assumes "import_module provides P k (r # t) [] = Inr ms"
  shows "loaded ms [r]"
proof -
  from assms obtain j u where u: "run_module provides P (import_module provides P j) [r] [] = Inr u"
    and rest: "load_parts (run_module provides P (import_module provides P j)) [r] t u = Inr ms"
    by (cases k) (auto simp: loaded_def Let_def)
  from run_module_import_extends [OF u] have "loaded u [r]" by (auto simp: loaded_def)
  moreover from this have "extends provides P u ms \<and> (t = [] \<or> loaded ms ([r] @ t))"
    by (intro load_parts_extends [OF _ rest]) (auto dest: run_module_import_extends)
  ultimately show ?thesis by (auto intro: extends_loaded)
qed

lemma finished_satisfied: "finished provides P ms p \<Longrightarrow> satisfied provides P p"
  by (auto simp: finished_def stmt_finished_def satisfied_def requires_def)

lemma finished_targets:
  "finished provides P ms p \<Longrightarrow> s \<in> set (module_stmts P p) \<Longrightarrow> t \<in> set (stmt_targets P p s) \<Longrightarrow> loaded ms t"
  by (auto simp: finished_def stmt_finished_def)

subsection \<open>Which object a name stands for\<close>

inductive binds :: "program \<Rightarrow> mpath \<Rightarrow> string \<Rightarrow> pyobj \<Rightarrow> bool" for P where
  binds_name: "binds P p ''__name__'' (Defined p ''__name__'')"
| binds_submodule: "pbody P (p @ [n]) \<noteq> None \<Longrightarrow> binds P p n (Module_object (p @ [n]))"
| binds_def: "Bind n uses \<in> set (module_stmts P p) \<Longrightarrow> binds P p n (Defined p n)"
| binds_all: "Set_all ns \<in> set (module_stmts P p) \<Longrightarrow> binds P p ''__all__'' (Export_list ns)"
| binds_copy: "Copy n m \<in> set (module_stmts P p) \<Longrightarrow> binds P p m v \<Longrightarrow> binds P p n v"
| binds_library: "From_import level q' names \<in> set (module_stmts P p) \<Longrightarrow> from = resolve_name P p level q' \<Longrightarrow>
    \<not> internal P from \<Longrightarrow> (a, n) \<in> set names \<Longrightarrow> binds P p n (Library from a)"
| binds_import: "From_import level q' names \<in> set (module_stmts P p) \<Longrightarrow> from = resolve_name P p level q' \<Longrightarrow>
    internal P from \<Longrightarrow> (a, n) \<in> set names \<Longrightarrow> binds P from a v \<Longrightarrow> binds P p n v"

definition sound_table :: "program \<Rightarrow> modules \<Rightarrow> bool" where
  "sound_table P ms \<longleftrightarrow>
     (\<forall>p n v. dget n (namespace ms p) = Some v \<longrightarrow> binds P p n v) \<and> (\<forall>p. loaded ms p \<longrightarrow> pbody P p \<noteq> None)"

lemma namespace_assign: "namespace (assign p n v ms) p' = (if p' = p then dset n v (namespace ms p) else namespace ms p')"
  by (simp add: namespace_def assign_def)

lemma sound_assign:
  "sound_table P ms \<Longrightarrow> pbody P p \<noteq> None \<Longrightarrow> binds P p n v \<Longrightarrow> sound_table P (assign p n v ms)"
  by (auto simp: sound_table_def namespace_assign)

lemma foldl_res_invariant:
  "foldl_res f s xs = Inr s' \<Longrightarrow> I s \<Longrightarrow> (\<And>s x s'. x \<in> set xs \<Longrightarrow> I s \<Longrightarrow> f s x = Inr s' \<Longrightarrow> I s') \<Longrightarrow> I s'"
proof (induction xs arbitrary: s)
  case Nil
  then show ?case by simp
next
  case (Cons x xs)
  from Cons.prems(1) obtain t where "f s x = Inr t" "foldl_res f t xs = Inr s'" by auto
  with Cons show ?case by (meson list.set_intros)
qed

lemma exec_stmt_sound:
  assumes imp: "\<And>p ms ms'. imp p ms = Inr ms' \<Longrightarrow> sound_table P ms \<Longrightarrow> sound_table P ms'"
    and "exec_stmt provides P imp p ms s = Inr ms'" and "s \<in> set (module_stmts P p)"
    and "sound_table P ms" and p: "pbody P p \<noteq> None"
  shows "sound_table P ms'"
proof (cases s)
  case (From_import level q' names)
  let ?from = "resolve_name P p level q'"
  show ?thesis
  proof (cases "internal P ?from")
    case True
    with assms(2) From_import obtain t where t: "imp ?from ms = Inr t"
      and names: "foldl_res (take_name ?from p) t names = Inr ms'"
      by (auto simp: Let_def)
    from names imp [OF t assms(4)] show ?thesis
    proof (rule foldl_res_invariant)
      fix u na u' assume na: "na \<in> set names" and u: "sound_table P u" "take_name ?from p u na = Inr u'"
      have b: "binds P p (snd na) v" if "binds P ?from (fst na) v" for v
        using binds_import [OF assms(3) [unfolded From_import] refl True] na that by (cases na) auto
      from u show "sound_table P u'"
        by (auto simp: take_name_def sound_table_def [of P u] split: option.splits if_splits
            intro!: sound_assign p b binds_submodule)
    qed
  next
    case False
    with assms(2) From_import have "foldl_res (take_library provides ?from p) ms names = Inr ms'"
      by (simp add: Let_def)
    from this assms(4) show ?thesis
    proof (rule foldl_res_invariant)
      fix u na u'
      assume na: "na \<in> set names" and u: "sound_table P u" "take_library provides ?from p u na = Inr u'"
      have "binds P p (snd na) (Library ?from (fst na))"
        using binds_library [OF assms(3) [unfolded From_import] refl False] na by (cases na) auto
      with u p show "sound_table P u'"
        by (auto simp: take_library_def intro: sound_assign split: if_splits)
    qed
  qed
next
  case (Bind n uses)
  with assms show ?thesis by (auto intro: sound_assign binds_def split: list.splits)
next
  case (Copy n m)
  with assms obtain v where v: "dget m (namespace ms p) = Some v" and ms': "ms' = assign p n v ms"
    by (auto split: option.splits)
  from v assms(4) have "binds P p m v" by (simp add: sound_table_def)
  with assms(3,4) p Copy ms' show ?thesis by (auto intro: sound_assign binds_copy)
next
  case (Set_all ns)
  with assms show ?thesis by (auto intro: sound_assign binds_all)
qed

lemma run_module_sound:
  assumes imp: "\<And>p ms ms'. imp p ms = Inr ms' \<Longrightarrow> sound_table P ms \<Longrightarrow> sound_table P ms'"
    and run: "run_module provides P imp p ms = Inr ms'" and "sound_table P ms"
  shows "sound_table P ms' \<and> pbody P p \<noteq> None"
proof -
  from run obtain body where body: "pbody P p = Some body"
    and f: "foldl_res (exec_stmt provides P imp p) (dset p [(''__name__'', Defined p ''__name__'')] ms) body = Inr ms'"
    by (auto simp: run_module_def split: option.splits)
  have "sound_table P (dset p [(''__name__'', Defined p ''__name__'')] ms)"
    using assms(3) body by (auto simp: sound_table_def namespace_def dget_def intro: binds_name split: if_splits)
  with f have "sound_table P ms'"
    by (rule foldl_res_invariant) (auto intro: exec_stmt_sound [OF imp] simp: body module_stmts_def)
  with body show ?thesis by simp
qed

lemma load_parts_sound:
  assumes "\<And>p ms ms'. run p ms = Inr ms' \<Longrightarrow> sound_table P ms \<Longrightarrow> sound_table P ms' \<and> pbody P p \<noteq> None"
    and "load_parts run parent ns ms = Inr ms'" and "sound_table P ms" and "parent = [] \<or> pbody P parent \<noteq> None"
  shows "sound_table P ms'"
  using assms(2-)
proof (induction ns arbitrary: parent ms)
  case Nil
  then show ?case by simp
next
  case (Cons n ns)
  let ?p = "parent @ [n]"
  show ?case
  proof (cases "loaded ms ?p")
    case True
    with Cons.prems Cons.IH [of ?p ms] show ?thesis by (auto simp: sound_table_def)
  next
    case False
    with Cons.prems(1) obtain u where u: "run ?p ms = Inr u"
      and rest: "load_parts run ?p ns (if parent = [] then u else assign parent n (Module_object ?p) u) = Inr ms'"
      by (auto simp: Let_def)
    from assms(1) [OF u Cons.prems(2)] have "sound_table P u" and p: "pbody P ?p \<noteq> None" by auto
    with Cons.prems(3) have "sound_table P (if parent = [] then u else assign parent n (Module_object ?p) u)"
      by (auto intro: sound_assign binds_submodule)
    with rest p show ?thesis by (rule_tac Cons.IH) auto
  qed
qed

lemma import_module_sound:
  "import_module provides P k p ms = Inr ms' \<Longrightarrow> sound_table P ms \<Longrightarrow> sound_table P ms'"
proof (induction k arbitrary: p ms ms')
  case 0
  then show ?case by simp
next
  case (Suc k)
  from Suc.prems have "load_parts (run_module provides P (import_module provides P k)) [] p ms = Inr ms'" by simp
  from load_parts_sound [OF run_module_sound [OF Suc.IH] this Suc.prems(2)] show ?case by simp
qed

text \<open>
  A name that only one kind of statement binds: the module's own definition.  It stands for that
  definition, and for nothing else.
\<close>

fun own_names :: "stmt \<Rightarrow> string list" where
  "own_names (Bind n uses) = [n]"
| "own_names _ = []"

fun other_names :: "stmt \<Rightarrow> string list" where
  "other_names (Bind n uses) = []"
| "other_names s = stmt_binds s"

definition own_of :: "program \<Rightarrow> mpath \<Rightarrow> string list" where
  "own_of P p = concat (map own_names (module_stmts P p))"

definition others_of :: "program \<Rightarrow> mpath \<Rightarrow> string list" where
  "others_of P p = ''__name__'' # concat (map other_names (module_stmts P p))"

lemma own_definition:
  assumes "binds P p n v" and "n \<notin> set (others_of P p)" and "pbody P (p @ [n]) = None"
  shows "v = Defined p n"
  using assms by (cases rule: binds.cases) (force simp: others_of_def)+

lemma finished_bound_object:
  assumes "import_module provides P k p [] = Inr ms" and "p \<noteq> []" and "loaded ms q'"
    and "n \<in> set (module_binds P q')"
  shows "\<exists>v. dget n (namespace ms q') = Some v \<and> binds P q' n v"
proof -
  from finished_bound [OF import_finished(2) [OF assms(1-3)] assms(4)]
  obtain w where w: "dget n (namespace ms q') = Some w" by (auto simp: bound_def)
  have "sound_table P []" by (simp add: sound_table_def namespace_def loaded_def dget_def)
  from import_module_sound [OF assms(1) this] w show ?thesis by (auto simp: sound_table_def)
qed

text \<open>A star import raises nothing when every listed name is bound, and binds just the list.\<close>

lemma star_import_ok:
  assumes "\<forall>n\<in>set ns. dget n d \<noteq> None"
  shows "\<exists>h'. star_import d ns h = Inr h' \<and>
    (\<forall>n. dget n h' = (if n \<in> set ns then dget n d else dget n h))"
  using assms
proof (induction ns arbitrary: h)
  case Nil
  then show ?case by simp
next
  case (Cons n ns)
  then obtain v where v: "dget n d = Some v" by auto
  with Cons.IH [of "dset n v h"] Cons.prems show ?case by auto
qed

end
