(* ===== verification/Rxon_Package.thy ===== *)
theory Rxon_Package
  imports Rxon_Import_Order
begin

text \<open>
  The package \<^verbatim>\<open>src/src/rxon\<close> as Python loads it: for each module its import statements, the
  names its other top-level statements bind with the names they read on the way (bases,
  decorators, annotations and default values, as Python evaluates them up to version 3.13), and
  its \<open>__all__\<close>; for \<^verbatim>\<open>__init__.py\<close> the whole text.  Names of builtins are left out of the
  reads.  The theorems: whatever module is imported first, the import succeeds exactly when the
  library names the modules ask for are installed, and these belong to the standard library or
  to the declared dependencies; every exported name is the object its module defines.
\<close>

subsection \<open>The modules\<close>

definition constants_all :: "string list" where
  "constants_all = [
     ''AUTH_HEADER_CLIENT'', ''AUTH_HEADER_WORKER'', ''ERROR_CODE_TRANSIENT'',
       ''ERROR_CODE_PERMANENT'', ''ERROR_CODE_INVALID_INPUT'',
       ''ERROR_CODE_INTEGRITY_MISMATCH'', ''ERROR_CODE_TIMEOUT'', ''ERROR_CODE_LATE_RESULT'',
       ''ERROR_CODE_RESOURCE_EXHAUSTED'', ''ERROR_CODE_LIMIT_EXCEEDED'',
       ''ERROR_CODE_DEPENDENCY_MISSING'', ''ERROR_CODE_CONTRACT_VIOLATION'',
       ''ERROR_CODE_DEPENDENCY'', ''ERROR_CODE_SECURITY'', ''ERROR_CODE_INTERNAL'',
       ''TASK_STATUS_SUCCESS'', ''TASK_STATUS_FAILURE'', ''TASK_STATUS_CANCELLED'',
       ''COMMAND_CANCEL_TASK'', ''EVENT_TYPE_PROGRESS'', ''STS_TOKEN_ENDPOINT'',
       ''WS_ENDPOINT'', ''ENDPOINT_WORKER_REGISTER'', ''ENDPOINT_TASK_NEXT'',
       ''ENDPOINT_TASK_RESULT'', ''ENDPOINT_WORKER_HEARTBEAT'', ''ENDPOINT_WORKER_EVENTS'',
       ''JOB_STATUS_PENDING'', ''JOB_STATUS_WAITING_FOR_WORKER'', ''JOB_STATUS_RUNNING'',
       ''JOB_STATUS_FINISHED'', ''JOB_STATUS_FAILED'', ''JOB_STATUS_ERROR'',
       ''JOB_STATUS_QUARANTINED'', ''JOB_STATUS_CANCELLED'', ''JOB_STATUS_WAITING_FOR_HUMAN'',
       ''JOB_STATUS_WAITING_FOR_PARALLEL'', ''WORKER_API_PREFIX'', ''PROTOCOL_VERSION'',
       ''PROTOCOL_VERSION_HEADER'', ''IGNORED_REASON_LATE'', ''IGNORED_REASON_CANCELLED'',
       ''IGNORED_REASON_NOT_FOUND'', ''IGNORED_REASON_MISMATCH'', ''IGNORED_REASON_STALE'',
       ''HB_RESP_REQUIRE_FULL_SYNC'', ''HB_RESP_CANCEL_TASKS'', ''AUTH_HEADER_WORKER_ID'',
       ''STS_REFRESH_ENDPOINT'', ''TERMINAL_STATES'', ''WORKER_STATUS_ACTIVE'',
       ''WORKER_STATUS_DRAINING'']"

definition constants_body :: "stmt list" where
  "constants_body = [
     Set_all constants_all,
     Bind ''PROTOCOL_VERSION'' [],
     Bind ''PROTOCOL_VERSION_HEADER'' [],
     Bind ''AUTH_HEADER_CLIENT'' [],
     Bind ''AUTH_HEADER_WORKER'' [],
     Bind ''AUTH_HEADER_WORKER_ID'' [],
     Bind ''ERROR_CODE_TRANSIENT'' [],
     Bind ''ERROR_CODE_PERMANENT'' [],
     Bind ''ERROR_CODE_INVALID_INPUT'' [],
     Bind ''ERROR_CODE_INTEGRITY_MISMATCH'' [],
     Bind ''ERROR_CODE_TIMEOUT'' [],
     Bind ''ERROR_CODE_LATE_RESULT'' [],
     Bind ''ERROR_CODE_RESOURCE_EXHAUSTED'' [],
     Bind ''ERROR_CODE_LIMIT_EXCEEDED'' [],
     Bind ''ERROR_CODE_CONTRACT_VIOLATION'' [],
     Bind ''ERROR_CODE_DEPENDENCY_MISSING'' [],
     Bind ''IGNORED_REASON_LATE'' [],
     Bind ''IGNORED_REASON_CANCELLED'' [],
     Bind ''IGNORED_REASON_NOT_FOUND'' [],
     Bind ''IGNORED_REASON_MISMATCH'' [],
     Bind ''IGNORED_REASON_STALE'' [],
     Bind ''HB_RESP_REQUIRE_FULL_SYNC'' [],
     Bind ''HB_RESP_CANCEL_TASKS'' [],
     Bind ''ERROR_CODE_DEPENDENCY'' [],
     Bind ''ERROR_CODE_SECURITY'' [],
     Bind ''ERROR_CODE_INTERNAL'' [],
     Bind ''TASK_STATUS_SUCCESS'' [],
     Bind ''TASK_STATUS_FAILURE'' [],
     Bind ''TASK_STATUS_CANCELLED'' [],
     Bind ''COMMAND_CANCEL_TASK'' [],
     Bind ''EVENT_TYPE_PROGRESS'' [],
     Bind ''WORKER_API_PREFIX'' [],
     Bind ''STS_TOKEN_ENDPOINT'' [''WORKER_API_PREFIX''],
     Bind ''STS_REFRESH_ENDPOINT'' [''WORKER_API_PREFIX''],
     Bind ''WS_ENDPOINT'' [''WORKER_API_PREFIX''],
     Bind ''ENDPOINT_WORKER_REGISTER'' [''WORKER_API_PREFIX''],
     Bind ''ENDPOINT_TASK_NEXT'' [''WORKER_API_PREFIX''],
     Bind ''ENDPOINT_TASK_RESULT'' [''WORKER_API_PREFIX''],
     Bind ''ENDPOINT_WORKER_HEARTBEAT'' [''WORKER_API_PREFIX''],
     Bind ''ENDPOINT_WORKER_EVENTS'' [''WORKER_API_PREFIX''],
     Bind ''JOB_STATUS_PENDING'' [],
     Bind ''JOB_STATUS_WAITING_FOR_WORKER'' [],
     Bind ''JOB_STATUS_RUNNING'' [],
     Bind ''JOB_STATUS_FINISHED'' [],
     Bind ''JOB_STATUS_FAILED'' [],
     Bind ''JOB_STATUS_ERROR'' [],
     Bind ''JOB_STATUS_QUARANTINED'' [],
     Bind ''JOB_STATUS_CANCELLED'' [],
     Bind ''JOB_STATUS_WAITING_FOR_HUMAN'' [],
     Bind ''JOB_STATUS_WAITING_FOR_PARALLEL'' [],
     Bind ''TERMINAL_STATES'' [''JOB_STATUS_FINISHED'', ''JOB_STATUS_FAILED'',
       ''JOB_STATUS_ERROR'', ''JOB_STATUS_QUARANTINED'', ''JOB_STATUS_CANCELLED''],
     Bind ''WORKER_STATUS_ACTIVE'' [],
     Bind ''WORKER_STATUS_DRAINING'' []]"

definition exceptions_body :: "stmt list" where
  "exceptions_body = [
     From_import 0 [''typing''] (same [''Any'']),
     From_import 0 [''rxon'', ''constants''] (same [''ERROR_CODE_LIMIT_EXCEEDED'']),
     Set_all [''RxonError'', ''RxonNetworkError'', ''RxonAuthError'', ''RxonProtocolError'',
       ''RxonRateLimitError'', ''S3ConfigMismatchError'', ''IntegrityError'',
       ''ParamValidationError''],
     Bind ''RxonError'' [''Any''],
     Bind ''RxonNetworkError'' [''RxonError''],
     Bind ''RxonAuthError'' [''RxonError''],
     Bind ''RxonProtocolError'' [''RxonError''],
     Bind ''RxonRateLimitError'' [''RxonProtocolError'', ''Any''],
     Bind ''S3ConfigMismatchError'' [''RxonProtocolError''],
     Bind ''IntegrityError'' [''RxonProtocolError''],
     Bind ''ParamValidationError'' [''RxonProtocolError'']]"

definition schema_body :: "stmt list" where
  "schema_body = [
     From_import 0 [''__future__''] (same [''annotations'']),
     From_import 0 [''collections'', ''abc''] (same [''Callable'']),
     From_import 0 [''contextlib''] (same [''suppress'']),
     From_import 0 [''dataclasses''] (same [''MISSING'', ''is_dataclass'']),
     From_import 0 [''dataclasses''] [(''fields'', ''dataclass_fields'')],
     From_import 0 [''enum''] (same [''Enum'']),
     From_import 0 [''inspect''] (same [''Parameter'', ''signature'']),
     From_import 0 [''logging''] (same [''getLogger'']),
     From_import 0 [''re''] [(''match'', ''re_match'')],
     From_import 0 [''re''] [(''sub'', ''re_sub'')],
     From_import 0 [''threading''] (same [''Lock'']),
     From_import 0 [''types''] (same [''UnionType'']),
     From_import 0 [''typing''] (same [''Annotated'', ''Any'', ''Union'', ''cast'',
       ''get_args'', ''get_origin'', ''get_type_hints'']),
     From_import 0 [''uuid''] (same [''UUID'']),
     From_import 0 [''fastjsonschema''] (same [''JsonSchemaValueException'']),
     From_import 0 [''fastjsonschema''] [(''compile'', ''compile_schema'')],
     From_import 0 [''msgspec''] (same [''NODEFAULT'', ''Struct'']),
     From_import 0 [''msgspec'', ''structs''] [(''fields'', ''msgspec_fields'')],
     From_import 0 [''orjson''] (same [''OPT_SORT_KEYS'']),
     From_import 0 [''orjson''] [(''dumps'', ''orjson_dumps'')],
     Bind ''logger'' [''getLogger'', ''__name__''],
     Bind ''Header'' [],
     Bind ''_type_schema_cache'' [],
     Bind ''_type_schema_lock'' [''Lock''],
     Bind ''_MAX_TYPE_SCHEMA_CACHE_SIZE'' [],
     Bind ''extract_json_schema'' [],
     Bind ''_extract_json_schema_uncached'' [],
     Bind ''_is_optional'' [],
     Bind ''_python_type_to_json_schema'' [],
     Bind ''_get_val_by_path'' [],
     Bind ''translate_error'' [],
     Bind ''_validators_cache'' [],
     Bind ''_cache_lock'' [''Lock''],
     Bind ''_MAX_VALIDATOR_CACHE_SIZE'' [],
     Bind ''get_compiled_validator'' [],
     Bind ''validate_data'' [],
     Bind ''extract_input_schema_from_func'' [],
     Bind ''extract_schema_from_func'' [],
     Bind ''extract_output_schema_from_func'' [],
     Bind ''extract_skill_contract'' []]"

definition models_body :: "stmt list" where
  "models_body = [
     From_import 0 [''logging''] (same [''getLogger'']),
     From_import 0 [''typing''] (same [''Any'']),
     From_import 0 [''msgspec''] (same [''Struct'']),
     From_import 0 [''rxon'', ''schema''] (same [''get_compiled_validator'',
       ''translate_error'', ''validate_data'']),
     Bind ''logger'' [''getLogger'', ''__name__''],
     Set_all [''HardwareDevice'', ''DeviceUsage'', ''ResourcesUsage'', ''Resources'',
       ''InstalledArtifact'', ''SkillInfo'', ''WorkerCapabilities'', ''FileMetadata'',
       ''SecurityContext'', ''ExecutionReceipt'', ''WorkerRegistration'', ''TokenResponse'',
       ''WorkerEventPayload'', ''WorkerCommand'', ''TaskPayload'', ''TaskError'',
       ''TaskResult'', ''Heartbeat''],
     Bind ''HardwareDevice'' [''Struct'', ''Any''],
     Bind ''DeviceUsage'' [''Struct'', ''Any''],
     Bind ''ResourcesUsage'' [''Struct'', ''DeviceUsage''],
     Bind ''Resources'' [''Struct'', ''HardwareDevice'', ''Any''],
     Bind ''InstalledArtifact'' [''Struct'', ''Any''],
     Bind ''SkillInfo'' [''Struct'', ''Any''],
     Bind ''ExecutionReceipt'' [''Struct'', ''Any''],
     Bind ''SecurityContext'' [''Struct'', ''Any''],
     Bind ''WorkerCapabilities'' [''Struct'', ''Any''],
     Bind ''FileMetadata'' [''Struct'', ''Any''],
     Bind ''WorkerRegistration'' [''Struct'', ''SkillInfo'', ''Resources'',
       ''InstalledArtifact'', ''WorkerCapabilities'', ''SecurityContext'', ''Any''],
     Bind ''TokenResponse'' [''Struct'', ''Any''],
     Bind ''WorkerEventPayload'' [''Struct'', ''Any'', ''SecurityContext''],
     Bind ''WorkerCommand'' [''Struct'', ''Any''],
     Bind ''TaskPayload'' [''Struct'', ''Any'', ''FileMetadata'', ''SecurityContext'',
       ''SkillInfo''],
     Bind ''TaskError'' [''Struct'', ''Any''],
     Bind ''TaskResult'' [''Struct'', ''Any'', ''TaskError'', ''FileMetadata'',
       ''SecurityContext''],
     Bind ''Heartbeat'' [''Struct'', ''ResourcesUsage'', ''SkillInfo'', ''SecurityContext'',
       ''Any'']]"

definition blob_body :: "stmt list" where
  "blob_body = [
     From_import 0 [''abc''] (same [''ABC'', ''abstractmethod'']),
     From_import 0 [''hashlib''] (same [''sha256'']),
     From_import 0 [''typing''] (same [''Any'']),
     From_import 0 [''urllib'', ''parse''] (same [''urlparse'']),
     From_import 0 [''rxon'', ''models''] (same [''FileMetadata'']),
     Set_all [''RXON_BLOB_SCHEME'', ''calculate_config_hash'', ''parse_uri'', ''BlobProvider''],
     Bind ''RXON_BLOB_SCHEME'' [],
     Bind ''BlobProvider'' [''ABC'', ''abstractmethod'', ''FileMetadata'', ''Any''],
     Bind ''calculate_config_hash'' [],
     Bind ''parse_uri'' []]"

definition utils_body :: "stmt list" where
  "utils_body = [
     From_import 0 [''datetime''] (same [''datetime'']),
     From_import 0 [''enum''] (same [''Enum'']),
     From_import 0 [''hashlib''] (same [''sha256'']),
     From_import 0 [''typing''] (same [''Any'']),
     From_import 0 [''uuid''] (same [''UUID'']),
     From_import 0 [''msgspec''] (same [''DecodeError'', ''Struct'', ''ValidationError'',
       ''convert'', ''to_builtins'']),
     From_import 0 [''orjson''] (same [''OPT_NON_STR_KEYS'', ''OPT_SORT_KEYS'', ''dumps'',
       ''loads'']),
     Set_all [''to_dict'', ''from_dict'', ''json_dumps'', ''loads'', ''calculate_dict_hash''],
     Bind ''_MAX_RECURSION_DEPTH'' [],
     Bind ''to_dict'' [''Any''],
     Bind ''_finalize_structure'' [''Any''],
     Bind ''from_dict'' [''Any''],
     Bind ''json_dumps'' [''Any''],
     Bind ''calculate_dict_hash'' [''Any'']]"

definition security_body :: "stmt list" where
  "security_body = [
     From_import 0 [''hashlib''] (same [''sha256'']),
     From_import 0 [''hmac''] (same [''compare_digest'', ''new'']),
     From_import 0 [''pathlib''] (same [''Path'']),
     From_import 0 [''ssl''] (same [''CERT_OPTIONAL'', ''CERT_REQUIRED'', ''Purpose'',
       ''SSLContext'', ''create_default_context'']),
     From_import 0 [''typing''] (same [''Any'', ''cast'']),
     From_import 0 [''cryptography'', ''hazmat'', ''primitives''] (same [''serialization'']),
     From_import 0 [''cryptography'', ''hazmat'', ''primitives'', ''asymmetric''] (same
       [''ed25519'']),
     From_import 0 [''orjson''] (same [''OPT_SORT_KEYS'', ''dumps'']),
     From_import 1 [''utils''] (same [''to_dict'']),
     Set_all [''create_server_ssl_context'', ''create_client_ssl_context'',
       ''extract_cert_identity'', ''sign_payload'', ''verify_signature'',
       ''sign_payload_ed25519'', ''verify_signature_ed25519'', ''sign_bubbling_chain'',
       ''verify_bubbling_chain_signature'', ''sign_bubbling_chain_hmac'',
       ''verify_bubbling_chain_hmac''],
     Bind ''sign_payload'' [''Any''],
     Bind ''verify_signature'' [''Any''],
     Bind ''sign_payload_ed25519'' [''Any''],
     Bind ''verify_signature_ed25519'' [''Any''],
     Bind ''sign_bubbling_chain'' [],
     Bind ''verify_bubbling_chain_signature'' [],
     Bind ''sign_bubbling_chain_hmac'' [],
     Bind ''verify_bubbling_chain_hmac'' [],
     Bind ''create_server_ssl_context'' [''Path'', ''SSLContext''],
     Bind ''create_client_ssl_context'' [''Path'', ''SSLContext''],
     Bind ''extract_cert_identity'' [''Any'']]"

definition testing_body :: "stmt list" where
  "testing_body = [
     From_import 0 [''asyncio''] (same [''Queue'', ''wait_for'']),
     From_import 0 [''collections'', ''abc''] (same [''AsyncIterator'']),
     From_import 0 [''typing''] (same [''Any'', ''cast'']),
     From_import 0 [''rxon'', ''models''] (same [''Heartbeat'', ''TaskPayload'', ''TaskResult'',
       ''TokenResponse'', ''WorkerCommand'', ''WorkerEventPayload'', ''WorkerRegistration'']),
     From_import 0 [''rxon'', ''transports'', ''base''] (same [''Transport'']),
     From_import 0 [''rxon'', ''utils''] (same [''from_dict'']),
     Bind ''MockTransport'' [''Transport'', ''Any'', ''WorkerRegistration'', ''TaskPayload'',
       ''TaskResult'', ''Heartbeat'', ''WorkerEventPayload'', ''AsyncIterator'',
       ''WorkerCommand'', ''TokenResponse'']]"

definition validators_body :: "stmt list" where
  "validators_body = [
     From_import 0 [''re''] [(''compile'', ''re_compile'')],
     Set_all [''is_valid_identifier'', ''validate_identifier''],
     Bind ''ID_PATTERN'' [''re_compile''],
     Bind ''is_valid_identifier'' [],
     Bind ''validate_identifier'' []]"

definition transports_body :: "stmt list" where
  "transports_body = []"

definition base_body :: "stmt list" where
  "base_body = [
     From_import 0 [''abc''] (same [''ABC'', ''abstractmethod'']),
     From_import 0 [''collections'', ''abc''] (same [''AsyncIterator'', ''Awaitable'',
       ''Callable'']),
     From_import 0 [''typing''] (same [''Any'']),
     From_import 0 [''rxon'', ''models''] (same [''Heartbeat'', ''TaskPayload'', ''TaskResult'',
       ''TokenResponse'', ''WorkerCommand'', ''WorkerEventPayload'', ''WorkerRegistration'']),
     Bind ''Transport'' [''ABC'', ''abstractmethod'', ''WorkerRegistration'', ''Any'',
       ''TaskPayload'', ''TaskResult'', ''Heartbeat'', ''WorkerEventPayload'',
       ''AsyncIterator'', ''WorkerCommand'', ''TokenResponse''],
     Bind ''Listener'' [''ABC'', ''abstractmethod'', ''Callable'', ''Any'', ''Awaitable'']]"

definition factory_body :: "stmt list" where
  "factory_body = [
     From_import 0 [''ssl''] (same [''SSLContext'']),
     From_import 0 [''typing''] (same [''Any'']),
     From_import 0 [''rxon'', ''testing''] (same [''MockTransport'']),
     From_import 1 [''base''] (same [''Transport'']),
     From_import 1 [''http''] (same [''HttpTransport'']),
     Bind ''create_transport'' [''SSLContext'', ''Any'', ''Transport'']]"

definition http_body :: "stmt list" where
  "http_body = [
     From_import 0 [''asyncio''] (same [''sleep'']),
     From_import 0 [''collections'', ''abc''] (same [''AsyncIterator'']),
     From_import 0 [''datetime''] (same [''UTC'', ''datetime'']),
     From_import 0 [''email'', ''utils''] (same [''parsedate_to_datetime'']),
     From_import 0 [''logging''] (same [''getLogger'']),
     From_import 0 [''ssl''] (same [''SSLContext'']),
     From_import 0 [''typing''] (same [''Any'', ''cast'']),
     From_import 0 [''aiohttp''] (same [''ClientError'', ''ClientSession'', ''ClientTimeout'',
       ''ContentTypeError'', ''TCPConnector'', ''WSMsgType'']),
     From_import 0 [''rxon'', ''constants''] (same [''AUTH_HEADER_WORKER'',
       ''AUTH_HEADER_WORKER_ID'', ''ENDPOINT_TASK_NEXT'', ''ENDPOINT_TASK_RESULT'',
       ''ENDPOINT_WORKER_EVENTS'', ''ENDPOINT_WORKER_HEARTBEAT'', ''ENDPOINT_WORKER_REGISTER'',
       ''IGNORED_REASON_CANCELLED'', ''IGNORED_REASON_LATE'', ''PROTOCOL_VERSION'',
       ''PROTOCOL_VERSION_HEADER'', ''STS_REFRESH_ENDPOINT'', ''STS_TOKEN_ENDPOINT'',
       ''WS_ENDPOINT'']),
     From_import 0 [''rxon'', ''exceptions''] (same [''RxonAuthError'', ''RxonError'',
       ''RxonNetworkError'', ''RxonProtocolError'', ''RxonRateLimitError'']),
     From_import 0 [''rxon'', ''models''] (same [''Heartbeat'', ''TaskPayload'', ''TaskResult'',
       ''TokenResponse'', ''WorkerCommand'', ''WorkerEventPayload'', ''WorkerRegistration'']),
     From_import 0 [''rxon'', ''utils''] (same [''from_dict'', ''json_dumps'', ''loads'',
       ''to_dict'']),
     From_import 1 [''base''] (same [''Transport'']),
     Bind ''logger'' [''getLogger'', ''__name__''],
     Bind ''HttpTransport'' [''Transport'', ''SSLContext'', ''ClientSession'', ''Any'',
       ''ClientTimeout'', ''TokenResponse'', ''WorkerRegistration'', ''TaskPayload'',
       ''TaskResult'', ''Heartbeat'', ''WorkerEventPayload'', ''AsyncIterator'',
       ''WorkerCommand'']]"

definition http_server_body :: "stmt list" where
  "http_server_body = [
     From_import 0 [''collections'', ''abc''] (same [''Awaitable'', ''Callable'']),
     From_import 0 [''typing''] (same [''Any'', ''TypeVar'']),
     From_import 0 [''aiohttp''] (same [''web'']),
     From_import 0 [''rxon'', ''constants''] (same [''AUTH_HEADER_WORKER'',
       ''AUTH_HEADER_WORKER_ID'', ''ENDPOINT_TASK_NEXT'', ''ENDPOINT_TASK_RESULT'',
       ''ENDPOINT_WORKER_EVENTS'', ''ENDPOINT_WORKER_HEARTBEAT'', ''ENDPOINT_WORKER_REGISTER'',
       ''PROTOCOL_VERSION'', ''PROTOCOL_VERSION_HEADER'', ''STS_REFRESH_ENDPOINT'',
       ''STS_TOKEN_ENDPOINT'', ''WS_ENDPOINT'']),
     From_import 0 [''rxon'', ''exceptions''] (same [''RxonRateLimitError'']),
     From_import 0 [''rxon'', ''security''] (same [''extract_cert_identity'']),
     From_import 0 [''rxon'', ''utils''] (same [''json_dumps'', ''loads'', ''to_dict'']),
     From_import 1 [''base''] (same [''Listener'']),
     Bind ''T'' [''TypeVar''],
     Bind ''HttpListener'' [''Listener'', ''web'', ''Callable'', ''Any'', ''Awaitable'']]"

definition blob_import :: stmt where
  "blob_import =
     From_import 0 [''rxon'', ''blob''] (same [''RXON_BLOB_SCHEME'', ''calculate_config_hash'',
       ''parse_uri''])"

definition constant_import :: stmt where
  "constant_import =
     From_import 0 [''rxon'', ''constants''] (same [''AUTH_HEADER_CLIENT'',
       ''AUTH_HEADER_WORKER'', ''COMMAND_CANCEL_TASK'', ''ENDPOINT_TASK_NEXT'',
       ''ENDPOINT_TASK_RESULT'', ''ENDPOINT_WORKER_HEARTBEAT'', ''ENDPOINT_WORKER_REGISTER'',
       ''ERROR_CODE_CONTRACT_VIOLATION'', ''ERROR_CODE_DEPENDENCY'',
       ''ERROR_CODE_DEPENDENCY_MISSING'', ''ERROR_CODE_INTEGRITY_MISMATCH'',
       ''ERROR_CODE_INTERNAL'', ''ERROR_CODE_INVALID_INPUT'', ''ERROR_CODE_LIMIT_EXCEEDED'',
       ''ERROR_CODE_PERMANENT'', ''ERROR_CODE_RESOURCE_EXHAUSTED'', ''ERROR_CODE_SECURITY'',
       ''ERROR_CODE_TIMEOUT'', ''ERROR_CODE_TRANSIENT'', ''EVENT_TYPE_PROGRESS'',
       ''HB_RESP_CANCEL_TASKS'', ''HB_RESP_REQUIRE_FULL_SYNC'', ''JOB_STATUS_CANCELLED'',
       ''JOB_STATUS_ERROR'', ''JOB_STATUS_FAILED'', ''JOB_STATUS_FINISHED'',
       ''JOB_STATUS_PENDING'', ''JOB_STATUS_QUARANTINED'', ''JOB_STATUS_RUNNING'',
       ''JOB_STATUS_WAITING_FOR_HUMAN'', ''JOB_STATUS_WAITING_FOR_PARALLEL'',
       ''JOB_STATUS_WAITING_FOR_WORKER'', ''PROTOCOL_VERSION'', ''STS_TOKEN_ENDPOINT'',
       ''TASK_STATUS_CANCELLED'', ''TASK_STATUS_FAILURE'', ''TASK_STATUS_SUCCESS'',
       ''WORKER_API_PREFIX'', ''WS_ENDPOINT''])"

definition exception_import :: stmt where
  "exception_import =
     From_import 0 [''rxon'', ''exceptions''] (same [''IntegrityError'',
       ''ParamValidationError'', ''RxonAuthError'', ''RxonError'', ''RxonNetworkError'',
       ''RxonProtocolError'', ''S3ConfigMismatchError''])"

definition model_import :: stmt where
  "model_import =
     From_import 0 [''rxon'', ''models''] (same [''DeviceUsage'', ''ExecutionReceipt'',
       ''FileMetadata'', ''HardwareDevice'', ''Heartbeat'', ''InstalledArtifact'',
       ''Resources'', ''ResourcesUsage'', ''SecurityContext'', ''SkillInfo'', ''TaskError'',
       ''TaskPayload'', ''TaskResult'', ''TokenResponse'', ''WorkerCapabilities'',
       ''WorkerCommand'', ''WorkerEventPayload'', ''WorkerRegistration''])"

definition schema_import :: stmt where
  "schema_import =
     From_import 0 [''rxon'', ''schema''] (same [''Header'', ''extract_input_schema_from_func'',
       ''extract_json_schema'', ''extract_output_schema_from_func'',
       ''extract_schema_from_func'', ''extract_skill_contract'', ''get_compiled_validator'',
       ''validate_data''])"

definition security_import :: stmt where
  "security_import =
     From_import 0 [''rxon'', ''security''] (same [''create_client_ssl_context'',
       ''create_server_ssl_context'', ''extract_cert_identity'', ''sign_bubbling_chain'',
       ''sign_bubbling_chain_hmac'', ''sign_payload_ed25519'', ''verify_bubbling_chain_hmac'',
       ''verify_bubbling_chain_signature'', ''verify_signature_ed25519''])"

definition interface_import :: stmt where
  "interface_import =
     From_import 0 [''rxon'', ''transports'', ''base''] (same [''Listener'', ''Transport''])"

definition factory_import :: stmt where
  "factory_import =
     From_import 0 [''rxon'', ''transports'', ''factory''] (same [''create_transport''])"

definition client_import :: stmt where
  "client_import =
     From_import 0 [''rxon'', ''transports'', ''http''] (same [''HttpTransport''])"

definition listener_import :: stmt where
  "listener_import =
     From_import 0 [''rxon'', ''transports'', ''http_server''] (same [''HttpListener''])"

definition utils_import :: stmt where
  "utils_import =
     From_import 0 [''rxon'', ''utils''] (same [''from_dict'', ''loads'', ''to_dict''])"

definition validator_import :: stmt where
  "validator_import =
     From_import 0 [''rxon'', ''validators''] (same [''is_valid_identifier'',
       ''validate_identifier''])"

definition blob_exports :: "string list" where
  "blob_exports =
     [''RXON_BLOB_SCHEME'', ''calculate_config_hash'', ''parse_uri'']"

definition constant_exports :: "string list" where
  "constant_exports =
     [''AUTH_HEADER_CLIENT'', ''AUTH_HEADER_WORKER'', ''COMMAND_CANCEL_TASK'',
       ''ENDPOINT_TASK_NEXT'', ''ENDPOINT_TASK_RESULT'', ''ENDPOINT_WORKER_HEARTBEAT'',
       ''ENDPOINT_WORKER_REGISTER'', ''ERROR_CODE_CONTRACT_VIOLATION'',
       ''ERROR_CODE_DEPENDENCY'', ''ERROR_CODE_DEPENDENCY_MISSING'',
       ''ERROR_CODE_INTEGRITY_MISMATCH'', ''ERROR_CODE_INTERNAL'', ''ERROR_CODE_INVALID_INPUT'',
       ''ERROR_CODE_LIMIT_EXCEEDED'', ''ERROR_CODE_PERMANENT'',
       ''ERROR_CODE_RESOURCE_EXHAUSTED'', ''ERROR_CODE_SECURITY'', ''ERROR_CODE_TIMEOUT'',
       ''ERROR_CODE_TRANSIENT'', ''HB_RESP_REQUIRE_FULL_SYNC'', ''HB_RESP_CANCEL_TASKS'',
       ''JOB_STATUS_CANCELLED'', ''JOB_STATUS_ERROR'', ''JOB_STATUS_FAILED'',
       ''JOB_STATUS_FINISHED'', ''JOB_STATUS_PENDING'', ''JOB_STATUS_QUARANTINED'',
       ''JOB_STATUS_RUNNING'', ''JOB_STATUS_WAITING_FOR_HUMAN'',
       ''JOB_STATUS_WAITING_FOR_PARALLEL'', ''JOB_STATUS_WAITING_FOR_WORKER'',
       ''EVENT_TYPE_PROGRESS'', ''PROTOCOL_VERSION'', ''STS_TOKEN_ENDPOINT'',
       ''TASK_STATUS_CANCELLED'', ''TASK_STATUS_FAILURE'', ''TASK_STATUS_SUCCESS'',
       ''WORKER_API_PREFIX'', ''WS_ENDPOINT'']"

definition exception_exports :: "string list" where
  "exception_exports =
     [''RxonError'', ''RxonNetworkError'', ''RxonAuthError'', ''RxonProtocolError'',
       ''IntegrityError'', ''ParamValidationError'', ''S3ConfigMismatchError'']"

definition model_exports :: "string list" where
  "model_exports =
     [''DeviceUsage'', ''ExecutionReceipt'', ''FileMetadata'', ''HardwareDevice'',
       ''Heartbeat'', ''InstalledArtifact'', ''Resources'', ''ResourcesUsage'',
       ''SecurityContext'', ''SkillInfo'', ''TaskError'', ''TaskPayload'', ''TaskResult'',
       ''TokenResponse'', ''WorkerCapabilities'', ''WorkerCommand'', ''WorkerEventPayload'',
       ''WorkerRegistration'']"

definition security_exports :: "string list" where
  "security_exports =
     [''create_client_ssl_context'', ''create_server_ssl_context'', ''extract_cert_identity'',
       ''sign_payload_ed25519'', ''verify_signature_ed25519'', ''sign_bubbling_chain'',
       ''verify_bubbling_chain_signature'', ''sign_bubbling_chain_hmac'',
       ''verify_bubbling_chain_hmac'']"

definition interface_exports :: "string list" where
  "interface_exports =
     [''Listener'', ''Transport'']"

definition factory_exports :: "string list" where
  "factory_exports =
     [''create_transport'']"

definition client_exports :: "string list" where
  "client_exports =
     [''HttpTransport'']"

definition listener_exports :: "string list" where
  "listener_exports =
     [''HttpListener'']"

definition utils_exports :: "string list" where
  "utils_exports =
     [''from_dict'', ''to_dict'', ''loads'']"

definition validator_exports :: "string list" where
  "validator_exports =
     [''is_valid_identifier'', ''validate_identifier'']"

definition schema_exports :: "string list" where
  "schema_exports =
     [''extract_input_schema_from_func'', ''extract_output_schema_from_func'',
       ''extract_schema_from_func'', ''extract_skill_contract'', ''extract_json_schema'',
       ''get_compiled_validator'', ''validate_data'', ''Header'']"

definition package_imports :: "stmt list" where
  "package_imports = [blob_import, constant_import, exception_import, model_import,
    schema_import, security_import, interface_import, factory_import, client_import,
    listener_import, utils_import, validator_import]"

definition package_exports :: "string list" where
  "package_exports = blob_exports @ constant_exports @ exception_exports @ model_exports @
    security_exports @ interface_exports @ factory_exports @ client_exports @ listener_exports @
    utils_exports @ validator_exports @ schema_exports"

definition package_body :: "stmt list" where
  "package_body = package_imports @ [Copy ''__version__'' ''PROTOCOL_VERSION'', Set_all package_exports]"

definition rxon_modules :: "mpath list" where
  "rxon_modules = [
     [''rxon''],
     [''rxon'', ''constants''],
     [''rxon'', ''exceptions''],
     [''rxon'', ''schema''],
     [''rxon'', ''models''],
     [''rxon'', ''blob''],
     [''rxon'', ''utils''],
     [''rxon'', ''security''],
     [''rxon'', ''testing''],
     [''rxon'', ''validators''],
     [''rxon'', ''transports''],
     [''rxon'', ''transports'', ''base''],
     [''rxon'', ''transports'', ''factory''],
     [''rxon'', ''transports'', ''http''],
     [''rxon'', ''transports'', ''http_server'']]"

definition rxon_body :: "mpath \<Rightarrow> stmt list option" where
  "rxon_body p =
     (if p = [''rxon''] then Some package_body else
     (if p = [''rxon'', ''constants''] then Some constants_body else
     (if p = [''rxon'', ''exceptions''] then Some exceptions_body else
     (if p = [''rxon'', ''schema''] then Some schema_body else
     (if p = [''rxon'', ''models''] then Some models_body else
     (if p = [''rxon'', ''blob''] then Some blob_body else
     (if p = [''rxon'', ''utils''] then Some utils_body else
     (if p = [''rxon'', ''security''] then Some security_body else
     (if p = [''rxon'', ''testing''] then Some testing_body else
     (if p = [''rxon'', ''validators''] then Some validators_body else
     (if p = [''rxon'', ''transports''] then Some transports_body else
     (if p = [''rxon'', ''transports'', ''base''] then Some base_body else
     (if p = [''rxon'', ''transports'', ''factory''] then Some factory_body else
     (if p = [''rxon'', ''transports'', ''http''] then Some http_body else
     (if p = [''rxon'', ''transports'', ''http_server''] then Some http_server_body else None)))))))))))))))"

definition rxon :: program where
  "rxon = \<lparr>pbody = rxon_body,
     is_package = (\<lambda>p. p \<in> {[''rxon''], [''rxon'', ''transports'']})\<rparr>"

text \<open>The packages declared in \<^verbatim>\<open>pyproject.toml\<close>, and the parts of the standard library in use.\<close>

definition declared_dependencies :: "string list" where
  "declared_dependencies = [''aiohttp'', ''orjson'', ''msgspec'', ''fastjsonschema'', ''cryptography'']"

definition standard_library :: "string list" where
  "standard_library = [''__future__'', ''abc'', ''asyncio'', ''collections'', ''contextlib'', ''dataclasses'',
     ''datetime'', ''email'', ''enum'', ''hashlib'', ''hmac'', ''inspect'', ''logging'', ''pathlib'', ''re'',
     ''ssl'', ''threading'', ''types'', ''typing'', ''urllib'', ''uuid'']"

text \<open>The library names the modules ask for.\<close>

definition rxon_requirements :: "(mpath \<times> string) list" where
  "rxon_requirements = concat (map (requires rxon) rxon_modules)"

subsection \<open>Checks on the text of the modules\<close>

definition rxon_rank :: "mpath \<Rightarrow> nat" where
  "rxon_rank p = (case map_of
     [([''rxon''], 6), ([''rxon'', ''exceptions''], 1), ([''rxon'', ''models''], 1), ([''rxon'', ''blob''], 2),
      ([''rxon'', ''security''], 1), ([''rxon'', ''transports'', ''base''], 2),
      ([''rxon'', ''testing''], 3), ([''rxon'', ''transports'', ''http''], 3),
      ([''rxon'', ''transports'', ''http_server''], 3), ([''rxon'', ''transports'', ''factory''], 4)] p
   of Some r \<Rightarrow> r | None \<Rightarrow> 0)"

lemma pbody_modules: "pbody rxon p \<noteq> None \<longleftrightarrow> p \<in> set rxon_modules"
  by (simp add: rxon_def rxon_modules_def rxon_body_def)

lemma internal_rxon: "internal rxon p \<longleftrightarrow> p \<noteq> [] \<and> hd p = ''rxon''"
  by (auto simp: internal_def rxon_def rxon_body_def)

lemma module_stmts_none: "p \<notin> set rxon_modules \<Longrightarrow> module_stmts rxon p = []"
  using pbody_modules [of p] by (simp add: module_stmts_def)

definition module_ordered :: "mpath \<Rightarrow> bool" where
  "module_ordered p = stmts_ordered rxon [''rxon''] rxon_rank p [''__name__''] (module_stmts rxon p)"

lemma requirements_check:
  "list_all (\<lambda>r. hd (fst r) \<in> set (standard_library @ declared_dependencies)) rxon_requirements"
  by code_simp

lemma ordered_check_package: "module_ordered [''rxon'']"
  by code_simp

lemma ordered_check_transports:
  "list_all module_ordered [[''rxon'', ''transports''], [''rxon'', ''transports'', ''base''],
     [''rxon'', ''transports'', ''factory''], [''rxon'', ''transports'', ''http''],
     [''rxon'', ''transports'', ''http_server'']]"
  by code_simp

lemma ordered_check_core:
  "list_all module_ordered [[''rxon'', ''constants''], [''rxon'', ''exceptions''], [''rxon'', ''schema''],
     [''rxon'', ''models''], [''rxon'', ''blob''], [''rxon'', ''utils''], [''rxon'', ''security''],
     [''rxon'', ''testing''], [''rxon'', ''validators'']]"
  by code_simp

lemma rxon_ordered: "ordered_program rxon [''rxon''] rxon_rank"
proof -
  have "\<forall>p\<in>set rxon_modules. module_ordered p"
    using ordered_check_package ordered_check_transports ordered_check_core by (simp add: rxon_modules_def)
  then show ?thesis by (simp add: ordered_program_def pbody_modules module_ordered_def del: not_None_eq)
qed

definition parts_ok :: "mpath \<Rightarrow> bool" where
  "parts_ok p \<longleftrightarrow> (case p of [] \<Rightarrow> False | r # t \<Rightarrow> r = ''rxon'') \<and>
     list_all (\<lambda>q. q \<in> set rxon_modules \<and> rxon_rank q \<le> 6) (parts [] p)"

lemma parts_check: "list_all parts_ok rxon_modules"
  by code_simp

text \<open>
  A statement of the package that imports names under which their module defines objects, and
  the names it exports of them.
\<close>

definition reexport_ok :: "stmt \<times> string list \<Rightarrow> bool" where
  "reexport_ok se =
     (case fst se of
        From_import l q names \<Rightarrow>
          l = 0 \<and> q \<in> set rxon_modules \<and> list_all (\<lambda>na. snd na = fst na) names \<and>
          list_all (\<lambda>n. n \<in> set (map fst names)) (snd se) \<and>
          list_all (\<lambda>na. fst na \<noteq> ''__all__'' \<and> q @ [fst na] \<notin> set rxon_modules \<and>
            (if fst na = ''loads'' then q = [''rxon'', ''utils''] else fst na \<notin> set (others_of rxon q))) names
      | _ \<Rightarrow> False)"

definition reexports :: "(stmt \<times> string list) list" where
  "reexports =
  [(blob_import, blob_exports), (constant_import, constant_exports), (exception_import, exception_exports),
   (model_import, model_exports), (schema_import, schema_exports), (security_import, security_exports),
   (interface_import, interface_exports), (factory_import, factory_exports), (client_import, client_exports),
   (listener_import, listener_exports), (utils_import, utils_exports), (validator_import, validator_exports)]"

lemma reexport_check: "list_all reexport_ok reexports"
  by code_simp

lemma exports_cover:
  assumes "n \<in> set package_exports"
  obtains imp exps where "(imp, exps) \<in> set reexports" and "n \<in> set exps"
  using assms by (auto simp: package_exports_def reexports_def)

lemma reexports_package: "fst ` set reexports = set package_imports"
  by (simp add: reexports_def package_imports_def insert_commute)

lemma exports_names_check:
  "list_all (\<lambda>n. n \<noteq> ''__all__'' \<and> n \<noteq> ''__version__'' \<and> n \<noteq> ''__name__'' \<and> pbody rxon ([''rxon'', n]) = None)
     package_exports"
  by code_simp

subsection \<open>The package can be imported, and exports what its modules define\<close>

lemma package_stmts: "module_stmts rxon [''rxon''] = package_body"
  by (simp add: module_stmts_def rxon_def rxon_body_def)

lemma rxon_parts:
  assumes "p \<in> set rxon_modules"
  obtains t where "p = ''rxon'' # t"
    and "\<forall>q \<in> set (parts [] p). pbody rxon q \<noteq> None \<and> rxon_rank q \<le> rxon_rank [''rxon'']"
proof -
  have "parts_ok p" using assms parts_check by (simp add: list_all_iff)
  moreover have "rxon_rank [''rxon''] = 6" by (simp add: rxon_rank_def)
  ultimately show ?thesis using that
    by (cases p) (auto simp: parts_ok_def list_all_iff pbody_modules simp del: not_None_eq)
qed

lemma satisfied_requirements:
  "(\<forall>p. satisfied provides rxon p) \<longleftrightarrow> (\<forall>(l, n) \<in> set rxon_requirements. provides l n)"
proof -
  have "set (requires rxon p) = {}" if "p \<notin> set rxon_modules" for p
    using that by (simp add: requires_def module_stmts_none)
  then show ?thesis unfolding satisfied_def rxon_requirements_def by auto
qed

definition module_targets :: "mpath \<Rightarrow> mpath list" where
  "module_targets p = concat (map (stmt_targets rxon p) (module_stmts rxon p))"

definition package_targets :: "mpath list" where
  "package_targets = [[''rxon'', ''blob''], [''rxon'', ''constants''], [''rxon'', ''exceptions''],
     [''rxon'', ''models''], [''rxon'', ''schema''], [''rxon'', ''security''], [''rxon'', ''transports'', ''base''],
     [''rxon'', ''transports'', ''factory''], [''rxon'', ''transports'', ''http''],
     [''rxon'', ''transports'', ''http_server''], [''rxon'', ''utils''], [''rxon'', ''validators'']]"

lemma package_targets_check: "module_targets [''rxon''] = package_targets"
  by code_simp

lemma factory_targets_check: "module_targets [''rxon'', ''transports'', ''factory''] =
    [[''rxon'', ''testing''], [''rxon'', ''transports'', ''base''], [''rxon'', ''transports'', ''http'']]"
  by code_simp

lemma rxon_all_loaded:
  assumes "import_module provides rxon k p [] = Inr ms" and "p \<in> set rxon_modules"
  shows "\<forall>q\<in>set rxon_modules. loaded ms q \<or> q = [''rxon'', ''transports'']"
proof -
  from rxon_parts [OF assms(2)] obtain t where p: "p = ''rxon'' # t" by blast
  note fin = import_finished(2) [OF assms(1)]
  have targets: "\<forall>q \<in> set (module_targets p'). loaded ms q" if "loaded ms p'" for p'
    using finished_targets [OF fin [OF _ that]] p by (auto simp: module_targets_def)
  from assms(1) p have "loaded ms [''rxon'']" by (auto intro: import_root_loaded)
  from targets [OF this] have l: "\<forall>q \<in> set package_targets. loaded ms q" by (simp add: package_targets_check)
  then have "loaded ms [''rxon'', ''transports'', ''factory'']" by (simp add: package_targets_def)
  from targets [OF this] have "loaded ms [''rxon'', ''testing'']" by (simp add: factory_targets_check)
  with l \<open>loaded ms [''rxon'']\<close> show ?thesis by (simp add: rxon_modules_def package_targets_def)
qed

lemma package_import_iff:
  assumes "p \<in> set rxon_modules" and "6 < k"
  shows "(\<exists>ms. import_module provides rxon k p [] = Inr ms) \<longleftrightarrow>
    (\<forall>(l, n) \<in> set rxon_requirements. provides l n)"
proof
  assume "\<exists>ms. import_module provides rxon k p [] = Inr ms"
  then obtain ms where ms: "import_module provides rxon k p [] = Inr ms" ..
  from rxon_parts [OF assms(1)] have "p \<noteq> []" by blast
  have "satisfied provides rxon q" for q
  proof (cases "loaded ms q")
    case True
    with import_finished(2) [OF ms \<open>p \<noteq> []\<close>] show ?thesis by (blast intro: finished_satisfied)
  next
    case False
    with rxon_all_loaded [OF ms assms(1)] have "q \<notin> set rxon_modules \<or> q = [''rxon'', ''transports'']" by blast
    moreover have "module_stmts rxon [''rxon'', ''transports''] = []"
      by (simp add: module_stmts_def rxon_def rxon_body_def transports_body_def)
    ultimately show ?thesis by (auto simp: satisfied_def requires_def module_stmts_none)
  qed
  then show "\<forall>(l, n) \<in> set rxon_requirements. provides l n" by (simp add: satisfied_requirements [symmetric])
next
  assume "\<forall>(l, n) \<in> set rxon_requirements. provides l n"
  then have sat: "\<And>p. satisfied provides rxon p" by (simp add: satisfied_requirements [symmetric])
  from rxon_parts [OF assms(1)] obtain t where p: "p = ''rxon'' # t"
    and parts: "\<forall>q \<in> set (parts [] p). pbody rxon q \<noteq> None \<and> rxon_rank q \<le> rxon_rank [''rxon'']" .
  have "rxon_rank [''rxon''] < k" using assms(2) by (simp add: rxon_rank_def)
  from ordered_import_progress [OF rxon_ordered sat parts [unfolded p] this] p
  show "\<exists>ms. import_module provides rxon k p [] = Inr ms" by simp
qed

text \<open>
  C8: Whatever module of the package is imported first, with more than six nested imports allowed,
  the import succeeds exactly when every library name that the modules import is installed: no
  circular import, no missing name, nothing read before it is bound.
\<close>
theorem package_import:
  assumes "p \<in> set rxon_modules" and "6 < k"
  shows "(\<exists>ms. import_module provides rxon k p [] = Inr ms) \<longleftrightarrow>
    (\<forall>(l, n) \<in> set rxon_requirements. provides l n)"
  by (rule package_import_iff [OF assms])

lemma package_import_witness:
  "\<exists>ms. import_module (\<lambda>_ _. True) rxon 7 [''rxon'', ''transports'', ''http''] [] = Inr ms"
  using package_import [of "[''rxon'', ''transports'', ''http'']" 7 "\<lambda>_ _. True"]
  by (simp add: rxon_modules_def)

lemma package_import_shape:
  assumes "s \<in> set package_imports"
  shows "\<exists>l q names. s = From_import l q names \<and> l = 0 \<and> internal rxon q \<and>
    (\<forall>na\<in>set names. snd na = fst na \<and> fst na \<noteq> ''__all__'')"
proof -
  from assms obtain e where "(s, e) \<in> set reexports" unfolding reexports_package [symmetric] by auto
  with reexport_check have "reexport_ok (s, e)" by (auto simp: list_all_iff)
  then show ?thesis
    by (auto simp: reexport_ok_def list_all_iff internal_rxon rxon_modules_def split: stmt.splits)
qed

lemma package_binds_export:
  assumes n: "n \<in> set package_exports" and v: "binds rxon [''rxon''] n v"
  obtains q names where "From_import 0 q names \<in> set package_imports" and "(n, n) \<in> set names"
    and "internal rxon q" and "binds rxon q n v"
proof -
  from n exports_names_check have plain: "n \<noteq> ''__all__''" "n \<noteq> ''__version__''" "n \<noteq> ''__name__''"
      "pbody rxon [''rxon'', n] = None"
    by (simp_all add: list_all_iff)
  note imp = package_import_shape
  from v show ?thesis
  proof (cases rule: binds.cases)
    case (binds_def uses)
    with imp show ?thesis by (auto simp: package_stmts package_body_def)
  next
    case (binds_copy m)
    with imp plain show ?thesis by (auto simp: package_stmts package_body_def)
  next
    case (binds_library level q names a)
    with imp show ?thesis by (force simp: package_stmts package_body_def resolve_name_def)
  next
    case (binds_import level q names f a)
    with imp that show ?thesis by (force simp: package_stmts package_body_def resolve_name_def)
  qed (use plain in auto)
qed

lemma utils_loads: "binds rxon [''rxon'', ''utils''] ''loads'' v \<Longrightarrow> v = Library [''orjson''] ''loads''"
proof -
  have b: "module_stmts rxon [''rxon'', ''utils''] = utils_body"
    by (simp add: module_stmts_def rxon_def rxon_body_def)
  have s: "pbody rxon [''rxon'', ''utils'', ''loads''] = None"
    by (simp add: rxon_def rxon_body_def)
  assume "binds rxon [''rxon'', ''utils''] ''loads'' v"
  then show ?thesis
    by (cases rule: binds.cases)
      (auto simp: b s utils_body_def same_def resolve_name_def internal_rxon)
qed

text \<open>The object an exported name of the package stands for.\<close>

definition export_object :: "mpath \<Rightarrow> string \<Rightarrow> pyobj" where
  "export_object q n = (if n = ''loads'' then Library [''orjson''] n else Defined q n)"

lemma package_export_object:
  assumes "import_module provides rxon k p [] = Inr ms" and "p \<in> set rxon_modules" and n: "n \<in> set package_exports"
  shows "\<exists>q names. From_import 0 q names \<in> set package_imports \<and> (n, n) \<in> set names \<and>
    dget n (namespace ms [''rxon'']) = Some (export_object q n)"
proof -
  from rxon_parts [OF assms(2)] obtain t where p: "p = ''rxon'' # t" by blast
  with assms(1) have r: "loaded ms [''rxon'']" by (auto intro: import_root_loaded)
  from n obtain imp exps where "(imp, exps) \<in> set reexports" and "n \<in> set exps" by (rule exports_cover)
  with reexport_check have ok: "reexport_ok (imp, exps)" by (auto simp: list_all_iff)
  with \<open>n \<in> set exps\<close> have "n \<in> set (stmt_binds imp)"
    by (auto simp: reexport_ok_def list_all_iff split: stmt.splits)
  moreover have "imp \<in> set package_imports"
    using \<open>(imp, exps) \<in> set reexports\<close> unfolding reexports_package [symmetric] by force
  ultimately have "n \<in> set (module_binds rxon [''rxon''])"
    by (auto simp: module_binds_def package_stmts package_body_def)
  from finished_bound_object [OF assms(1) _ r this] p
  obtain v where v: "dget n (namespace ms [''rxon'']) = Some v" "binds rxon [''rxon''] n v" by auto
  from package_binds_export [OF n v(2)] obtain q names where
    q: "From_import 0 q names \<in> set package_imports" "(n, n) \<in> set names" "binds rxon q n v" by blast
  from q(1) obtain e where "(From_import 0 q names, e) \<in> set reexports" unfolding reexports_package [symmetric] by auto
  with reexport_check have "reexport_ok (From_import 0 q names, e)" by (auto simp: list_all_iff)
  with q(2) have "q @ [n] \<notin> set rxon_modules"
    and other: "if n = ''loads'' then q = [''rxon'', ''utils''] else n \<notin> set (others_of rxon q)"
    by (force simp: reexport_ok_def list_all_iff)+
  then have "pbody rxon (q @ [n]) = None" using pbody_modules by blast
  with q(3) other have "v = export_object q n"
    by (auto simp: export_object_def dest: utils_loads own_definition split: if_splits)
  with q v show ?thesis by blast
qed

text \<open>
  C25: After any import of the package, each name it exports is bound in rxon to the object of
  that name that the module it is imported from defines; loads is orjson's.
\<close>
theorem exports_are_definitions:
  assumes "import_module provides rxon k p [] = Inr ms" and "p \<in> set rxon_modules" and "n \<in> set package_exports"
  shows "\<exists>q names. From_import 0 q names \<in> set package_imports \<and> (n, n) \<in> set names \<and>
    dget n (namespace ms [''rxon'']) = Some (export_object q n)"
  by (rule package_export_object [OF assms])

lemma package_binds_all:
  assumes "binds rxon [''rxon''] ''__all__'' v"
  shows "v = Export_list package_exports"
  using assms
proof (cases rule: binds.cases)
  case (binds_library level q names a)
  with package_import_shape show ?thesis
    by (force simp: package_stmts package_body_def resolve_name_def)
next
  case (binds_import level q names f a)
  with package_import_shape show ?thesis
    by (force simp: package_stmts package_body_def)
next
  case (binds_submodule)
  then show ?thesis by (simp add: rxon_def rxon_body_def)
qed (auto simp: package_stmts package_body_def dest!: package_import_shape)

lemma exports_are_definitions_witness:
  "\<exists>ms. import_module (\<lambda>_ _. True) rxon 7 [''rxon''] [] = Inr ms \<and>
    (\<exists>q names. From_import 0 q names \<in> set package_imports \<and> (''HttpTransport'', ''HttpTransport'') \<in> set names \<and>
      dget ''HttpTransport'' (namespace ms [''rxon'']) = Some (Defined q ''HttpTransport''))"
proof -
  have p: "[''rxon''] \<in> set rxon_modules" by (simp add: rxon_modules_def)
  from package_import_iff [OF p, of 7 "\<lambda>_ _. True"]
  obtain ms where ms: "import_module (\<lambda>_ _. True) rxon 7 [''rxon''] [] = Inr ms" by auto
  have "''HttpTransport'' \<in> set package_exports" by (simp add: package_exports_def client_exports_def)
  from exports_are_definitions [OF ms p this] ms show ?thesis by (simp add: export_object_def)
qed

text \<open>
  A star import of the package raises nothing and binds exactly the names of __all__.
\<close>
theorem package_star_import:
  assumes "import_module provides rxon k p [] = Inr ms" and "p \<in> set rxon_modules"
  shows "star_names (namespace ms [''rxon'']) = package_exports \<and>
    (\<exists>d. star_import (namespace ms [''rxon'']) package_exports here = Inr d \<and>
       (\<forall>n. dget n d = (if n \<in> set package_exports then dget n (namespace ms [''rxon'']) else dget n here)))"
proof -
  let ?ns = "namespace ms [''rxon'']"
  from rxon_parts [OF assms(2)] obtain t where p: "p = ''rxon'' # t" by blast
  with assms(1) have r: "loaded ms [''rxon'']" by (auto intro: import_root_loaded)
  have "''__all__'' \<in> set (module_binds rxon [''rxon''])"
    by (simp add: module_binds_def package_stmts package_body_def)
  from finished_bound_object [OF assms(1) _ r this] p
  obtain v where v: "dget ''__all__'' ?ns = Some v" "binds rxon [''rxon''] ''__all__'' v" by auto
  from v(2) package_binds_all have "v = Export_list package_exports" by blast
  with v(1) have "star_names ?ns = package_exports" by (simp add: star_names_def)
  moreover have "\<forall>n\<in>set package_exports. dget n ?ns \<noteq> None"
    using package_export_object [OF assms] by fastforce
  ultimately show ?thesis using star_import_ok by blast
qed

lemma package_star_import_witness:
  "\<exists>ms d. import_module (\<lambda>_ _. True) rxon 7 [''rxon''] [] = Inr ms \<and>
    star_import (namespace ms [''rxon'']) (star_names (namespace ms [''rxon''])) [] = Inr d"
proof -
  have p: "[''rxon''] \<in> set rxon_modules" by (simp add: rxon_modules_def)
  from package_import_iff [OF p, of 7 "\<lambda>_ _. True"]
  obtain ms where ms: "import_module (\<lambda>_ _. True) rxon 7 [''rxon''] [] = Inr ms" by auto
  from package_star_import [OF ms p, of "[]"] ms show ?thesis by auto
qed

text \<open>
  Every module imported from outside the package belongs to the standard library or to a
  dependency declared in pyproject.toml.
\<close>
theorem requirements_declared:
  "list_all (\<lambda>r. hd (fst r) \<in> set (standard_library @ declared_dependencies)) rxon_requirements"
  by (rule requirements_check)

text \<open>
  Of the exceptions the package defines, one that \<open>HttpTransport\<close> raises is not exported.
\<close>

lemma rate_limit_error_not_exported:
  "own_of rxon [''rxon'', ''exceptions''] =
     [''RxonError'', ''RxonNetworkError'', ''RxonAuthError'', ''RxonProtocolError'', ''RxonRateLimitError'',
      ''S3ConfigMismatchError'', ''IntegrityError'', ''ParamValidationError''] \<and>
   ''RxonRateLimitError'' \<notin> set package_exports"
  by code_simp

end
