(* ===== verification/Spec2Isabelle.thy ===== *)
theory Spec2Isabelle
  imports Rxon_Identifiers Rxon_Matching Rxon_Blob Rxon_System Rxon_Mock Rxon_Signature_Props
    Rxon_Concurrent Rxon_Threads Rxon_Package
begin

text \<open>
  RXON: the protocol library between an orchestrator and its workers
  (\<^verbatim>\<open>src/src/rxon\<close> of the repository, Python 3.11).

  \<^bold>\<open>The program.\<close>  A worker holds an \<open>HttpTransport\<close> (\<^verbatim>\<open>transports/http.py\<close>):
  it registers, polls for tasks, sends results, heartbeats and events, refreshes its token and
  listens for commands on a WebSocket.  The orchestrator mounts an \<open>HttpListener\<close>
  (\<^verbatim>\<open>transports/http_server.py\<close>), which turns every request into one call of the
  orchestrator's handler and every outcome into a response.  Both sides serialise with
  \<^verbatim>\<open>utils.py\<close>, sign with \<^verbatim>\<open>security.py\<close>, raise the classes of
  \<^verbatim>\<open>exceptions.py\<close> and speak the names of \<^verbatim>\<open>constants.py\<close>.  The messages
  are the Structs of \<^verbatim>\<open>models.py\<close>, which also match the abilities of workers with
  requirements.  \<^verbatim>\<open>schema.py\<close> derives JSON schemas from Python types and handler
  signatures, compiles them into cached validators and words their errors for users.

  \<^bold>\<open>The theories.\<close>
  \<^item> \<open>Py_Prelude\<close>, \<open>Py_Values\<close>: results as sums with an exception on the left, the loop shapes the
    code uses, dictionaries as association lists in insertion order, the string methods; Python
    objects with truth, equality, hashability and numeric order; classes of exceptions.
  \<^item> \<open>Rxon_Constants\<close>, \<open>Rxon_Errors\<close>, \<open>Rxon_Identifiers\<close>: constants and vocabularies, the class
    hierarchy as an order with the \<open>except\<close> tests, the identifier check.
  \<^item> \<open>Rxon_Matching\<close> (\<^verbatim>\<open>models.py\<close>): the four \<open>matches\<close> methods.  The greedy search is
    sound, and complete when the requirements are listed from the most demanding one on; a
    concrete pair shows that it is not complete in general.
  \<^item> \<open>Rxon_Serial\<close> (\<^verbatim>\<open>utils.py\<close>): \<open>to_dict\<close>, \<open>from_dict\<close>, \<open>json_dumps\<close>, the hash.  The
    bounded recursion equals an unbounded normalisation below the depth limit of 30 and raises
    above it; the hash of an object survives its transport.
  \<^item> \<open>Rxon_Security\<close>, \<open>Rxon_Blob\<close>: signatures and TLS contexts, with signatures that survive a
    relay and the collisions that are accepted; the configuration hash and the URI parser.
  \<^item> \<open>Rxon_Transport\<close>: the abstract classes of \<^verbatim>\<open>transports/base.py\<close> as the locales
    \<open>transport\<close> and \<open>listener_api\<close>, interpreted on \<open>HttpTransport\<close>, \<open>MockTransport\<close> and
    \<open>HttpListener\<close>.
  \<^item> \<open>Rxon_Client\<close>, \<open>Rxon_Client_Facts\<close>, \<open>Rxon_Client_Props\<close>, \<open>Rxon_Client_Ops\<close>: the client with
    its request loop, the single retry after 401, the delays of a result, its invariant.
  \<^item> \<open>Rxon_Commands\<close>: \<open>listen_for_commands\<close> as a step relation over what the connection and the
    other tasks do, with its reconnection delays.
  \<^item> \<open>Rxon_Listener\<close>, \<open>Rxon_Listener_Props\<close>: the handlers, the routes, the middleware; what an
    endpoint promises is the locale \<open>endpoint\<close>, interpreted on the seven HTTP handlers.
  \<^item> \<open>Rxon_Concurrent\<close>: coroutines that use one transport at the same time, in the steps between
    which others run; the sequential request is one of the interleavings, and what holds under
    all of them is an invariant.
  \<^item> \<open>Rxon_Link\<close>: client and listener over one connection, from end to end.  \<open>Rxon_System\<close>: a
    whole run of a client against a listener, over a network that loses requests and answers.
  \<^item> \<open>Rxon_Mock\<close>: the in-memory transport and the choice of a transport by URL.
  \<^item> \<open>Rxon_Translate\<close>, \<open>Rxon_Validation\<close>: \<open>translate_error\<close>; the cache of validators, as an
    instance of the locale \<open>bounded_cache\<close>, \<open>validate_data\<close> and \<open>validate_params\<close>.
    \<open>Rxon_Threads\<close>: threads on the cache, with its lock; the locked part is atomic.
  \<^item> \<open>Rxon_Schema\<close>: types to schemas, the code's sequence of tests as it stands, with the cache
    of schemas threaded through the recursion.  \<open>Rxon_Schema_Spec\<close> states what it promises as a
    relation without stack and cache; \<open>Rxon_Schema_Props\<close> proves the refinement and the bound
    of the cache, \<open>Rxon_Schema_Laws\<close> the form of the schemas, termination on tables without
    cycles, and failure on those with one.
  \<^item> \<open>Rxon_Messages\<close>: the message classes of \<^verbatim>\<open>models.py\<close> with their fields, types and
    defaults, and the remaining methods of \<open>SkillInfo\<close>.  \<open>Rxon_Conformance\<close>: a well-typed value
    conforms to the schema of its type, so that a validator accepts it.
  \<^item> \<open>Rxon_Signature\<close>, \<open>Rxon_Signature_Props\<close>: the input and output schemas of handlers and the
    contract of a blueprint.
  \<^item> \<open>Rxon_Imports\<close>, \<open>Rxon_Import_Order\<close>, \<open>Rxon_Package\<close>: Python's import of modules, with
    partly initialised modules in a cycle; when a program whose imports are ordered imports
    without error; the top level of every module and the exports of \<^verbatim>\<open>__init__.py\<close>.

  \<^bold>\<open>State and errors.\<close>  An object of the code is a record, a method takes and returns it.  What a
  method sends is in the log of the \<open>world\<close>; \<open>Sent\<close> means handed to aiohttp's session.  The calls
  of the orchestrator's handler are a list that the handlers extend.  A raised exception is the
  left value of a sum, so each \<open>raise\<close>, \<open>except\<close> and early return is a branch; \<open>except Exception\<close>
  does not catch a cancellation.

  \<^bold>\<open>Bounds.\<close>  Loops with a bound in the code (two attempts of a request, \<open>result_retries\<close> of a
  result, depth 30 of \<open>to_dict\<close>) have it in the model.  Two more are numbers the theorems speak of: the stack of
  \<open>python_type_to_json_schema\<close>, whose end is the \<open>RecursionError\<close> the interpreter raises, which
  the code catches or not as the source says (statements hold for every stack or for all large
  enough ones; \<open>ranked_extracts\<close> shows that there is such a size), and the imports in progress at
  one time, any number above six.

  \<^bold>\<open>Parameters and assumptions.\<close>  Strings are lists of characters with ASCII character classes.
  aiohttp, orjson, msgspec, \<open>cryptography\<close>, \<open>hmac\<close>, the TLS library, fastjsonschema, and the
  answers of \<open>inspect\<close> and \<open>typing\<close> are arguments; what is relied on is stated where it is used
  (\<open>codec_ok\<close>, \<open>keys_faithful\<close>, \<open>validator_correct\<close>, the relations of \<open>Rxon_Link\<close>, \<open>network_ok\<close> of
  \<open>Rxon_System\<close>), with an instance that satisfies it.  A float is the exact rational it denotes, an
  infinity or NaN.

  \<^bold>\<open>Not modelled.\<close>  Logging; \<open>BlobProvider\<close>, an abstract class without code; a mock poll
  without a timeout; the identity of returned schema objects (a caller that changes a cached
  schema); annotations other than those of \<open>pytype\<close> that forward attributes.
\<close>

end
